(* ===== verification/Prelude.thy ===== *)
theory Prelude
  imports Main "HOL-Library.AList" "HOL-Library.Char_ord" "HOL-Library.List_Lexorder"
    "HOL-Library.Multiset"
begin

text \<open>
  Shared vocabulary of the development: text as lists of characters with the Rust string
  operations the crates call (\<open>trim\<close>, \<open>split\<close>, \<open>starts_with\<close>, \<open>to_lowercase\<close>, integer
  parsing and printing), results as sums, association lists for hash maps, and the generic
  lemmas the component theories share.

  A Rust \<open>str\<close> is modelled as a \<^typ>\<open>string\<close> whose characters are the Unicode scalar values
  U+0000 to U+00FF; character classes and lower-casing below are Unicode's, restricted to
  that range. Machine integers that only count things are \<^typ>\<open>int\<close> or \<^typ>\<open>nat\<close>; where the
  code relies on a bound, the bound is written out.
\<close>

section \<open>Results and names\<close>

type_synonym ('e, 'a) result = "'e + 'a"

abbreviation Ok :: "'a \<Rightarrow> ('e, 'a) result" where "Ok \<equiv> Inr"
abbreviation Err :: "'e \<Rightarrow> ('e, 'a) result" where "Err \<equiv> Inl"

named_theorems str_simps \<open>facts about the string operations\<close>
named_theorems step_defs \<open>definitions of atomic steps\<close>

definition i64_max :: int where "i64_max = 2 ^ 63 - 1"
definition i64_min :: int where "i64_min = - (2 ^ 63)"
definition u32_max :: nat where "u32_max = 2 ^ 32 - 1"

section \<open>Characters\<close>

text \<open>Unicode White_Space below U+0100 (\<open>char::is_whitespace\<close>, used by \<open>str::trim\<close>).\<close>

definition is_whitespace :: "char \<Rightarrow> bool" where
  "is_whitespace c \<longleftrightarrow> (let n = (of_char c :: nat) in (9 \<le> n \<and> n \<le> 13) \<or> n = 32 \<or> n = 133 \<or> n = 160)"

definition is_ascii_digit :: "char \<Rightarrow> bool" where
  "is_ascii_digit c \<longleftrightarrow> (let n = (of_char c :: nat) in 48 \<le> n \<and> n \<le> 57)"

definition char_lower :: "char \<Rightarrow> char" where
  "char_lower c = (let n = (of_char c :: nat) in
     if (65 \<le> n \<and> n \<le> 90) \<or> (192 \<le> n \<and> n \<le> 222 \<and> n \<noteq> 215) then char_of (n + 32) else c)"

definition to_lowercase :: "string \<Rightarrow> string" where
  "to_lowercase s = map char_lower s"

section \<open>Trimming, splitting, joining\<close>

definition trim_by :: "(char \<Rightarrow> bool) \<Rightarrow> string \<Rightarrow> string" where
  "trim_by P s = rev (dropWhile P (rev (dropWhile P s)))"

definition trim :: "string \<Rightarrow> string" where
  "trim s = trim_by is_whitespace s"

definition starts_with :: "string \<Rightarrow> string \<Rightarrow> bool" where
  "starts_with p s \<longleftrightarrow> take (length p) s = p"

definition strip_prefix :: "string \<Rightarrow> string \<Rightarrow> string option" where
  "strip_prefix p s = (if starts_with p s then Some (drop (length p) s) else None)"

text \<open>\<open>str::find\<close> of a substring: the position of its first occurrence.\<close>

fun find_sub :: "string \<Rightarrow> string \<Rightarrow> nat option" where
  "find_sub p [] = (if p = [] then Some 0 else None)"
| "find_sub p (c # s) =
     (if starts_with p (c # s) then Some 0 else map_option Suc (find_sub p s))"

definition str_contains :: "string \<Rightarrow> string \<Rightarrow> bool" where
  "str_contains s p \<longleftrightarrow> find_sub p s \<noteq> None"

text \<open>\<open>str::find\<close> of a character.\<close>

fun find_char :: "char \<Rightarrow> string \<Rightarrow> nat option" where
  "find_char c [] = None"
| "find_char c (d # s) = (if d = c then Some 0 else map_option Suc (find_char c s))"

text \<open>\<open>str::split\<close> on one character: never empty, and separators are dropped.\<close>

fun split_on :: "char \<Rightarrow> string \<Rightarrow> string list" where
  "split_on c [] = [[]]"
| "split_on c (d # s) =
     (if d = c then [] # split_on c s
      else (case split_on c s of [] \<Rightarrow> [[d]] | w # ws \<Rightarrow> (d # w) # ws))"

fun join :: "string \<Rightarrow> string list \<Rightarrow> string" where
  "join sep [] = []"
| "join sep [w] = w"
| "join sep (w # ws) = w @ sep @ join sep ws"

definition split_whitespace :: "string \<Rightarrow> string list" where
  "split_whitespace s =
     filter (\<lambda>w. w \<noteq> []) (split_on CHR '' '' (map (\<lambda>c. if is_whitespace c then CHR '' '' else c) s))"

section \<open>Decimal numbers\<close>

definition digit_char :: "nat \<Rightarrow> char" where "digit_char d = char_of (48 + d)"
definition char_digit :: "char \<Rightarrow> nat" where "char_digit c = of_char c - 48"

fun show_nat :: "nat \<Rightarrow> string" where
  "show_nat n = (if n < 10 then [digit_char n] else show_nat (n div 10) @ [digit_char (n mod 10)])"
declare show_nat.simps [simp del]

definition show_int :: "int \<Rightarrow> string" where
  "show_int i = (if i < 0 then CHR ''-'' # show_nat (nat (- i)) else show_nat (nat i))"

definition digits_value :: "string \<Rightarrow> nat" where
  "digits_value ds = foldl (\<lambda>acc c. 10 * acc + char_digit c) 0 ds"

definition parse_digits :: "string \<Rightarrow> nat option" where
  "parse_digits s = (if s \<noteq> [] \<and> list_all is_ascii_digit s then Some (digits_value s) else None)"

text \<open>\<open>str::parse::<u32>\<close> and \<open>str::parse::<i64>\<close>: an optional sign, digits, no overflow.\<close>

definition parse_u32 :: "string \<Rightarrow> nat option" where
  "parse_u32 s =
     (case parse_digits (case s of c # r \<Rightarrow> if c = CHR ''+'' then r else s | [] \<Rightarrow> s) of
        None \<Rightarrow> None
      | Some n \<Rightarrow> if n \<le> u32_max then Some n else None)"

definition parse_i64 :: "string \<Rightarrow> int option" where
  "parse_i64 s =
     (case s of
        [] \<Rightarrow> None
      | c # r \<Rightarrow>
          if c = CHR ''-'' then
            (case parse_digits r of None \<Rightarrow> None
             | Some n \<Rightarrow> if - int n \<ge> i64_min then Some (- int n) else None)
          else
            (case parse_digits (if c = CHR ''+'' then r else s) of None \<Rightarrow> None
             | Some n \<Rightarrow> if int n \<le> i64_max then Some (int n) else None))"

section \<open>Lemmas on strings\<close>

lemma dropWhile_idem: "dropWhile P (dropWhile P xs) = dropWhile P xs"
  by (induction xs) auto

lemma dropWhile_eq_self_iff: "dropWhile P xs = xs \<longleftrightarrow> (xs = [] \<or> \<not> P (hd xs))"
proof (cases xs)
  case (Cons y ys)
  have "length (dropWhile P ys) \<le> length ys" by (rule length_dropWhile_le)
  then show ?thesis using Cons by (auto dest: arg_cong [where f = length])
qed simp

lemma trim_by_Nil [simp]: "trim_by P [] = []"
  by (simp add: trim_by_def)

lemma trim_Nil [simp]: "trim [] = []"
  by (simp add: trim_def)

lemma hd_rev_dropWhile_rev:
  "dropWhile P xs = xs \<Longrightarrow> dropWhile P (rev (dropWhile P (rev xs))) = rev (dropWhile P (rev xs))"
proof -
  assume a: "dropWhile P xs = xs"
  obtain ys where ys: "xs = rev (dropWhile P (rev xs)) @ ys"
    by (metis append_Nil2 rev_append rev_rev_ident takeWhile_dropWhile_id)
  show ?thesis
  proof (cases "rev (dropWhile P (rev xs)) = []")
    case False
    then have "hd (rev (dropWhile P (rev xs)) @ ys) = hd (rev (dropWhile P (rev xs)))"
      by (rule hd_append2)
    then have "hd (rev (dropWhile P (rev xs))) = hd xs"
      using ys by metis
    moreover have "xs \<noteq> []" using False by auto
    ultimately show ?thesis using a False by (simp add: dropWhile_eq_self_iff)
  next
    case True
    then show ?thesis by (simp only: True dropWhile.simps)
  qed
qed

lemma trim_by_idem [simp]: "trim_by P (trim_by P s) = trim_by P s"
proof -
  let ?d = "dropWhile P s"
  have "dropWhile P ?d = ?d" by (rule dropWhile_idem)
  then have "dropWhile P (rev (dropWhile P (rev ?d))) = rev (dropWhile P (rev ?d))"
    by (rule hd_rev_dropWhile_rev)
  then show ?thesis by (simp add: trim_by_def dropWhile_idem)
qed

lemma trim_idem [simp]: "trim (trim s) = trim s"
  by (simp add: trim_def)

lemma trim_by_noop: "s \<noteq> [] \<Longrightarrow> \<not> P (hd s) \<Longrightarrow> \<not> P (last s) \<Longrightarrow> trim_by P s = s"
proof -
  assume a: "s \<noteq> []" "\<not> P (hd s)" "\<not> P (last s)"
  then have "dropWhile P s = s" and "dropWhile P (rev s) = rev s"
    by (simp_all add: dropWhile_eq_self_iff hd_rev)
  then show ?thesis by (simp add: trim_by_def)
qed

lemma starts_with_append [simp]: "starts_with p (p @ s)"
  by (simp add: starts_with_def)

lemma starts_with_iff: "starts_with p s \<longleftrightarrow> (\<exists>r. s = p @ r)"
  by (auto simp: starts_with_def) (metis append_take_drop_id)

lemma strip_prefix_append [simp]: "strip_prefix p (p @ s) = Some s"
  by (simp add: strip_prefix_def)

lemma find_char_None: "find_char c s = None \<longleftrightarrow> c \<notin> set s"
  by (induction s) auto

lemma find_char_append: "c \<notin> set a \<Longrightarrow> find_char c (a @ c # b) = Some (length a)"
  by (induction a) auto

lemma find_char_Some:
  "find_char c s = Some i \<Longrightarrow> i < length s \<and> s ! i = c \<and> c \<notin> set (take i s)"
proof (induction s arbitrary: i)
  case (Cons d s)
  then show ?case by (cases i) (auto split: if_splits)
qed simp

lemma find_sub_bound: "find_sub p s = Some i \<Longrightarrow> i + length p \<le> length s"
proof (induction s arbitrary: i)
  case (Cons c s)
  show ?case
  proof (cases "starts_with p (c # s)")
    case True
    then have "length p \<le> length (c # s)" by (metis length_take min.cobounded1 starts_with_def)
    with True Cons.prems show ?thesis by simp
  next
    case False
    with Cons show ?thesis by auto
  qed
qed (simp split: if_splits)

lemma split_on_not_Nil [simp]: "split_on c s \<noteq> []"
  by (induction s) (auto split: list.splits)

lemma split_on_no_sep: "c \<notin> set s \<Longrightarrow> split_on c s = [s]"
  by (induction s) (auto split: list.splits)

lemma split_on_append_sep: "c \<notin> set w \<Longrightarrow> split_on c (w @ c # s) = w # split_on c s"
  by (induction w) auto

lemma split_on_parts: "w \<in> set (split_on c s) \<Longrightarrow> c \<notin> set w"
proof (induction s arbitrary: w)
  case (Cons d s)
  then show ?case by (cases "split_on c s") (auto split: if_splits)
qed simp

lemma split_on_join:
  "ws \<noteq> [] \<Longrightarrow> \<forall>w \<in> set ws. c \<notin> set w \<Longrightarrow> split_on c (join [c] ws) = ws"
  by (induction "[c]" ws rule: join.induct) (auto simp: split_on_no_sep split_on_append_sep)

lemma join_split_on: "join [c] (split_on c s) = s"
proof (induction s)
  case (Cons d s)
  then show ?case by (cases "split_on c s"; cases "tl (split_on c s)") auto
qed simp

subsection \<open>Decimal round trips\<close>

lemma char_digit_digit_char [simp]: "d < 10 \<Longrightarrow> char_digit (digit_char d) = d"
  by (simp add: char_digit_def digit_char_def)

lemma is_ascii_digit_digit_char [simp]: "d < 10 \<Longrightarrow> is_ascii_digit (digit_char d)"
  by (simp add: is_ascii_digit_def digit_char_def)

lemma show_nat_not_Nil [simp]: "show_nat n \<noteq> []"
  by (subst show_nat.simps) simp

lemma show_nat_digits: "list_all is_ascii_digit (show_nat n)"
proof (induction n rule: show_nat.induct)
  case (1 n)
  then show ?case by (subst show_nat.simps) simp
qed

lemma digits_value_show_nat: "digits_value (show_nat n) = n"
proof (induction n rule: show_nat.induct)
  case (1 n)
  show ?case
  proof (cases "n < 10")
    case True
    then show ?thesis by (subst show_nat.simps) (simp add: digits_value_def)
  next
    case False
    with 1 have "digits_value (show_nat (n div 10)) = n div 10" by simp
    with False show ?thesis by (subst show_nat.simps) (simp add: digits_value_def)
  qed
qed

lemma parse_digits_show_nat [simp]: "parse_digits (show_nat n) = Some n"
  by (simp add: parse_digits_def show_nat_digits digits_value_show_nat)

lemma hd_show_nat_digit: "is_ascii_digit (hd (show_nat n))"
  using show_nat_digits [of n] by (cases "show_nat n") simp_all

lemma digit_not_sign: "is_ascii_digit c \<Longrightarrow> c \<noteq> CHR ''-'' \<and> c \<noteq> CHR ''+''"
  by (auto simp: is_ascii_digit_def)

lemma show_nat_hd_not_sign:
  "show_nat n = c # r \<Longrightarrow> c \<noteq> CHR ''-'' \<and> c \<noteq> CHR ''+''"
  using hd_show_nat_digit [of n] digit_not_sign by fastforce

lemma parse_i64_show_int:
  "i64_min \<le> i \<Longrightarrow> i \<le> i64_max \<Longrightarrow> parse_i64 (show_int i) = Some i"
proof (cases "i < 0")
  case True
  then show "i64_min \<le> i \<Longrightarrow> ?thesis" by (simp add: show_int_def parse_i64_def)
next
  case False
  assume "i \<le> i64_max"
  obtain c r where s: "show_nat (nat i) = c # r" by (cases "show_nat (nat i)") auto
  with show_nat_hd_not_sign [OF s] parse_digits_show_nat [of "nat i"] False \<open>i \<le> i64_max\<close>
  show ?thesis by (simp add: show_int_def parse_i64_def)
qed

lemma parse_i64_bounds: "parse_i64 s = Some i \<Longrightarrow> i64_min \<le> i \<and> i \<le> i64_max"
  by (auto simp: parse_i64_def i64_min_def i64_max_def split: list.splits if_splits option.splits)

section \<open>Association lists as hash maps\<close>

text \<open>
  A \<open>HashMap\<close> that the code iterates over is an association list with distinct keys:
  \<open>AList.update\<close> is \<open>insert\<close>, \<open>AList.delete\<close> is \<open>remove\<close>, \<open>map_of\<close> is \<open>get\<close>. Where the
  code only looks keys up, a map \<open>'k \<rightharpoonup> 'v\<close> is used instead.
\<close>

definition keys_distinct :: "('k \<times> 'v) list \<Rightarrow> bool" where
  "keys_distinct al \<longleftrightarrow> distinct (map fst al)"

lemma keys_distinct_Nil [simp]: "keys_distinct []"
  by (simp add: keys_distinct_def)

lemma keys_distinct_update [simp]: "keys_distinct al \<Longrightarrow> keys_distinct (AList.update k v al)"
  by (simp add: keys_distinct_def distinct_update)

lemma keys_distinct_delete [simp]: "keys_distinct al \<Longrightarrow> keys_distinct (AList.delete k al)"
  by (simp add: keys_distinct_def distinct_delete)

lemma map_of_update [simp]: "map_of (AList.update k v al) = (map_of al)(k \<mapsto> v)"
  by (simp add: update_conv')

lemma map_of_delete [simp]: "map_of (AList.delete k al) = (map_of al)(k := None)"
  by (simp add: delete_conv')

text \<open>\<open>entry(k).or_default()\<close> followed by an in-place change.\<close>

definition entry_update :: "'k \<Rightarrow> 'v \<Rightarrow> ('v \<Rightarrow> 'v) \<Rightarrow> ('k \<times> 'v) list \<Rightarrow> ('k \<times> 'v) list" where
  "entry_update k d f al =
     AList.update k (f (case map_of al k of None \<Rightarrow> d | Some v \<Rightarrow> v)) al"

lemma map_of_entry_update [simp]:
  "map_of (entry_update k d f al) =
     (map_of al)(k \<mapsto> f (case map_of al k of None \<Rightarrow> d | Some v \<Rightarrow> v))"
  by (simp add: entry_update_def)

lemma keys_distinct_entry_update [simp]:
  "keys_distinct al \<Longrightarrow> keys_distinct (entry_update k d f al)"
  by (simp add: entry_update_def)

section \<open>Generic list lemmas\<close>

lemma filter_length_split: "length (filter P xs) + length (filter (\<lambda>x. \<not> P x) xs) = length xs"
  by (induction xs) auto

lemma fold_option_None [simp]: "fold (\<lambda>x acc. case acc of None \<Rightarrow> None | Some a \<Rightarrow> f x a) xs None = None"
  by (induction xs) auto

lemma sort_key_set_id: "set (sort_key f xs) = set xs"
  by simp

end
