(* ===== verification/Numbers.thy ===== *)
theory Numbers
  imports Prelude Complex_Main
begin

text \<open>
  The 64-bit floating point values of the code and the JSON values it reads. A finite
  \<open>f64\<close> is the rational it denotes; \<open>f64_round\<close> is IEEE rounding to nearest, ties to even, so
  an arithmetic operation is the rounded exact result. The parts of \<open>str::parse::<f64>\<close> the
  code relies on are written out. A JSON document is the enum \<open>serde_json::Value\<close>; reading and
  writing text is the crate's and stays a parameter wherever it is used.
\<close>

section \<open>f64\<close>

datatype f64 = Fin rat | PosInf | NegInf | NaN

fun bit_length :: "nat \<Rightarrow> nat" where
  "bit_length n = (if n = 0 then 0 else Suc (bit_length (n div 2)))"
declare bit_length.simps [simp del]

definition pow2 :: "int \<Rightarrow> rat" where
  "pow2 k = (if 0 \<le> k then 2 ^ nat k else 1 / 2 ^ nat (- k))"

text \<open>Floor of the binary logarithm of a positive rational.\<close>

definition ilog2 :: "rat \<Rightarrow> int" where
  "ilog2 r = (case quotient_of r of (n, d) \<Rightarrow>
     let k = int (bit_length (nat n)) - int (bit_length (nat d))
     in if r \<ge> pow2 k then k else k - 1)"

definition round_half_even :: "rat \<Rightarrow> int" where
  "round_half_even q = (let f = \<lfloor>q\<rfloor>; t = q - of_int f in
     if t < 1 / 2 then f else if t > 1 / 2 then f + 1 else if even f then f else f + 1)"

definition f64_round_pos :: "rat \<Rightarrow> f64" where
  "f64_round_pos r = (let e = max (ilog2 r) (-1022) - 52;
       v = of_int (round_half_even (r / pow2 e)) * pow2 e
     in if v \<ge> pow2 1024 then PosInf else Fin v)"

fun f64_neg :: "f64 \<Rightarrow> f64" where
  "f64_neg (Fin r) = Fin (- r)"
| "f64_neg PosInf = NegInf"
| "f64_neg NegInf = PosInf"
| "f64_neg NaN = NaN"

definition f64_round :: "rat \<Rightarrow> f64" where
  "f64_round r = (if r = 0 then Fin 0 else if r > 0 then f64_round_pos r
                  else f64_neg (f64_round_pos (- r)))"

fun f64_add :: "f64 \<Rightarrow> f64 \<Rightarrow> f64" where
  "f64_add (Fin a) (Fin b) = f64_round (a + b)"
| "f64_add NaN _ = NaN"
| "f64_add _ NaN = NaN"
| "f64_add PosInf NegInf = NaN"
| "f64_add NegInf PosInf = NaN"
| "f64_add PosInf _ = PosInf"
| "f64_add _ PosInf = PosInf"
| "f64_add NegInf _ = NegInf"
| "f64_add _ NegInf = NegInf"

text \<open>Multiplication by a positive constant (the only multiplication the code does).\<close>

fun f64_scale :: "rat \<Rightarrow> f64 \<Rightarrow> f64" where
  "f64_scale c (Fin a) = f64_round (c * a)"
| "f64_scale c v = v"

fun f64_pos :: "f64 \<Rightarrow> bool" where
  "f64_pos (Fin a) \<longleftrightarrow> a > 0"
| "f64_pos PosInf \<longleftrightarrow> True"
| "f64_pos _ \<longleftrightarrow> False"

definition clamp_i64 :: "int \<Rightarrow> int" where
  "clamp_i64 i = max i64_min (min i64_max i)"

definition trunc :: "rat \<Rightarrow> int" where
  "trunc r = (if r \<ge> 0 then \<lfloor>r\<rfloor> else \<lceil>r\<rceil>)"

text \<open>The saturating cast \<open>f as i64\<close>.\<close>

fun f64_as_i64 :: "f64 \<Rightarrow> int" where
  "f64_as_i64 (Fin r) = clamp_i64 (trunc r)"
| "f64_as_i64 PosInf = i64_max"
| "f64_as_i64 NegInf = i64_min"
| "f64_as_i64 NaN = 0"

lemma clamp_i64_bounds: "i64_min \<le> clamp_i64 i \<and> clamp_i64 i \<le> i64_max"
  by (simp add: clamp_i64_def i64_min_def i64_max_def)

lemma f64_as_i64_bounds: "i64_min \<le> f64_as_i64 v \<and> f64_as_i64 v \<le> i64_max"
  using clamp_i64_bounds by (cases v) (simp_all add: i64_min_def i64_max_def)

text \<open>
  \<open>parse::<f64>\<close> on a string of digits and dots (all that \<open>cron.rs\<close> and \<open>stats.rs\<close> pass):
  digits, an optional dot, digits, at least one digit in all.
\<close>

definition decimal_value :: "string \<Rightarrow> string \<Rightarrow> rat" where
  "decimal_value a b = of_nat (digits_value (a @ b)) / 10 ^ length b"

definition parse_decimal :: "string \<Rightarrow> rat option" where
  "parse_decimal s =
     (case split_on CHR ''.'' s of
        [a] \<Rightarrow> if a \<noteq> [] \<and> list_all is_ascii_digit a then Some (decimal_value a []) else None
      | [a, b] \<Rightarrow> if a @ b \<noteq> [] \<and> list_all is_ascii_digit (a @ b)
                  then Some (decimal_value a b) else None
      | _ \<Rightarrow> None)"

definition parse_f64_decimal :: "string \<Rightarrow> f64 option" where
  "parse_f64_decimal s = map_option f64_round (parse_decimal s)"

text \<open>
  \<open>str::parse::<f64>\<close> in full: an optional sign, then \<open>inf\<close>, \<open>infinity\<close> or \<open>nan\<close> in any case, or
  a decimal number with an optional exponent. The exponent's value is an integer of any size
  here; the standard library saturates it, which gives the same double.
\<close>

definition parse_exp :: "string \<Rightarrow> int option" where
  "parse_exp s =
     (case s of
        [] \<Rightarrow> None
      | c # r \<Rightarrow> if c = CHR ''-'' then map_option (\<lambda>n. - int n) (parse_digits r)
                 else map_option int (parse_digits (if c = CHR ''+'' then r else s)))"

definition scale10 :: "rat \<Rightarrow> int \<Rightarrow> rat" where
  "scale10 r k = (if 0 \<le> k then r * 10 ^ nat k else r / 10 ^ nat (- k))"

definition parse_magnitude :: "string \<Rightarrow> f64 option" where
  "parse_magnitude s =
     (let l = to_lowercase s in
      if l = ''inf'' \<or> l = ''infinity'' then Some PosInf
      else if l = ''nan'' then Some NaN
      else case find_char CHR ''e'' l of
             None \<Rightarrow> map_option f64_round (parse_decimal s)
           | Some i \<Rightarrow> (case (parse_decimal (take i s), parse_exp (drop (Suc i) s)) of
                          (Some r, Some k) \<Rightarrow> Some (f64_round (scale10 r k))
                        | _ \<Rightarrow> None))"

definition parse_f64 :: "string \<Rightarrow> f64 option" where
  "parse_f64 s =
     (case s of
        [] \<Rightarrow> None
      | c # r \<Rightarrow> if c = CHR ''-'' then map_option f64_neg (parse_magnitude r)
                 else parse_magnitude (if c = CHR ''+'' then r else s))"

text \<open>
  \<open>format!("{:?}", x)\<close> on a double: the shortest decimal digits that read back as the value,
  positional between 1e-5 and 1e16 (with at least one fractional digit), scientific outside.
\<close>

definition pow10 :: "int \<Rightarrow> rat" where
  "pow10 k = (if 0 \<le> k then 10 ^ nat k else 1 / 10 ^ nat (- k))"

definition ilog10 :: "rat \<Rightarrow> int" where
  "ilog10 r = (case quotient_of r of (n, d) \<Rightarrow>
     let k = int (length (show_nat (nat n))) - int (length (show_nat (nat d)))
     in if r \<ge> pow10 k then k else k - 1)"

definition shortest_exp :: "rat \<Rightarrow> int" where
  "shortest_exp r = (let e = ilog10 r; q = (\<lambda>n. e - int n + 1) in
     case find (\<lambda>n. f64_round (of_int (round_half_even (r / pow10 (q n))) * pow10 (q n)) = Fin r)
            [1..<18] of
       Some n \<Rightarrow> q n | None \<Rightarrow> q 17)"

definition show_f64_pos :: "rat \<Rightarrow> string" where
  "show_f64_pos r =
     (let q = shortest_exp r; m = nat (round_half_even (r / pow10 q)); ds = show_nat m in
      if pow10 (-5) \<le> r \<and> r < pow10 16 then
        (if q \<ge> 0 then show_nat (m * 10 ^ nat q) @ ''.0''
         else let k = nat (- q); ds' = replicate (Suc k - length ds) CHR ''0'' @ ds;
                  i = length ds' - k
              in take i ds' @ ''.'' @ drop i ds')
      else take 1 ds @ (if length ds > 1 then CHR ''.'' # drop 1 ds else []) @ ''e''
           @ show_int (q + int (length ds) - 1))"

fun show_f64 :: "f64 \<Rightarrow> string" where
  "show_f64 (Fin r) = (if r = 0 then ''0.0'' else if r > 0 then show_f64_pos r
                       else CHR ''-'' # show_f64_pos (- r))"
| "show_f64 PosInf = ''inf''"
| "show_f64 NegInf = ''-inf''"
| "show_f64 NaN = ''NaN''"

section \<open>JSON values\<close>

text \<open>\<open>JInt\<close> is a \<open>Number\<close> held as an integer (i64 or u64), \<open>JFloat\<close> one held as a double.\<close>

datatype json =
    JNull
  | JBool bool
  | JInt int
  | JFloat rat
  | JString string
  | JArray "json list"
  | JObject "(string \<times> json) list"

type_synonym json_dict = "(string \<times> json) list"

fun as_str :: "json \<Rightarrow> string option" where
  "as_str (JString s) = Some s"
| "as_str _ = None"

fun as_bool :: "json \<Rightarrow> bool option" where
  "as_bool (JBool b) = Some b"
| "as_bool _ = None"

fun as_i64 :: "json \<Rightarrow> int option" where
  "as_i64 (JInt i) = (if i64_min \<le> i \<and> i \<le> i64_max then Some i else None)"
| "as_i64 _ = None"

fun as_f64 :: "json \<Rightarrow> f64 option" where
  "as_f64 (JInt i) = Some (f64_round (of_int i))"
| "as_f64 (JFloat r) = Some (Fin r)"
| "as_f64 _ = None"

fun as_array :: "json \<Rightarrow> json list option" where
  "as_array (JArray a) = Some a"
| "as_array _ = None"

fun is_object :: "json \<Rightarrow> bool" where
  "is_object (JObject _) \<longleftrightarrow> True"
| "is_object _ \<longleftrightarrow> False"

text \<open>\<open>Value::get\<close> with a string key: defined on objects only.\<close>

fun jget :: "json \<Rightarrow> string \<Rightarrow> json option" where
  "jget (JObject kvs) k = map_of kvs k"
| "jget _ k = None"

end
