(* ===== verification/Models.thy ===== *)
theory Models
  imports Numbers
begin

text \<open>
  \<open>crates/gn-drive-core/src/models.rs\<close>: the persisted records (profiles, schedules, history,
  boards, flows and their operations), the action names, and the path and action helpers.
  A field carries its Rust name behind a prefix of its record.
\<close>

section \<open>Directions and actions\<close>

definition DIRECTION_PUSH :: string where "DIRECTION_PUSH = ''push''"
definition DIRECTION_BI :: string where "DIRECTION_BI = ''bi''"
definition DIRECTION_BI_RESYNC :: string where "DIRECTION_BI_RESYNC = ''bi-resync''"

lemmas direction_defs = DIRECTION_PUSH_def DIRECTION_BI_def DIRECTION_BI_RESYNC_def

definition direction_is_valid :: "string \<Rightarrow> bool" where
  "direction_is_valid d \<longleftrightarrow> trim d \<in> {DIRECTION_PUSH, DIRECTION_BI, DIRECTION_BI_RESYNC}"

definition direction_normalize :: "string \<Rightarrow> string" where
  "direction_normalize d =
     (let d' = trim d in if direction_is_valid d' then d' else DIRECTION_PUSH)"

section \<open>Records\<close>

record profile =
  p_name :: string
  p_from :: string
  p_to :: string
  p_direction :: string
  p_included_paths :: "string list"
  p_excluded_paths :: "string list"
  p_bandwidth :: int
  p_parallel :: int
  p_backup_path :: string
  p_cache_path :: string
  p_min_size :: string
  p_max_size :: string
  p_filter_from_file :: string
  p_exclude_if_present :: string
  p_use_regex :: bool
  p_max_age :: string
  p_min_age :: string
  p_max_depth :: "int option"
  p_delete_excluded :: bool
  p_max_delete :: "int option"
  p_immutable :: bool
  p_conflict_resolution :: string
  p_dry_run :: bool
  p_max_transfer :: string
  p_max_delete_size :: string
  p_suffix :: string
  p_suffix_keep_extension :: bool
  p_multi_thread_streams :: "int option"
  p_buffer_size :: string
  p_retries :: "int option"
  p_low_level_retries :: "int option"
  p_max_duration :: string
  p_check_first :: bool
  p_order_by :: string
  p_retries_sleep :: string
  p_tps_limit :: "f64 option"
  p_conn_timeout :: string
  p_io_timeout :: string
  p_size_only :: bool
  p_update_mode :: bool
  p_ignore_existing :: bool
  p_delete_timing :: string
  p_resilient :: bool
  p_max_lock :: string
  p_check_access :: bool
  p_conflict_loser :: string
  p_conflict_suffix :: string
  p_fast_list :: bool

definition profile_default :: profile where
  "profile_default = \<lparr>
     p_name = [], p_from = [], p_to = [], p_direction = [],
     p_included_paths = [], p_excluded_paths = [], p_bandwidth = 0, p_parallel = 0,
     p_backup_path = [], p_cache_path = [], p_min_size = [], p_max_size = [],
     p_filter_from_file = [], p_exclude_if_present = [], p_use_regex = False,
     p_max_age = [], p_min_age = [], p_max_depth = None, p_delete_excluded = False,
     p_max_delete = None, p_immutable = False, p_conflict_resolution = [],
     p_dry_run = False, p_max_transfer = [], p_max_delete_size = [], p_suffix = [],
     p_suffix_keep_extension = False, p_multi_thread_streams = None, p_buffer_size = [],
     p_retries = None, p_low_level_retries = None, p_max_duration = [],
     p_check_first = False, p_order_by = [], p_retries_sleep = [], p_tps_limit = None,
     p_conn_timeout = [], p_io_timeout = [], p_size_only = False, p_update_mode = False,
     p_ignore_existing = False, p_delete_timing = [], p_resilient = False,
     p_max_lock = [], p_check_access = False, p_conflict_loser = [],
     p_conflict_suffix = [], p_fast_list = False \<rparr>"

record schedule =
  sch_id :: string
  sch_profile_name :: string
  sch_action :: string
  sch_cron :: string
  sch_enabled :: bool
  sch_last_run :: string
  sch_next_run :: string
  sch_last_result :: string
  sch_created_at :: string

record history_entry =
  h_id :: string
  h_profile_name :: string
  h_action :: string
  h_state :: string
  h_started_at :: string
  h_finished_at :: string
  h_duration :: int
  h_bytes :: int
  h_errors :: int
  h_files :: int
  h_error_message :: string

record profile_stats =
  ps_syncs :: int
  ps_bytes :: int
  ps_duration :: int
  ps_errors :: int

record history_stats =
  hs_total_syncs :: int
  hs_total_bytes :: int
  hs_total_duration :: int
  hs_total_errors :: int
  hs_by_profile :: "string \<rightharpoonup> profile_stats"

record board_node =
  bn_id :: string
  bn_remote_name :: string
  bn_path :: string
  bn_label :: string
  bn_x :: f64
  bn_y :: f64

record board_edge =
  be_id :: string
  be_source_id :: string
  be_target_id :: string
  be_action :: string
  be_sync_config :: string

record board =
  b_id :: string
  b_name :: string
  b_created_at :: string
  b_updated_at :: string
  b_nodes :: "board_node list"
  b_edges :: "board_edge list"

record flow_operation =
  op_id :: string
  op_flow_id :: string
  op_source_remote :: string
  op_source_path :: string
  op_target_remote :: string
  op_target_path :: string
  op_action :: string
  op_sync_config :: json_dict
  op_is_expanded :: bool
  op_sort_order :: int

definition flow_operation_default :: flow_operation where
  "flow_operation_default = \<lparr>
     op_id = [], op_flow_id = [], op_source_remote = [], op_source_path = ''/'',
     op_target_remote = [], op_target_path = ''/'', op_action = ''push'',
     op_sync_config = [], op_is_expanded = False, op_sort_order = 0 \<rparr>"

record flow =
  f_id :: string
  f_name :: string
  f_is_collapsed :: bool
  f_schedule_enabled :: bool
  f_schedule_cron :: string
  f_sort_order :: int
  f_operations :: "flow_operation list"
  f_canvas_json :: string
  f_created_at :: string
  f_updated_at :: string

record delta_state =
  d_remote_key :: string
  d_provider :: string
  d_last_full_sync :: string
  d_delta_count :: int
  d_is_watching :: bool

section \<open>Store errors\<close>

text \<open>\<open>store.rs\<close>: the error every repository call returns, and its display text.\<close>

datatype store_error = NotFound | Invalid string | Db string

fun store_error_display :: "store_error \<Rightarrow> string" where
  "store_error_display NotFound = ''record not found''"
| "store_error_display (Invalid m) = m"
| "store_error_display (Db m) = m"

section \<open>Actions of an operation\<close>

definition resolved_action :: "flow_operation \<Rightarrow> string" where
  "resolved_action op =
     (if trim (op_action op) \<noteq> [] then direction_normalize (op_action op)
      else case map_of (op_sync_config op) ''action'' of
             Some (JString a) \<Rightarrow> if trim a \<noteq> [] then direction_normalize a else DIRECTION_PUSH
           | _ \<Rightarrow> DIRECTION_PUSH)"

definition normalize_action :: "flow_operation \<Rightarrow> flow_operation" where
  "normalize_action op =
     (let a = resolved_action op
      in op\<lparr>op_sync_config := AList.update ''action'' (JString a) (op_sync_config op),
            op_action := a\<rparr>)"

section \<open>Paths\<close>

definition compose_path :: "string \<Rightarrow> string \<Rightarrow> string" where
  "compose_path remote path =
     (let path = trim path; remote = trim remote in
      if remote = [] \<or> remote = ''local'' then (if path = [] then ''/'' else path)
      else if path = [] \<or> path = ''/'' then remote @ '':''
      else remote @ '':'' @ path)"

section \<open>Lemmas\<close>

lemma trim_direction [simp]:
  "trim DIRECTION_PUSH = DIRECTION_PUSH"
  "trim DIRECTION_BI = DIRECTION_BI"
  "trim DIRECTION_BI_RESYNC = DIRECTION_BI_RESYNC"
  by (simp_all add: direction_defs trim_def trim_by_def is_whitespace_def)

lemma direction_values_valid [simp]:
  "direction_is_valid DIRECTION_PUSH"
  "direction_is_valid DIRECTION_BI"
  "direction_is_valid DIRECTION_BI_RESYNC"
  by (simp_all add: direction_is_valid_def)

lemma direction_not_Nil [simp]:
  "DIRECTION_PUSH \<noteq> []" "DIRECTION_BI \<noteq> []" "DIRECTION_BI_RESYNC \<noteq> []"
  by (simp_all add: direction_defs)

lemma direction_normalize_range:
  "direction_normalize d \<in> {DIRECTION_PUSH, DIRECTION_BI, DIRECTION_BI_RESYNC}"
  by (auto simp: direction_normalize_def direction_is_valid_def Let_def)

lemma direction_normalize_fixed:
  "d \<in> {DIRECTION_PUSH, DIRECTION_BI, DIRECTION_BI_RESYNC} \<Longrightarrow> direction_normalize d = d"
  by (auto simp: direction_normalize_def Let_def)

lemma resolved_action_range:
  "resolved_action op \<in> {DIRECTION_PUSH, DIRECTION_BI, DIRECTION_BI_RESYNC}"
  using direction_normalize_range
  by (auto simp: resolved_action_def split: option.splits json.splits)

lemma trim_action_value:
  "a \<in> {DIRECTION_PUSH, DIRECTION_BI, DIRECTION_BI_RESYNC} \<Longrightarrow> trim a = a \<and> a \<noteq> []"
  by auto

lemma resolved_action_of_value:
  assumes "op_action op \<in> {DIRECTION_PUSH, DIRECTION_BI, DIRECTION_BI_RESYNC}"
  shows "resolved_action op = op_action op"
  using trim_action_value [OF assms] direction_normalize_fixed [OF assms]
  by (simp add: resolved_action_def)

lemma resolved_action_normalize_action [simp]:
  "resolved_action (normalize_action op) = resolved_action op"
  using resolved_action_of_value [of "normalize_action op"] resolved_action_range [of op]
  by (simp add: normalize_action_def Let_def)

lemma AList_update_idem: "AList.update k v (AList.update k v al) = AList.update k v al"
  by (induction al) auto

lemma normalize_action_idem: "normalize_action (normalize_action op) = normalize_action op"
  unfolding normalize_action_def [of "normalize_action op"]
  by (simp add: Let_def) (simp add: normalize_action_def Let_def AList_update_idem)

text \<open>
  Normalising an operation's action makes the column and the \<open>sync_config\<close> entry agree on
  one of the three supported actions, is idempotent, and leaves the rest of \<open>sync_config\<close> alone.
\<close>

lemma normalize_action_correct:
  "op_action (normalize_action op) \<in> {DIRECTION_PUSH, DIRECTION_BI, DIRECTION_BI_RESYNC} \<and>
   map_of (op_sync_config (normalize_action op)) ''action''
     = Some (JString (op_action (normalize_action op))) \<and>
   normalize_action (normalize_action op) = normalize_action op \<and>
   (\<forall>k. k = ''action'' \<or>
        map_of (op_sync_config (normalize_action op)) k = map_of (op_sync_config op) k)"
proof -
  have "op_action (normalize_action op) = resolved_action op"
    by (simp add: normalize_action_def Let_def)
  with resolved_action_range [of op] normalize_action_idem [of op] show ?thesis
    by (simp add: normalize_action_def Let_def)
qed

text \<open>A composed remote path splits back at its first colon.\<close>

lemma compose_path_remote:
  assumes "trim remote \<noteq> []" and "trim remote \<noteq> ''local''" and "CHR '':'' \<notin> set (trim remote)"
  shows "find_char CHR '':'' (compose_path remote path) = Some (length (trim remote))"
  using assms by (auto simp: compose_path_def Let_def find_char_append)

lemma compose_path_not_Nil: "compose_path remote path \<noteq> []"
  by (simp add: compose_path_def Let_def)

end
