(* ===== verification/RcloneTypes.thy ===== *)
theory RcloneTypes
  imports Models
begin

text \<open>
  \<open>crates/gn-drive-core/src/rclone/types.rs\<close> and \<open>rclone/mod.rs\<close>: the action enum and its
  names, the progress and result records, the flag bag, the provider rate limits, the error
  enums of the rclone layer, and the cooperative cancellation token.
\<close>

section \<open>Actions\<close>

datatype rclone_action = Pull | Push | Bi | BiResync | Copy | Move | Check | DryRun

fun action_as_str :: "rclone_action \<Rightarrow> string" where
  "action_as_str Pull = ''pull''"
| "action_as_str Push = ''push''"
| "action_as_str Bi = ''bi''"
| "action_as_str BiResync = ''bi-resync''"
| "action_as_str Copy = ''copy''"
| "action_as_str Move = ''move''"
| "action_as_str Check = ''check''"
| "action_as_str DryRun = ''dry-run''"

definition action_parse :: "string \<Rightarrow> rclone_action option" where
  "action_parse s =
     (if s = ''pull'' then Some Pull
      else if s = ''push'' then Some Push
      else if s = ''bi'' then Some Bi
      else if s = ''bi-resync'' then Some BiResync
      else if s = ''copy'' then Some Copy
      else if s = ''move'' then Some Move
      else if s = ''check'' then Some Check
      else if s = ''dry-run'' then Some DryRun
      else None)"

lemma action_parse_as_str [simp]: "action_parse (action_as_str a) = Some a"
  by (cases a) (simp_all add: action_parse_def)

lemma action_parse_Some: "action_parse s = Some a \<longleftrightarrow> s = action_as_str a"
proof
  assume "action_parse s = Some a"
  then show "s = action_as_str a" unfolding action_parse_def by (simp split: if_splits)
qed simp

section \<open>Progress, results, configuration\<close>

record file_transfer =
  ft_name :: string
  ft_size :: int
  ft_bytes :: int
  ft_progress :: f64
  ft_status :: string
  ft_speed :: f64
  ft_error :: string

definition file_transfer_default :: file_transfer where
  "file_transfer_default = \<lparr> ft_name = [], ft_size = 0, ft_bytes = 0, ft_progress = Fin 0,
     ft_status = [], ft_speed = Fin 0, ft_error = [] \<rparr>"

definition file_transfer_new :: "string \<Rightarrow> string \<Rightarrow> file_transfer" where
  "file_transfer_new name status = file_transfer_default\<lparr>ft_name := name, ft_status := status\<rparr>"

record sync_stats =
  st_bytes :: int
  st_bytes_total :: int
  st_files :: int
  st_files_total :: int
  st_transfers :: int
  st_errors :: int
  st_checks :: int
  st_checks_total :: int
  st_deletes :: int
  st_renames :: int
  st_speed :: f64
  st_eta :: int
  st_current_file :: string
  st_stage :: string
  st_stage_detail :: string
  st_last_update :: int
  st_file_transfers :: "file_transfer list"

definition sync_stats_default :: sync_stats where
  "sync_stats_default = \<lparr> st_bytes = 0, st_bytes_total = 0, st_files = 0, st_files_total = 0,
     st_transfers = 0, st_errors = 0, st_checks = 0, st_checks_total = 0, st_deletes = 0,
     st_renames = 0, st_speed = Fin 0, st_eta = 0, st_current_file = [], st_stage = [],
     st_stage_detail = [], st_last_update = 0, st_file_transfers = [] \<rparr>"

record sync_result =
  sr_stats :: sync_stats
  sr_started_at :: int
  sr_ended_at :: int
  sr_exit_code :: int
  sr_stderr :: string

definition sync_result_default :: sync_result where
  "sync_result_default = \<lparr> sr_stats = sync_stats_default, sr_started_at = 0, sr_ended_at = 0,
     sr_exit_code = -1, sr_stderr = [] \<rparr>"

record profile_flags =
  pf_bandwidth :: string
  pf_transfers :: int
  pf_checkers :: int
  pf_tps_limit :: f64
  pf_min_age :: string
  pf_max_age :: string
  pf_min_size :: string
  pf_max_size :: string
  pf_exclude_if_present :: string
  pf_max_delete :: int
  pf_dry_run :: bool
  pf_use_list_r :: bool
  pf_no_unicode_normalize :: bool
  pf_includes :: "string list"
  pf_excludes :: "string list"
  pf_multi_thread_streams :: int
  pf_buffer_size :: string
  pf_retries :: int
  pf_low_level_retries :: int
  pf_max_duration :: string
  pf_retries_sleep :: string
  pf_conn_timeout :: string
  pf_io_timeout :: string
  pf_order_by :: string
  pf_check_first :: bool
  pf_immutable :: bool
  pf_max_transfer :: string
  pf_max_delete_size :: string
  pf_suffix :: string
  pf_suffix_keep_extension :: bool
  pf_backup_dir :: string
  pf_size_only :: bool
  pf_update_mode :: bool
  pf_ignore_existing :: bool
  pf_delete_excluded :: bool
  pf_max_depth :: int
  pf_delete_timing :: string
  pf_conflict_resolve :: string
  pf_conflict_loser :: string
  pf_conflict_suffix :: string
  pf_resilient :: bool
  pf_max_lock :: string
  pf_check_access :: bool

definition profile_flags_default :: profile_flags where
  "profile_flags_default = \<lparr>
     pf_bandwidth = [], pf_transfers = 0, pf_checkers = 0, pf_tps_limit = Fin 0,
     pf_min_age = [], pf_max_age = [], pf_min_size = [], pf_max_size = [],
     pf_exclude_if_present = [], pf_max_delete = 0, pf_dry_run = False,
     pf_use_list_r = False, pf_no_unicode_normalize = False, pf_includes = [],
     pf_excludes = [], pf_multi_thread_streams = 0, pf_buffer_size = [], pf_retries = 0,
     pf_low_level_retries = 0, pf_max_duration = [], pf_retries_sleep = [],
     pf_conn_timeout = [], pf_io_timeout = [], pf_order_by = [], pf_check_first = False,
     pf_immutable = False, pf_max_transfer = [], pf_max_delete_size = [], pf_suffix = [],
     pf_suffix_keep_extension = False, pf_backup_dir = [], pf_size_only = False,
     pf_update_mode = False, pf_ignore_existing = False, pf_delete_excluded = False,
     pf_max_depth = 0, pf_delete_timing = [], pf_conflict_resolve = [],
     pf_conflict_loser = [], pf_conflict_suffix = [], pf_resilient = False,
     pf_max_lock = [], pf_check_access = False \<rparr>"

record sync_config =
  cfg_action :: rclone_action
  cfg_source :: string
  cfg_source_remote :: string
  cfg_source_path :: string
  cfg_dest :: string
  cfg_dest_remote :: string
  cfg_dest_path :: string
  cfg_resync :: bool
  cfg_profile :: "profile_flags option"
  cfg_stats_interval :: string

definition sync_config_default :: sync_config where
  "sync_config_default = \<lparr> cfg_action = Push, cfg_source = [], cfg_source_remote = [],
     cfg_source_path = [], cfg_dest = [], cfg_dest_remote = [], cfg_dest_path = [],
     cfg_resync = False, cfg_profile = None, cfg_stats_interval = ''1s'' \<rparr>"

record file_entry =
  fe_name :: string
  fe_size :: int
  fe_mime_type :: string
  fe_is_dir :: bool
  fe_mod_time :: string
  fe_path :: string
  fe_id :: string

record quota_info =
  q_used :: int
  q_total :: int
  q_free :: int

record remote =
  r_name :: string
  r_type :: string
  r_description :: string

section \<open>Provider rate limits\<close>

record resolver_policy =
  rp_transfers :: int
  rp_checkers :: int
  rp_tps_limit :: f64

definition LIMITED :: "string list" where
  "LIMITED = [''drive'', ''onedrive'', ''dropbox'', ''box'', ''icloud'', ''iclouddrive'',
     ''googlephotos'', ''mega'', ''pcloud'', ''yandex'', ''mailru'', ''sharepoint'']"

definition resolver_policy_apply :: "string \<Rightarrow> string \<Rightarrow> resolver_policy" where
  "resolver_policy_apply source_type dest_type =
     (if source_type \<in> set LIMITED \<or> dest_type \<in> set LIMITED
      then \<lparr> rp_transfers = 4, rp_checkers = 4, rp_tps_limit = Fin 4 \<rparr>
      else \<lparr> rp_transfers = 8, rp_checkers = 8, rp_tps_limit = Fin 0 \<rparr>)"

section \<open>Errors and process output\<close>

datatype rclone_error =
    BinaryNotFound string
  | RunFailed string string \<comment> \<open>command, stderr\<close>
  | RcloneCancelled

fun rclone_error_display :: "rclone_error \<Rightarrow> string" where
  "rclone_error_display (BinaryNotFound p) = ''rclone: binary not found: '' @ p"
| "rclone_error_display (RunFailed c e) = ''rclone '' @ c @ '': '' @ e"
| "rclone_error_display RcloneCancelled = ''rclone: cancelled''"

record sync_failed_error =
  sf_result :: sync_result
  sf_message :: string
  sf_cancelled :: bool

record process_output =
  po_stdout :: string
  po_stderr :: string
  po_exit_code :: int

datatype stream_kind = Stdout | Stderr

section \<open>Cancellation token\<close>

text \<open>
  \<open>TokenState\<close>: the flag and the registered terminate hook. Running a hook is recorded by
  naming it in the list an operation returns; each operation runs under the token's lock.
\<close>

record 'h token =
  tok_cancelled :: bool
  tok_terminate :: "'h option"

definition token_new :: "'h token" where
  "token_new = \<lparr> tok_cancelled = False, tok_terminate = None \<rparr>"

definition token_cancel :: "'h token \<Rightarrow> 'h token \<times> 'h list" where
  "token_cancel t =
     (t\<lparr>tok_cancelled := True\<rparr>,
      case tok_terminate t of None \<Rightarrow> [] | Some f \<Rightarrow> [f])"

definition token_on_terminate :: "'h \<Rightarrow> 'h token \<Rightarrow> 'h token \<times> 'h list" where
  "token_on_terminate f t =
     (t\<lparr>tok_terminate := Some f\<rparr>, if tok_cancelled t then [f] else [])"

definition token_clear_terminate :: "'h token \<Rightarrow> 'h token \<times> 'h list" where
  "token_clear_terminate t = (t\<lparr>tok_terminate := None\<rparr>, [])"

datatype 'h token_op = TCancel | TOnTerminate 'h | TClear

fun token_step :: "'h token_op \<Rightarrow> 'h token \<Rightarrow> 'h token \<times> 'h list" where
  "token_step TCancel t = token_cancel t"
| "token_step (TOnTerminate f) t = token_on_terminate f t"
| "token_step TClear t = token_clear_terminate t"

fun token_run :: "'h token_op list \<Rightarrow> 'h token \<Rightarrow> 'h token \<times> 'h list" where
  "token_run [] t = (t, [])"
| "token_run (op # ops) t =
     (case token_step op t of (t', fs) \<Rightarrow> case token_run ops t' of (t'', fs') \<Rightarrow> (t'', fs @ fs'))"

lemmas token_defs = token_cancel_def token_on_terminate_def token_clear_terminate_def

lemma token_step_cancelled:
  "tok_cancelled (fst (token_step op t)) \<longleftrightarrow> tok_cancelled t \<or> op = TCancel"
  by (cases op) (simp_all add: token_defs)

lemma token_run_cancelled:
  "tok_cancelled (fst (token_run ops t)) \<longleftrightarrow> tok_cancelled t \<or> TCancel \<in> set ops"
proof (induction ops arbitrary: t)
  case (Cons op ops)
  obtain t' fs where s: "token_step op t = (t', fs)" by fastforce
  obtain t'' fs' where r: "token_run ops t' = (t'', fs')" by fastforce
  from token_step_cancelled [of op t] s have "tok_cancelled t' \<longleftrightarrow> tok_cancelled t \<or> op = TCancel"
    by simp
  with Cons [of t'] s r show ?case by simp blast
qed simp

lemma token_run_append:
  "token_run (xs @ ys) t =
     (case token_run xs t of (t', fs) \<Rightarrow> case token_run ys t' of (t'', fs') \<Rightarrow> (t'', fs @ fs'))"
  by (induction xs arbitrary: t) (auto split: prod.splits)

lemma token_pending_hook_fires:
  "tok_terminate t = Some f \<Longrightarrow> TClear \<notin> set ops \<Longrightarrow> \<forall>g. TOnTerminate g \<notin> set ops \<Longrightarrow>
   TCancel \<in> set ops \<Longrightarrow> f \<in> set (snd (token_run ops t))"
proof (induction ops arbitrary: t)
  case (Cons op ops)
  then show ?case by (cases op) (auto simp: token_defs split: prod.splits)
qed simp

text \<open>
  A terminate hook runs whichever way registration and cancellation interleave: if the
  token is cancelled before or after the hook is registered, and the hook is neither cleared
  nor replaced in between, the hook is run.
\<close>

lemma token_hook_always_fires:
  assumes "TClear \<notin> set post" and "\<forall>g. TOnTerminate g \<notin> set post"
    and "TCancel \<in> set pre \<or> TCancel \<in> set post"
  shows "f \<in> set (snd (token_run (pre @ TOnTerminate f # post) token_new))"
proof -
  obtain t fs where pre: "token_run pre token_new = (t, fs)" by fastforce
  obtain t' fs' where on: "token_on_terminate f t = (t', fs')" by fastforce
  show ?thesis
  proof (cases "TCancel \<in> set pre")
    case True
    then have "tok_cancelled t" using token_run_cancelled [of pre token_new] pre by simp
    with pre show ?thesis by (auto simp: token_run_append token_defs split: prod.splits)
  next
    case False
    with assms(3) have "TCancel \<in> set post" by simp
    moreover have "tok_terminate t' = Some f" using on by (auto simp: token_defs)
    ultimately have "f \<in> set (snd (token_run post t'))"
      using assms(1,2) token_pending_hook_fires by metis
    with pre on show ?thesis by (auto simp: token_run_append split: prod.splits)
  qed
qed

end
