(* ===== verification/BoardTopo.thy ===== *)
theory BoardTopo
  imports RcloneTypes
begin

text \<open>
  \<open>board_engine.rs\<close>, the planning half: \<open>BoardEngine::topo_layers\<close> groups the edges of a board
  into layers by repeatedly taking the pending edges whose source has no pending in-edge. The
  loop state is the code's: the in-degree map, the \<open>pending\<close> flags by edge index, the layers
  built so far and the number of edges placed. The lemmas show that the layers are a permutation
  of the edges, that an edge's predecessors all lie in earlier layers, and that planning fails
  exactly on cyclic boards.
\<close>

section \<open>Errors\<close>

datatype board_error =
    BENotConfigured
  | BEEmptyBoard
  | BEAlreadyRunning
  | BENotRunning
  | BECancelled
  | BEMissingNode string
  | BEFailed string
  | BECompletedWithErrors string
  | BEStore store_error

fun board_error_display :: "board_error \<Rightarrow> string" where
  "board_error_display BENotConfigured = ''board engine is not ready''"
| "board_error_display BEEmptyBoard = ''board has no nodes or edges''"
| "board_error_display BEAlreadyRunning = ''board is already running''"
| "board_error_display BENotRunning = ''board is not running''"
| "board_error_display BECancelled = ''board run was cancelled''"
| "board_error_display (BEMissingNode e) = ''board edge '' @ e @ '' references a missing node''"
| "board_error_display (BEFailed m) = m"
| "board_error_display (BECompletedWithErrors m) = m"
| "board_error_display (BEStore e) = store_error_display e"

section \<open>The planning loop\<close>

text \<open>\<open>indeg.get(v).copied().unwrap_or(0)\<close> and \<open>*indeg.entry(v).or_insert(0) += d\<close>.\<close>

definition deg :: "(string \<rightharpoonup> int) \<Rightarrow> string \<Rightarrow> int" where
  "deg m v = (case m v of None \<Rightarrow> 0 | Some d \<Rightarrow> d)"

definition deg_add :: "int \<Rightarrow> string \<Rightarrow> (string \<rightharpoonup> int) \<Rightarrow> (string \<rightharpoonup> int)" where
  "deg_add d v m = m(v \<mapsto> deg m v + d)"

definition indeg_init :: "board_node list \<Rightarrow> board_edge list \<Rightarrow> (string \<rightharpoonup> int)" where
  "indeg_init nodes edges =
     fold (\<lambda>e. deg_add 1 (be_target_id e)) edges (map_of (map (\<lambda>n. (bn_id n, 0)) nodes))"

definition layer_of :: "board_edge list \<Rightarrow> bool list \<Rightarrow> (string \<rightharpoonup> int) \<Rightarrow> nat list" where
  "layer_of edges pending indeg =
     sort_key (\<lambda>i. be_id (edges ! i))
       (filter (\<lambda>i. pending ! i \<and> deg indeg (be_source_id (edges ! i)) = 0) [0..<length edges])"

definition take_layer ::
  "board_edge list \<Rightarrow> nat list \<Rightarrow> bool list \<times> (string \<rightharpoonup> int) \<Rightarrow> bool list \<times> (string \<rightharpoonup> int)" where
  "take_layer edges layer s =
     fold (\<lambda>i (pending, indeg). (pending[i := False], deg_add (-1) (be_target_id (edges ! i)) indeg))
       layer s"

definition cycle_message :: "nat \<Rightarrow> string" where
  "cycle_message n = ''cycle detected: '' @ show_nat n @ '' edges could not be ordered''"

function topo_loop ::
  "board_edge list \<Rightarrow> bool list \<Rightarrow> (string \<rightharpoonup> int) \<Rightarrow> board_edge list list \<Rightarrow> nat \<Rightarrow>
   (board_error, board_edge list list) result" where
  "topo_loop edges pending indeg layers processed =
     (if processed < length edges then
        let layer = layer_of edges pending indeg in
        if layer = [] then Err (BEFailed (cycle_message (length edges - processed)))
        else case take_layer edges layer (pending, indeg) of (pending', indeg') \<Rightarrow>
          topo_loop edges pending' indeg' (layers @ [map ((!) edges) layer])
            (processed + length layer)
      else Ok layers)"
  by pat_completeness auto
termination
  by (relation "measure (\<lambda>(edges, pending, indeg, layers, processed). length edges - processed)")
    (auto intro!: diff_less_mono2)

declare topo_loop.simps [simp del]

definition topo_layers ::
  "board_node list \<Rightarrow> board_edge list \<Rightarrow> (board_error, board_edge list list) result" where
  "topo_layers nodes edges =
     topo_loop edges (replicate (length edges) True) (indeg_init nodes edges) [] 0"

section \<open>In-degrees count pending edges\<close>

definition pending_idx :: "bool list \<Rightarrow> nat list" where
  "pending_idx pending = filter ((!) pending) [0..<length pending]"

definition into :: "board_edge list \<Rightarrow> string \<Rightarrow> nat \<Rightarrow> bool" where
  "into edges v i \<longleftrightarrow> be_target_id (edges ! i) = v"

text \<open>The loop invariant: flags per edge, and each in-degree is the number of pending in-edges.\<close>

definition topo_inv :: "board_edge list \<Rightarrow> bool list \<Rightarrow> (string \<rightharpoonup> int) \<Rightarrow> bool" where
  "topo_inv edges pending indeg \<longleftrightarrow>
     length pending = length edges \<and>
     (\<forall>v. deg indeg v = int (card {i. i < length edges \<and> pending ! i \<and> into edges v i}))"

lemma deg_deg_add: "deg (deg_add d v m) w = (if w = v then deg m w + d else deg m w)"
  by (simp add: deg_add_def deg_def)

lemma deg_fold_add:
  "deg (fold (\<lambda>e. deg_add 1 (be_target_id e)) es m) v
     = deg m v + int (length (filter (\<lambda>e. be_target_id e = v) es))"
  by (induction es arbitrary: m) (auto simp: deg_deg_add)

lemma deg_nodes: "deg (map_of (map (\<lambda>n. (bn_id n, 0)) nodes)) v = 0"
  by (induction nodes) (auto simp: deg_def)

lemma topo_inv_init:
  "topo_inv edges (replicate (length edges) True) (indeg_init nodes edges)"
proof -
  have "{i. i < length edges \<and> replicate (length edges) True ! i \<and> into edges v i}
        = {i. i < length edges \<and> be_target_id (edges ! i) = v}" for v
    by (auto simp: into_def)
  then show ?thesis
    by (simp add: topo_inv_def indeg_init_def deg_fold_add deg_nodes length_filter_conv_card)
qed

lemma take_layer_inv:
  assumes "topo_inv edges pending indeg" and "distinct layer"
    and "\<forall>i \<in> set layer. i < length edges \<and> pending ! i"
    and "take_layer edges layer (pending, indeg) = (pending', indeg')"
  shows "topo_inv edges pending' indeg' \<and>
     (\<forall>i. i < length edges \<longrightarrow> pending' ! i = (pending ! i \<and> i \<notin> set layer))"
  using assms
proof (induction layer arbitrary: pending indeg)
  case Nil
  then show ?case by (simp add: take_layer_def)
next
  case (Cons i layer)
  let ?p = "pending[i := False]"
  let ?d = "deg_add (-1) (be_target_id (edges ! i)) indeg"
  have len: "length pending = length edges" and i: "i < length edges" "pending ! i"
    using Cons.prems by (auto simp: topo_inv_def)
  have "topo_inv edges ?p ?d"
    unfolding topo_inv_def
  proof (intro conjI allI)
    fix v
    let ?A = "{j. j < length edges \<and> pending ! j \<and> into edges v j}"
    have eq: "{j. j < length edges \<and> ?p ! j \<and> into edges v j} = ?A - {i}"
      using len i by (auto simp: nth_list_update)
    have "deg indeg v = int (card ?A)" using Cons.prems(1) by (simp add: topo_inv_def)
    moreover have "i \<in> ?A \<longleftrightarrow> be_target_id (edges ! i) = v" using i by (simp add: into_def)
    moreover have "finite ?A" by simp
    ultimately show "deg ?d v = int (card {j. j < length edges \<and> ?p ! j \<and> into edges v j})"
      using card_Diff_singleton [of i ?A] card_gt_0_iff [of ?A]
      by (auto simp: eq deg_deg_add of_nat_diff Suc_leI simp del: card_gt_0_iff)
  qed (simp add: len)
  moreover have "take_layer edges layer (?p, ?d) = (pending', indeg')"
    using Cons.prems(4) by (simp add: take_layer_def)
  moreover have "\<forall>j \<in> set layer. j < length edges \<and> ?p ! j"
    using Cons.prems(2,3) len by (auto simp: nth_list_update)
  ultimately have "topo_inv edges pending' indeg' \<and>
     (\<forall>j. j < length edges \<longrightarrow> pending' ! j = (?p ! j \<and> j \<notin> set layer))"
    using Cons.IH Cons.prems(2) by simp
  with len i show ?case by (auto simp: nth_list_update)
qed

section \<open>What a layer holds\<close>

lemma set_layer_of:
  "set (layer_of edges pending indeg) =
     {i. i < length edges \<and> pending ! i \<and> deg indeg (be_source_id (edges ! i)) = 0}"
  by (auto simp: layer_of_def)

lemma distinct_layer_of: "distinct (layer_of edges pending indeg)"
  by (simp add: layer_of_def)

lemma sorted_layer_of: "sorted (map be_id (map ((!) edges) (layer_of edges pending indeg)))"
  by (simp add: layer_of_def comp_def)

text \<open>
  A layer is closed: no pending edge enters the source of one of its edges, so every edge
  entering such a source was placed before.
\<close>

lemma layer_sources_free:
  assumes "topo_inv edges pending indeg" and "i \<in> set (layer_of edges pending indeg)"
    and "j < length edges" and "be_target_id (edges ! j) = be_source_id (edges ! i)"
  shows "\<not> pending ! j"
proof
  assume "pending ! j"
  let ?v = "be_source_id (edges ! i)"
  have "j \<in> {k. k < length edges \<and> pending ! k \<and> into edges ?v k}"
    using assms \<open>pending ! j\<close> by (simp add: into_def)
  then have "card {k. k < length edges \<and> pending ! k \<and> into edges ?v k} > 0"
    by (auto simp: card_gt_0_iff)
  moreover have "deg indeg ?v = 0" using assms(2) by (simp add: set_layer_of)
  with assms(1) have "int (card {k. k < length edges \<and> pending ! k \<and> into edges ?v k}) = 0"
    unfolding topo_inv_def by metis
  ultimately show False by simp
qed

section \<open>The layers built so far\<close>

text \<open>
  \<open>done\<close> lists the indices placed, layer by layer: together with the pending flags they
  partition the edge indices, and each layer's predecessors are in earlier layers.
\<close>

definition layers_inv ::
  "board_edge list \<Rightarrow> bool list \<Rightarrow> nat list list \<Rightarrow> bool" where
  "layers_inv edges pending idx \<longleftrightarrow>
     distinct (concat idx) \<and>
     set (concat idx) = {i. i < length edges \<and> \<not> pending ! i} \<and>
     (\<forall>k < length idx. idx ! k \<noteq> [] \<and> sorted (map be_id (map ((!) edges) (idx ! k))) \<and>
        (\<forall>i \<in> set (idx ! k). \<forall>j < length edges.
           be_target_id (edges ! j) = be_source_id (edges ! i) \<longrightarrow> j \<in> set (concat (take k idx))))"

lemma layers_inv_snoc:
  assumes "topo_inv edges pending indeg" and "layers_inv edges pending idx"
    and "layer = layer_of edges pending indeg" and "layer \<noteq> []"
    and "\<forall>i. i < length edges \<longrightarrow> pending' ! i = (pending ! i \<and> i \<notin> set layer)"
  shows "layers_inv edges pending' (idx @ [layer])"
  unfolding layers_inv_def
proof (intro conjI allI impI)
  have s: "set layer = {i. i < length edges \<and> pending ! i \<and> deg indeg (be_source_id (edges ! i)) = 0}"
    by (simp add: assms(3) set_layer_of)
  have d: "set (concat idx) = {i. i < length edges \<and> \<not> pending ! i}" and dd: "distinct (concat idx)"
    using assms(2) by (simp_all add: layers_inv_def)
  show "distinct (concat (idx @ [layer]))"
    using d dd s assms(3) distinct_layer_of by auto
  show "set (concat (idx @ [layer])) = {i. i < length edges \<and> \<not> pending' ! i}"
    using d s assms(5) by auto
  fix k assume k: "k < length (idx @ [layer])"
  have new: "be_target_id (edges ! j) = be_source_id (edges ! i) \<Longrightarrow> j \<in> set (concat idx)"
    if "i \<in> set layer" "j < length edges" for i j
    using layer_sources_free [OF assms(1)] that assms(3) d by auto
  show "(idx @ [layer]) ! k \<noteq> []"
    using k assms(2,4) by (auto simp: nth_append layers_inv_def less_Suc_eq)
  show "sorted (map be_id (map ((!) edges) ((idx @ [layer]) ! k)))"
    using k assms(2) sorted_layer_of [of edges pending indeg]
    by (auto simp: nth_append layers_inv_def less_Suc_eq assms(3))
  show "\<forall>i \<in> set ((idx @ [layer]) ! k). \<forall>j < length edges.
      be_target_id (edges ! j) = be_source_id (edges ! i) \<longrightarrow>
      j \<in> set (concat (take k (idx @ [layer])))"
  proof (cases "k < length idx")
    case True
    then show ?thesis using assms(2) by (simp add: layers_inv_def nth_append)
  next
    case False
    with k have "k = length idx" by simp
    then show ?thesis using new by simp
  qed
qed

section \<open>The loop as a whole\<close>

text \<open>What the loop returns on success: an index layering with the invariant and nothing pending.\<close>

definition good_layers :: "board_edge list \<Rightarrow> nat list list \<Rightarrow> bool" where
  "good_layers edges idx \<longleftrightarrow> layers_inv edges (replicate (length edges) False) idx"

definition stuck :: "board_edge list \<Rightarrow> bool list \<Rightarrow> bool" where
  "stuck edges pending \<longleftrightarrow>
     length pending = length edges \<and> (\<exists>i < length edges. pending ! i) \<and>
     (\<forall>i < length edges. pending ! i \<longrightarrow>
        (\<exists>j < length edges. pending ! j \<and> be_target_id (edges ! j) = be_source_id (edges ! i)))"

lemma layers_inv_cong:
  "layers_inv edges pending idx \<Longrightarrow> \<forall>i < length edges. pending ! i = pending' ! i \<Longrightarrow>
   layers_inv edges pending' idx"
proof -
  assume a: "layers_inv edges pending idx" and b: "\<forall>i < length edges. pending ! i = pending' ! i"
  have eq: "{i. i < length edges \<and> \<not> pending ! i} = {i. i < length edges \<and> \<not> pending' ! i}"
    using b by auto
  from a show "layers_inv edges pending' idx" unfolding layers_inv_def eq .
qed

lemma empty_layer_stuck:
  assumes "topo_inv edges pending indeg" and "layer_of edges pending indeg = []"
    and "\<exists>i < length edges. pending ! i"
  shows "stuck edges pending"
  unfolding stuck_def
proof (intro conjI allI impI)
  show "length pending = length edges" using assms(1) by (simp add: topo_inv_def)
  show "\<exists>i < length edges. pending ! i" by (rule assms(3))
  fix i assume i: "i < length edges" "pending ! i"
  let ?v = "be_source_id (edges ! i)"
  have "i \<notin> set (layer_of edges pending indeg)" by (simp add: assms(2))
  with i have "deg indeg ?v \<noteq> 0" by (simp add: set_layer_of)
  with assms(1) have "card {k. k < length edges \<and> pending ! k \<and> into edges ?v k} \<noteq> 0"
    unfolding topo_inv_def by (metis of_nat_0)
  then have "{k. k < length edges \<and> pending ! k \<and> into edges ?v k} \<noteq> {}"
    by (metis card.empty)
  then show "\<exists>j < length edges. pending ! j \<and> be_target_id (edges ! j) = ?v"
    by (auto simp: into_def)
qed

lemma topo_loop_result:
  assumes "topo_inv edges pending indeg" and "layers_inv edges pending idx"
    and "processed = length (concat idx)" and "layers = map (map ((!) edges)) idx"
  shows "case topo_loop edges pending indeg layers processed of
      Ok ls \<Rightarrow> (\<exists>idx'. good_layers edges idx' \<and> ls = map (map ((!) edges)) idx')
    | Err e \<Rightarrow> (\<exists>pending' n. stuck edges pending' \<and> e = BEFailed (cycle_message n))"
  using assms
proof (induction edges pending indeg layers processed arbitrary: idx rule: topo_loop.induct)
  case (1 edges pending indeg layers processed)
  have parts: "set (concat idx) = {i. i < length edges \<and> \<not> pending ! i}" "distinct (concat idx)"
    using "1.prems"(2) by (simp_all add: layers_inv_def)
  then have card: "processed = card {i. i < length edges \<and> \<not> pending ! i}"
    using "1.prems"(3) by (metis distinct_card)
  show ?case
  proof (cases "processed < length edges")
    case False
    have "{i. i < length edges \<and> \<not> pending ! i} = {..<length edges}"
      using False card by (intro card_seteq) auto
    then have "\<forall>i < length edges. pending ! i = replicate (length edges) False ! i" by auto
    with "1.prems"(2) have "good_layers edges idx"
      unfolding good_layers_def by (rule layers_inv_cong)
    with False "1.prems"(4) show ?thesis by (subst topo_loop.simps) auto
  next
    case True
    have some: "\<exists>i < length edges. pending ! i"
    proof (rule ccontr)
      assume "\<not> ?thesis"
      then have "{i. i < length edges \<and> \<not> pending ! i} = {..<length edges}" by auto
      with card True show False by simp
    qed
    let ?layer = "layer_of edges pending indeg"
    show ?thesis
    proof (cases "?layer = []")
      case empty: True
      then show ?thesis using True empty_layer_stuck [OF "1.prems"(1) empty some]
        by (subst topo_loop.simps) (auto simp: Let_def)
    next
      case ne: False
      obtain pending' indeg' where t: "take_layer edges ?layer (pending, indeg) = (pending', indeg')"
        by fastforce
      have sub: "\<forall>i \<in> set ?layer. i < length edges \<and> pending ! i" by (simp add: set_layer_of)
      note inv' = take_layer_inv [OF "1.prems"(1) distinct_layer_of sub t]
      have "layers_inv edges pending' (idx @ [?layer])"
        using layers_inv_snoc [OF "1.prems"(1,2) refl ne] inv' by simp
      then have "case topo_loop edges pending' indeg' (layers @ [map ((!) edges) ?layer])
            (processed + length ?layer) of
          Ok ls \<Rightarrow> (\<exists>idx'. good_layers edges idx' \<and> ls = map (map ((!) edges)) idx')
        | Err e \<Rightarrow> (\<exists>pending' n. stuck edges pending' \<and> e = BEFailed (cycle_message n))"
        using "1.IH" [OF True refl ne t [symmetric], of "idx @ [?layer]"] inv' "1.prems"(3,4)
        by simp
      then show ?thesis using True ne t by (subst topo_loop.simps) (simp add: Let_def)
    qed
  qed
qed

lemma topo_layers_result:
  "case topo_layers nodes edges of
      Ok ls \<Rightarrow> (\<exists>idx. good_layers edges idx \<and> ls = map (map ((!) edges)) idx)
    | Err e \<Rightarrow> (\<exists>pending n. stuck edges pending \<and> e = BEFailed (cycle_message n))"
proof -
  have "layers_inv edges (replicate (length edges) True) []"
    by (auto simp: layers_inv_def)
  then show ?thesis
    unfolding topo_layers_def by (intro topo_loop_result topo_inv_init) simp_all
qed

section \<open>Correctness of the layers\<close>

text \<open>The node relation of a board: an edge leads from its source to its target.\<close>

definition edge_rel :: "board_edge list \<Rightarrow> (string \<times> string) set" where
  "edge_rel edges = {(be_source_id e, be_target_id e) |e. e \<in> set edges}"

lemma good_layers_indices:
  assumes "good_layers edges idx"
  shows "set (concat idx) = {..<length edges}" "distinct (concat idx)"
proof -
  have "{i. i < length edges \<and> \<not> replicate (length edges) False ! i} = {..<length edges}" by auto
  with assms show "set (concat idx) = {..<length edges}" "distinct (concat idx)"
    by (simp_all only: good_layers_def layers_inv_def)
qed

lemma good_layers_mset:
  assumes "good_layers edges idx"
  shows "mset (concat (map (map ((!) edges)) idx)) = mset edges"
proof -
  from good_layers_indices [OF assms] have "mset (concat idx) = mset [0..<length edges]"
    by (intro set_eq_iff_mset_eq_distinct [THEN iffD1]) (auto simp: atLeast0LessThan)
  then have "mset (map ((!) edges) (concat idx)) = mset (map ((!) edges) [0..<length edges])"
    by simp
  then show ?thesis by (simp add: map_nth map_concat)
qed

lemma good_layers_precede:
  assumes "good_layers edges idx" and "k < length idx" and "e \<in> set (map ((!) edges) (idx ! k))"
    and "l < length idx" and "f \<in> set (map ((!) edges) (idx ! l))"
    and "be_target_id f = be_source_id e"
  shows "l < k"
proof (rule ccontr)
  assume "\<not> l < k"
  obtain i where i: "i \<in> set (idx ! k)" "e = edges ! i" using assms(3) by auto
  obtain j where j: "j \<in> set (idx ! l)" "f = edges ! j" using assms(5) by auto
  note d = good_layers_indices(2) [OF assms(1)]
  have "j \<in> set (concat idx)" using j(1) assms(4) by auto
  then have "j < length edges" using good_layers_indices(1) [OF assms(1)] by blast
  then have "j \<in> set (concat (take k idx))"
    using assms(1,2,6) i j by (auto simp: good_layers_def layers_inv_def)
  moreover have "j \<in> set (concat (drop k idx))"
  proof -
    have "idx ! l \<in> set (drop k idx)"
      using \<open>\<not> l < k\<close> assms(4) by (auto simp: in_set_conv_nth intro!: exI [of _ "l - k"])
    then show ?thesis using j(1) by auto
  qed
  moreover have "distinct (concat (take k idx) @ concat (drop k idx))"
    using d by (metis append_take_drop_id concat_append)
  ultimately show False by auto
qed

lemma stuck_cyclic:
  assumes "stuck edges pending"
  shows "\<not> acyclic (edge_rel edges)"
proof
  assume "acyclic (edge_rel edges)"
  moreover have "edge_rel edges = (\<lambda>e. (be_source_id e, be_target_id e)) ` set edges"
    by (auto simp: edge_rel_def)
  then have "finite (edge_rel edges)" by simp
  ultimately have wf: "wf (edge_rel edges)" by (intro finite_acyclic_wf)
  let ?Q = "{be_source_id (edges ! i) |i. i < length edges \<and> pending ! i}"
  obtain z where z: "z \<in> ?Q" "\<And>y. (y, z) \<in> edge_rel edges \<Longrightarrow> y \<notin> ?Q"
    using wfE_min' [OF wf, of ?Q] assms by (auto simp: stuck_def)
  then obtain i where "i < length edges" "pending ! i" "z = be_source_id (edges ! i)" by auto
  then obtain j where j: "j < length edges" "pending ! j" "be_target_id (edges ! j) = z"
    using assms by (auto simp: stuck_def)
  then have "(be_source_id (edges ! j), z) \<in> edge_rel edges" by (auto simp: edge_rel_def)
  with z(2) j show False by blast
qed

lemma good_layers_place:
  assumes "good_layers edges idx" and "e \<in> set edges"
  shows "\<exists>k < length idx. e \<in> set (map ((!) edges) (idx ! k))"
proof -
  have "e \<in> set (concat (map (map ((!) edges)) idx))"
    using assms(2) good_layers_mset [OF assms(1)] by (metis set_mset_mset)
  then obtain l where "l \<in> set idx" "e \<in> set (map ((!) edges) l)" by auto
  then show ?thesis by (metis in_set_conv_nth)
qed

lemma good_layers_path:
  assumes "good_layers edges idx" and "(a, b) \<in> (edge_rel edges)\<^sup>+"
  shows "\<exists>e f k l. be_source_id e = a \<and> be_target_id f = b \<and> k \<le> l \<and> l < length idx \<and>
     e \<in> set (map ((!) edges) (idx ! k)) \<and> f \<in> set (map ((!) edges) (idx ! l))"
  using assms(2)
proof (induction rule: trancl_induct)
  case (base b)
  then obtain e where e: "e \<in> set edges" "be_source_id e = a" "be_target_id e = b"
    by (auto simp: edge_rel_def)
  with good_layers_place [OF assms(1)] show ?case by blast
next
  case (step b c)
  then obtain e f k l where ef: "be_source_id e = a" "be_target_id f = b" "k \<le> l"
    "l < length idx" "e \<in> set (map ((!) edges) (idx ! k))" "f \<in> set (map ((!) edges) (idx ! l))"
    by blast
  obtain g where g: "g \<in> set edges" "be_source_id g = b" "be_target_id g = c"
    using step.hyps(2) by (auto simp: edge_rel_def)
  then obtain m where m: "m < length idx" "g \<in> set (map ((!) edges) (idx ! m))"
    using good_layers_place [OF assms(1)] by blast
  have "l < m" using good_layers_precede [OF assms(1) m(1,2) ef(4,6)] ef(2) g(2) by simp
  with ef g m have "be_source_id e = a \<and> be_target_id g = c \<and> k \<le> m \<and> m < length idx \<and>
     e \<in> set (map ((!) edges) (idx ! k)) \<and> g \<in> set (map ((!) edges) (idx ! m))" by simp
  then show ?case by blast
qed

lemma good_layers_acyclic: "good_layers edges idx \<Longrightarrow> acyclic (edge_rel edges)"
proof (rule acyclicI, intro allI notI)
  fix a assume g: "good_layers edges idx" and "(a, a) \<in> (edge_rel edges)\<^sup>+"
  then obtain e f k l where "be_source_id e = a" "be_target_id f = a" "k \<le> l" "l < length idx"
     "e \<in> set (map ((!) edges) (idx ! k))" "f \<in> set (map ((!) edges) (idx ! l))"
    using good_layers_path by blast
  with good_layers_precede [OF g, of k e l f] show False by simp
qed

end
