(* ===== verification/Board.thy ===== *)
theory Board
  imports BoardTopo
begin

text \<open>
  \<open>board_engine.rs\<close>, the running half. \<open>run_board\<close> executes the planned layers in order; the
  edges of one layer run in parallel threads, so a run yields, per layer, one log per thread
  (published events and progress callbacks) whose interleaving on the bus is not determined.
  What the environment decides (the state of the cancellation token at each check, the outcome
  of each sync) is the record \<open>board_env\<close>, indexed by the edge's one-based position in the run.
  The engine's run table (\<open>execute\<close>, \<open>stop\<close>, \<open>status\<close>, the worker's completion) is a step
  relation with the set of live worker threads.
\<close>

section \<open>Edges\<close>

definition node_path :: "board_node \<Rightarrow> string" where
  "node_path n =
     (if bn_remote_name n \<noteq> [] then
        (if bn_path n = [] \<or> bn_path n = ''/'' then bn_remote_name n @ '':''
         else bn_remote_name n @ '':'' @ bn_path n)
      else bn_path n)"

definition edge_config :: "board_edge \<Rightarrow> board_node \<Rightarrow> board_node \<Rightarrow> sync_config" where
  "edge_config edge src dst = sync_config_default\<lparr>
     cfg_action := (case action_parse (be_action edge) of None \<Rightarrow> Push | Some a \<Rightarrow> a),
     cfg_source := node_path src,
     cfg_dest := node_path dst,
     cfg_profile := Some (profile_flags_default\<lparr>pf_transfers := 4\<rparr>)\<rparr>"

text \<open>\<open>run_edge\<close>: the sync client is a parameter; its result is dropped, its error kept.\<close>

definition run_edge ::
  "(sync_config \<Rightarrow> (sync_failed_error, sync_result) result) \<Rightarrow> board_edge \<Rightarrow> board_node \<Rightarrow>
   board_node \<Rightarrow> (sync_failed_error, unit) result" where
  "run_edge sync edge src dst =
     (case sync (edge_config edge src dst) of Ok _ \<Rightarrow> Ok () | Err e \<Rightarrow> Err e)"

section \<open>One layer\<close>

text \<open>\<open>BusEvent::board_execution\<close>, without its timestamp.\<close>

record board_event =
  ev_board_id :: string
  ev_node_id :: string
  ev_edge_id :: string
  ev_status :: string
  ev_action :: string

record progress_call =
  pc_layer :: nat
  pc_idx :: nat
  pc_total :: nat
  pc_edge :: board_edge
  pc_error :: "string option"

record board_env =
  env_layer_cancelled :: "nat \<Rightarrow> bool" \<comment> \<open>token at the start of a layer\<close>
  env_before :: "nat \<Rightarrow> bool" \<comment> \<open>token when an edge's thread starts\<close>
  env_after :: "nat \<Rightarrow> bool" \<comment> \<open>token after an edge's sync\<close>
  env_sync :: "nat \<Rightarrow> sync_config \<Rightarrow> (sync_failed_error, sync_result) result"

record thread_log =
  tl_edge :: board_edge
  tl_idx :: nat
  tl_synced :: bool \<comment> \<open>the sync client was called\<close>
  tl_events :: "board_event list"
  tl_progress :: "progress_call list"
  tl_result :: "(sync_failed_error, unit) result option"

definition edge_event :: "string \<Rightarrow> board_edge \<Rightarrow> string \<Rightarrow> string \<Rightarrow> board_event" where
  "edge_event bid edge status action =
     \<lparr> ev_board_id = bid, ev_node_id = be_source_id edge, ev_edge_id = be_id edge,
       ev_status = status, ev_action = action \<rparr>"

definition edge_thread ::
  "board_env \<Rightarrow> bool \<Rightarrow> string \<Rightarrow> nat \<Rightarrow> nat \<Rightarrow> nat \<Rightarrow> board_edge \<times> board_node \<times> board_node \<Rightarrow>
   thread_log" where
  "edge_thread env has_cb bid layer_i n_total idx res =
     (case res of (edge, src, dst) \<Rightarrow>
        if env_before env idx then
          \<lparr> tl_edge = edge, tl_idx = idx, tl_synced = False, tl_events = [], tl_progress = [],
            tl_result = None \<rparr>
        else
          let running = edge_event bid edge ''running'' (be_action edge);
              r = run_edge (env_sync env idx) edge src dst in
          if env_after env idx \<or> (case r of Err e \<Rightarrow> sf_cancelled e | Ok _ \<Rightarrow> False) then
            \<lparr> tl_edge = edge, tl_idx = idx, tl_synced = True, tl_events = [running],
              tl_progress = [], tl_result = None \<rparr>
          else
            let msg = (case r of Err e \<Rightarrow> Some (sf_message e) | Ok _ \<Rightarrow> None);
                final = (case msg of
                    Some m \<Rightarrow> edge_event bid edge ''failed'' m
                  | None \<Rightarrow> edge_event bid edge ''completed'' (be_action edge)) in
            \<lparr> tl_edge = edge, tl_idx = idx, tl_synced = True, tl_events = [running, final],
              tl_progress = (if has_cb then [\<lparr> pc_layer = layer_i, pc_idx = idx, pc_total = n_total,
                 pc_edge = edge, pc_error = msg \<rparr>] else []),
              tl_result = Some r \<rparr>)"

text \<open>Looking up the end points of a layer's edges: the first missing node aborts the run.\<close>

fun resolve_edges ::
  "(string \<rightharpoonup> board_node) \<Rightarrow> board_edge list \<Rightarrow>
   (board_error, (board_edge \<times> board_node \<times> board_node) list) result" where
  "resolve_edges node_by_id [] = Ok []"
| "resolve_edges node_by_id (e # es) =
     (case (node_by_id (be_source_id e), node_by_id (be_target_id e)) of
        (Some s, Some d) \<Rightarrow>
          (case resolve_edges node_by_id es of Err x \<Rightarrow> Err x | Ok rs \<Rightarrow> Ok ((e, s, d) # rs))
      | _ \<Rightarrow> Err (BEMissingNode (be_id e)))"

definition layer_threads ::
  "board_env \<Rightarrow> bool \<Rightarrow> string \<Rightarrow> nat \<Rightarrow> nat \<Rightarrow> nat \<Rightarrow>
   (board_edge \<times> board_node \<times> board_node) list \<Rightarrow> thread_log list" where
  "layer_threads env has_cb bid layer_i n_total base resolved =
     map (\<lambda>i. edge_thread env has_cb bid layer_i n_total (base + i + 1) (resolved ! i))
       [0..<length resolved]"

text \<open>Reading the results in layer order.\<close>

fun scan_results ::
  "bool \<Rightarrow> thread_log list \<Rightarrow> bool \<Rightarrow> string option \<Rightarrow> (board_error, bool \<times> string option) result" where
  "scan_results stop [] cancelled first_err = Ok (cancelled, first_err)"
| "scan_results stop (t # ts) cancelled first_err =
     (case tl_result t of
        None \<Rightarrow> scan_results stop ts True first_err
      | Some (Ok _) \<Rightarrow> scan_results stop ts cancelled first_err
      | Some (Err e) \<Rightarrow>
          if stop then
            Err (BEFailed (''board: stopped at edge '' @ be_id (tl_edge t) @ '': '' @ sf_message e))
          else scan_results stop ts cancelled
                 (if first_err = None then Some (sf_message e) else first_err))"

section \<open>A whole run\<close>

fun run_layers ::
  "board_env \<Rightarrow> bool \<Rightarrow> bool \<Rightarrow> string \<Rightarrow> (string \<rightharpoonup> board_node) \<Rightarrow> nat \<Rightarrow> nat \<Rightarrow> nat \<Rightarrow>
   string option \<Rightarrow> board_edge list list \<Rightarrow> (board_error, unit) result \<times> thread_log list list" where
  "run_layers env has_cb stop bid nodes n_total layer_i base first_err [] =
     (case first_err of
        Some e \<Rightarrow> (Err (BECompletedWithErrors
                       (''board: completed with errors (first: '' @ e @ '')'')), [])
      | None \<Rightarrow> (Ok (), []))"
| "run_layers env has_cb stop bid nodes n_total layer_i base first_err (layer # layers) =
     (if env_layer_cancelled env layer_i then (Err BECancelled, [])
      else case resolve_edges nodes layer of
        Err x \<Rightarrow> (Err x, [])
      | Ok resolved \<Rightarrow>
          (let ts = layer_threads env has_cb bid layer_i n_total base resolved in
           case scan_results stop ts False first_err of
             Err x \<Rightarrow> (Err x, [ts])
           | Ok (cancelled, first_err') \<Rightarrow>
               if cancelled then (Err BECancelled, [ts])
               else case run_layers env has_cb stop bid nodes n_total (Suc layer_i)
                           (base + length resolved) first_err' layers of
                 (r, tss) \<Rightarrow> (r, ts # tss)))"

text \<open>\<open>node_by_id\<close> is collected into a hash map, so the last node of an id wins.\<close>

definition node_map :: "board_node list \<Rightarrow> string \<rightharpoonup> board_node" where
  "node_map nodes = map_of (rev (map (\<lambda>n. (bn_id n, n)) nodes))"

definition run_board ::
  "board_env \<Rightarrow> bool \<Rightarrow> bool \<Rightarrow> board \<Rightarrow> (board_error, unit) result \<times> thread_log list list" where
  "run_board env has_cb stop b =
     (case topo_layers (b_nodes b) (b_edges b) of
        Err x \<Rightarrow> (Err x, [])
      | Ok layers \<Rightarrow>
          run_layers env has_cb stop (b_id b) (node_map (b_nodes b)) (length (b_edges b)) 0 0 None
            layers)"

section \<open>Properties of the plan\<close>

lemma topo_layers_props:
  assumes "topo_layers nodes edges = Ok layers"
  shows "mset (concat layers) = mset edges"
    and "\<And>l. l \<in> set layers \<Longrightarrow> l \<noteq> [] \<and> sorted (map be_id l)"
    and "\<And>k l e f. k < length layers \<Longrightarrow> l < length layers \<Longrightarrow> e \<in> set (layers ! k) \<Longrightarrow>
       f \<in> set (layers ! l) \<Longrightarrow> be_target_id f = be_source_id e \<Longrightarrow> l < k"
proof -
  obtain idx where g: "good_layers edges idx" and ls: "layers = map (map ((!) edges)) idx"
    using topo_layers_result [where nodes = nodes and edges = edges] assms by auto
  show "mset (concat layers) = mset edges" using good_layers_mset [OF g] ls by simp
  show "l \<noteq> [] \<and> sorted (map be_id l)" if "l \<in> set layers" for l
    using that g ls by (auto simp: good_layers_def layers_inv_def in_set_conv_nth)
  show "l < k" if "k < length layers" "l < length layers" "e \<in> set (layers ! k)"
    "f \<in> set (layers ! l)" "be_target_id f = be_source_id e" for k l e f
    using good_layers_precede [OF g, of k e l f] that ls by simp
qed

text \<open>
  C16: a successful plan holds every edge exactly once, every layer is non-empty and sorted by
  edge id, and whenever an edge starts at the node another edge ends at, that other edge is in
  a strictly earlier layer.
\<close>

theorem topo_layers_sound:
  assumes "topo_layers nodes edges = Ok layers"
  shows "mset (concat layers) = mset edges \<and>
    (\<forall>l \<in> set layers. l \<noteq> [] \<and> sorted (map be_id l)) \<and>
    (\<forall>k < length layers. \<forall>l < length layers. \<forall>e \<in> set (layers ! k). \<forall>f \<in> set (layers ! l).
       be_target_id f = be_source_id e \<longrightarrow> l < k)"
  using topo_layers_props [OF assms] by blast

theorem topo_layers_sound_witness:
  "be_id (hd (hd [[\<lparr>be_id = ''e'', be_source_id = ''a'', be_target_id = ''b'', be_action = ''push'',
      be_sync_config = ''{}''\<rparr>]])) = ''e'' \<and>
   mset (concat [[\<lparr>be_id = ''e'', be_source_id = ''a'', be_target_id = ''b'', be_action = ''push'',
      be_sync_config = ''{}''\<rparr>]])
   = mset [\<lparr>be_id = ''e'', be_source_id = ''a'', be_target_id = ''b'', be_action = ''push'',
      be_sync_config = ''{}''\<rparr>]"
proof -
  let ?e = "\<lparr>be_id = ''e'', be_source_id = ''a'', be_target_id = ''b'', be_action = ''push'',
      be_sync_config = ''{}''\<rparr>"
  have "topo_layers [] [?e] = Ok [[?e]]" by code_simp
  from topo_layers_sound [OF this] show ?thesis by simp
qed


section \<open>Properties of a run\<close>

lemma resolve_edges_fst: "resolve_edges m es = Ok rs \<Longrightarrow> map fst rs = es"
  by (induction es arbitrary: rs) (auto split: option.splits sum.splits)

lemma resolve_edges_total:
  "\<forall>e \<in> set es. be_source_id e \<in> dom m \<and> be_target_id e \<in> dom m \<Longrightarrow> \<exists>rs. resolve_edges m es = Ok rs"
  by (induction es) fastforce+

lemma dom_node_map: "dom (node_map nodes) = bn_id ` set nodes"
  by (simp add: node_map_def dom_map_of_conv_image_fst image_image)

lemma tl_edge_thread [simp]: "tl_edge (edge_thread env cb bid li n idx res) = fst res"
  by (auto simp: edge_thread_def Let_def split: prod.splits)

lemma tl_idx_thread [simp]: "tl_idx (edge_thread env cb bid li n idx res) = idx"
  by (auto simp: edge_thread_def Let_def split: prod.splits)

lemma thread_result_synced: "t = edge_thread env cb bid li n idx res \<Longrightarrow> tl_result t \<noteq> None \<Longrightarrow> tl_synced t"
  by (auto simp: edge_thread_def Let_def split: prod.splits if_splits)

lemma layer_threads_edges [simp]:
  "map tl_edge (layer_threads env cb bid li n base rs) = map fst rs"
  unfolding layer_threads_def by (rule nth_equalityI) simp_all

lemma layer_threads_idx [simp]:
  "map tl_idx (layer_threads env cb bid li n base rs) = [Suc base..<Suc base + length rs]"
  unfolding layer_threads_def by (rule nth_equalityI) (simp_all del: upt_Suc)

lemma length_layer_threads [simp]: "length (layer_threads env cb bid li n base rs) = length rs"
  by (simp add: layer_threads_def)

text \<open>Scanning a layer: what a continued run knows about the threads scanned.\<close>

lemma scan_results_Ok:
  "scan_results stop ts c fe = Ok (c', fe') \<Longrightarrow>
   (c' \<longleftrightarrow> c \<or> (\<exists>t \<in> set ts. tl_result t = None)) \<and>
   (stop \<longrightarrow> (\<forall>t \<in> set ts. tl_result t = None \<or> tl_result t = Some (Ok ()))) \<and>
   (fe' = None \<longleftrightarrow> fe = None \<and> (\<forall>t \<in> set ts. tl_result t = None \<or> tl_result t = Some (Ok ())))"
proof (induction ts arbitrary: c fe)
  case (Cons t ts)
  show ?case
  proof (cases "tl_result t")
    case None
    then show ?thesis using Cons.IH [of True fe] Cons.prems by simp
  next
    case (Some r)
    then show ?thesis
      using Cons.IH [of c fe] Cons.IH [of c "Some x" for x] Cons.IH [of c] Cons.prems
      by (cases r) (auto split: if_splits)
  qed
qed simp

lemma run_layers_log:
  assumes "run_layers env cb stop bid nodes n li base fe layers = (r, tss)"
  shows "length tss \<le> length layers \<and>
    (\<forall>k < length tss. map tl_edge (tss ! k) = layers ! k \<and>
       (Suc k < length tss \<longrightarrow>
          (\<forall>t \<in> set (tss ! k). \<exists>x. tl_result t = Some x \<and> (stop \<longrightarrow> x = Ok ()))))"
  using assms
proof (induction layers arbitrary: li base fe r tss)
  case (Cons layer layers)
  show ?case
  proof (cases "env_layer_cancelled env li")
    case True
    then show ?thesis using Cons.prems by simp
  next
    case nc: False
    show ?thesis
    proof (cases "resolve_edges nodes layer")
      case (Inl x)
      then show ?thesis using Cons.prems nc by simp
    next
      case (Inr rs)
      let ?ts = "layer_threads env cb bid li n base rs"
      have e: "map tl_edge ?ts = layer" using resolve_edges_fst [OF Inr] by simp
      show ?thesis
      proof (cases "scan_results stop ?ts False fe")
        case (Inl x)
        then have "tss = [?ts]" using Cons.prems nc Inr by simp
        then show ?thesis using e by simp
      next
        case sc: (Inr p)
        obtain c' fe' where p: "p = (c', fe')" by fastforce
        note known = scan_results_Ok [OF sc [unfolded p]]
        show ?thesis
        proof (cases c')
          case True
          then have "tss = [?ts]" using Cons.prems nc Inr sc p by simp
          then show ?thesis using e by simp
        next
          case False
          obtain r' tss' where rec: "run_layers env cb stop bid nodes n (Suc li)
              (base + length rs) fe' layers = (r', tss')" by fastforce
          have tss: "tss = ?ts # tss'" using Cons.prems nc Inr sc p False rec by simp
          have all: "\<forall>t \<in> set ?ts. \<exists>x. tl_result t = Some x \<and> (stop \<longrightarrow> x = Ok ())"
            using known False by fastforce
          show ?thesis using Cons.IH [OF rec] e all
            by (simp add: tss All_less_Suc2)
        qed
      qed
    qed
  qed
next
  case Nil
  then show ?case by (cases fe) auto
qed

lemma run_layers_completed:
  assumes "run_layers env cb stop bid nodes n li base fe layers = (Ok (), tss)"
  shows "fe = None \<and> length tss = length layers \<and>
    (\<forall>t \<in> set (concat tss). tl_synced t \<and> tl_result t = Some (Ok ()))"
  using assms
proof (induction layers arbitrary: li base fe tss)
  case Nil
  then show ?case by (simp split: option.splits)
next
  case (Cons layer layers)
  obtain rs where rs: "resolve_edges nodes layer = Ok rs" and nc: "\<not> env_layer_cancelled env li"
    using Cons.prems by (auto split: if_splits sum.splits)
  let ?ts = "layer_threads env cb bid li n base rs"
  obtain fe' where sc: "scan_results stop ?ts False fe = Ok (False, fe')"
    using Cons.prems nc rs by (auto simp: Let_def split: if_splits sum.splits prod.splits)
  obtain tss' where rec: "run_layers env cb stop bid nodes n (Suc li) (base + length rs) fe' layers
      = (Ok (), tss')" and tss: "tss = ?ts # tss'"
    using Cons.prems nc rs sc by (auto split: prod.splits)
  note IH = Cons.IH [OF rec] and known = scan_results_Ok [OF sc]
  have "\<forall>t \<in> set ?ts. tl_result t \<noteq> None" using known by auto
  moreover have "\<forall>t \<in> set ?ts. tl_result t = None \<or> tl_result t = Some (Ok ())"
    using known IH by simp
  ultimately have "\<forall>t \<in> set ?ts. tl_result t = Some (Ok ())" by blast
  moreover from this have "\<forall>t \<in> set ?ts. tl_synced t"
    by (auto simp: layer_threads_def intro!: thread_result_synced)
  ultimately show ?case using IH known tss by auto
qed

text \<open>A run with no cancellation, no missing node and only successful syncs.\<close>

lemma run_layers_all_ok:
  assumes "\<And>i. \<not> env_layer_cancelled env i" "\<And>i. \<not> env_before env i" "\<And>i. \<not> env_after env i"
    and "\<And>i c. \<exists>x. env_sync env i c = Ok x"
    and "\<forall>e \<in> set (concat layers). be_source_id e \<in> dom nodes \<and> be_target_id e \<in> dom nodes"
  shows "\<exists>tss. run_layers env cb stop bid nodes n li base None layers = (Ok (), tss) \<and>
     map tl_idx (concat tss) = [Suc base..<Suc base + length (concat layers)]"
  using assms(5)
proof (induction layers arbitrary: li base)
  case (Cons layer layers)
  obtain rs where rs: "resolve_edges nodes layer = Ok rs"
    using resolve_edges_total [of layer nodes] Cons.prems by auto
  let ?ts = "layer_threads env cb bid li n base rs"
  have run: "tl_result (edge_thread env cb bid li n idx res) = Some (Ok ())" for idx res
  proof -
    obtain e s d where res: "res = (e, s, d)" by (cases res) auto
    obtain x where "env_sync env idx (edge_config e s d) = Ok x" using assms(4) by blast
    then show ?thesis using assms(2,3)
      by (simp add: edge_thread_def res run_edge_def Let_def)
  qed
  have "scan_results stop ts False None = Ok (False, None)"
    if "\<forall>t \<in> set ts. tl_result t = Some (Ok ())" for ts
    using that by (induction ts) auto
  then have sc: "scan_results stop ?ts False None = Ok (False, None)"
    using run by (auto simp: layer_threads_def)
  have "length rs = length layer" using resolve_edges_fst [OF rs] by (metis length_map)
  moreover obtain tss where "run_layers env cb stop bid nodes n (Suc li) (base + length rs) None layers
      = (Ok (), tss)" "map tl_idx (concat tss)
      = [Suc (base + length rs)..<Suc (base + length rs) + length (concat layers)]"
    using Cons.IH [of "Suc li" "base + length rs"] Cons.prems by auto
  moreover have "[Suc base..<Suc base + length rs] @
      [Suc (base + length rs)..<Suc (base + length rs) + m] = [Suc base..<Suc base + (length rs + m)]" for m
    using upt_add_eq_append [of "Suc base" "Suc base + length rs" m] by (simp add: add.assoc del: upt_Suc)
  ultimately show ?case using assms(1) rs sc by (simp add: add.assoc del: upt_Suc)
qed simp

lemma run_board_log:
  assumes "topo_layers (b_nodes b) (b_edges b) = Ok layers"
  shows "run_board env cb stop b = run_layers env cb stop (b_id b) (node_map (b_nodes b))
     (length (b_edges b)) 0 0 None layers"
  using assms by (simp add: run_board_def)

text \<open>
  C6: an edge is synced only after every edge that ends at its source node has finished, and
  in \<open>stop_on_error\<close> mode only after each of them has finished without an error; this holds in
  every run, whatever the syncs return and whenever the run is cancelled.
\<close>

theorem run_board_waits_for_predecessors:
  assumes "k < length (snd (run_board env cb stop b))"
    and "t \<in> set (snd (run_board env cb stop b) ! k)"
    and "f \<in> set (b_edges b)" and "be_target_id f = be_source_id (tl_edge t)"
  shows "\<exists>u \<in> set (concat (take k (snd (run_board env cb stop b)))).
     tl_edge u = f \<and> (\<exists>x. tl_result u = Some x \<and> (stop \<longrightarrow> x = Ok ()))"
proof -
  obtain layers where lay: "topo_layers (b_nodes b) (b_edges b) = Ok layers"
    using assms(1) by (cases "topo_layers (b_nodes b) (b_edges b)") (simp_all add: run_board_def)
  obtain r tss where run: "run_board env cb stop b = (r, tss)" by fastforce
  note log = run_layers_log [OF run [unfolded run_board_log [OF lay]]]
  have kl: "k < length tss" "k < length layers" and tk: "tl_edge t \<in> set (layers ! k)"
    using assms(1,2) log run by (simp_all, metis image_eqI set_map)
  have "f \<in> set (concat layers)" using topo_layers_props(1) [OF lay] assms(3) by (metis set_mset_mset)
  then obtain q where "q \<in> set layers" "f \<in> set q" by auto
  then obtain j where j: "j < length layers" "f \<in> set (layers ! j)" by (metis in_set_conv_nth)
  then have jk: "j < k" using topo_layers_props(3) [OF lay kl(2) j(1) tk j(2)] assms(4) by simp
  have jt: "j < length tss" "Suc j < length tss" using jk kl by simp_all
  have jl: "map tl_edge (tss ! j) = layers ! j"
    "\<forall>t \<in> set (tss ! j). \<exists>x. tl_result t = Some x \<and> (stop \<longrightarrow> x = Ok ())"
    using conjunct2 [OF log, rule_format, OF jt(1)] jt(2) by blast+
  from jl(1) j(2) obtain u where u: "u \<in> set (tss ! j)" "tl_edge u = f" by (metis imageE set_map)
  moreover have "tss ! j \<in> set (take k tss)" using jk kl by (auto simp: in_set_conv_nth)
  then have "u \<in> set (concat (take k tss))" using u(1) by auto
  moreover from jl(2) u(1) have "\<exists>x. tl_result u = Some x \<and> (stop \<longrightarrow> x = Ok ())" by blast
  ultimately show ?thesis unfolding run snd_conv by blast
qed

definition demo_board :: board where
  "demo_board = \<lparr> b_id = ''b'', b_name = [], b_created_at = [], b_updated_at = [],
     b_nodes = map (\<lambda>i. \<lparr> bn_id = i, bn_remote_name = [], bn_path = ''/'' @ i, bn_label = [],
       bn_x = Fin 0, bn_y = Fin 0 \<rparr>) [''x'', ''y'', ''z''],
     b_edges = [\<lparr> be_id = ''e2'', be_source_id = ''y'', be_target_id = ''z'', be_action = ''push'',
         be_sync_config = ''{}'' \<rparr>,
       \<lparr> be_id = ''e1'', be_source_id = ''x'', be_target_id = ''y'', be_action = ''push'',
         be_sync_config = ''{}'' \<rparr>] \<rparr>"

definition demo_env :: board_env where
  "demo_env = \<lparr> env_layer_cancelled = (\<lambda>_. False), env_before = (\<lambda>_. False),
     env_after = (\<lambda>_. False), env_sync = (\<lambda>_ _. Ok sync_result_default) \<rparr>"

lemma demo_layers:
  "topo_layers (b_nodes demo_board) (b_edges demo_board)
     = Ok [[b_edges demo_board ! 1], [b_edges demo_board ! 0]]"
  by code_simp

lemma demo_log:
  "map (map tl_edge) (snd (run_board demo_env False True demo_board))
     = [[b_edges demo_board ! 1], [b_edges demo_board ! 0]]"
  by code_simp

theorem run_board_waits_for_predecessors_witness:
  "\<exists>u \<in> set (concat (take 1 (snd (run_board demo_env False True demo_board)))).
     tl_edge u = b_edges demo_board ! 1 \<and> tl_result u = Some (Ok ())"
proof -
  let ?log = "snd (run_board demo_env False True demo_board)"
  have len: "length ?log = 2" using arg_cong [OF demo_log, of length] by simp
  have "map tl_edge (?log ! 1) = [b_edges demo_board ! 0]"
    using arg_cong [OF demo_log, of "\<lambda>l. l ! 1"] len by simp
  then obtain t where t: "t \<in> set (?log ! 1)" "tl_edge t = b_edges demo_board ! 0" by auto
  have "b_edges demo_board ! 1 \<in> set (b_edges demo_board)"
    "be_target_id (b_edges demo_board ! 1) = be_source_id (b_edges demo_board ! 0)"
    by (simp_all add: demo_board_def)
  from run_board_waits_for_predecessors [OF _ t(1) this(1)] this(2) t(2) len show ?thesis by auto
qed

text \<open>
  C14: a run that reports success synced every edge of the board exactly once and no edge failed
  or was cancelled.
\<close>

theorem run_board_success_is_complete:
  assumes "fst (run_board env cb stop b) = Ok ()"
  shows "mset (map tl_edge (concat (snd (run_board env cb stop b)))) = mset (b_edges b) \<and>
    (\<forall>t \<in> set (concat (snd (run_board env cb stop b))). tl_synced t \<and> tl_result t = Some (Ok ()))"
proof -
  obtain layers where l: "topo_layers (b_nodes b) (b_edges b) = Ok layers"
    using assms by (cases "topo_layers (b_nodes b) (b_edges b)") (simp_all add: run_board_def)
  obtain tss where run: "run_board env cb stop b = (Ok (), tss)" using assms by (metis prod.collapse)
  note log = run_layers_log [OF run [unfolded run_board_log [OF l]]]
  note compl = run_layers_completed [OF run [unfolded run_board_log [OF l]]]
  have "map (map tl_edge) tss = layers" using log compl by (intro nth_equalityI) simp_all
  then have "map tl_edge (concat tss) = concat layers" by (simp add: map_concat)
  then show ?thesis using topo_layers_props(1) [OF l] compl run by simp
qed

theorem run_board_success_is_complete_witness:
  "mset (map tl_edge (concat (snd (run_board demo_env False True demo_board)))) = mset (b_edges demo_board)"
proof -
  have "fst (run_board demo_env False True demo_board) = Ok ()" by code_simp
  from run_board_success_is_complete [OF this] show ?thesis by simp
qed

text \<open>
  C15: if the board has a plan, its edges join existing nodes, nothing cancels the run and every
  sync succeeds, the run reports success and the edges are numbered 1 to n without a gap.
\<close>

theorem run_board_succeeds:
  assumes "topo_layers (b_nodes b) (b_edges b) = Ok layers"
    and "\<forall>e \<in> set (b_edges b). be_source_id e \<in> bn_id ` set (b_nodes b) \<and>
           be_target_id e \<in> bn_id ` set (b_nodes b)"
    and "\<And>i. \<not> env_layer_cancelled env i" "\<And>i. \<not> env_before env i" "\<And>i. \<not> env_after env i"
    and "\<And>i c. \<exists>x. env_sync env i c = Ok x"
  shows "fst (run_board env cb stop b) = Ok () \<and>
    map tl_idx (concat (snd (run_board env cb stop b))) = [1..<Suc (length (b_edges b))]"
proof -
  have m: "mset (concat layers) = mset (b_edges b)" using topo_layers_props(1) [OF assms(1)] .
  then have "set (concat layers) = set (b_edges b)" by (metis set_mset_mset)
  with assms(2) have "\<forall>e \<in> set (concat layers). be_source_id e \<in> dom (node_map (b_nodes b)) \<and>
      be_target_id e \<in> dom (node_map (b_nodes b))" by (simp only: dom_node_map)
  from run_layers_all_ok [OF assms(3-6) this] obtain tss where
    "run_board env cb stop b = (Ok (), tss)"
    "map tl_idx (concat tss) = [Suc 0..<Suc 0 + length (concat layers)]"
    using run_board_log [OF assms(1)] by metis
  then show ?thesis using mset_eq_length [OF m] by (simp del: upt_Suc)
qed

theorem run_board_succeeds_witness:
  "fst (run_board demo_env True False demo_board) = Ok ()"
  using run_board_succeeds [of demo_board, OF demo_layers, of demo_env True False]
  by (simp add: demo_board_def demo_env_def)

section \<open>The run table\<close>

record board_run =
  run_id :: string
  run_cancelled :: bool \<comment> \<open>the run's token\<close>
  run_done :: bool
  run_err :: "board_error option"

record board_engine =
  eng_store :: "(string \<Rightarrow> (store_error, board) result) option" \<comment> \<open>\<open>load_board_graph\<close>\<close>
  eng_sync :: bool \<comment> \<open>a sync client is attached\<close>
  eng_runs :: "string \<rightharpoonup> board_run"

record board_run_status =
  brs_run_id :: string
  brs_board_id :: string
  brs_status :: string
  brs_error :: string

definition board_attach ::
  "(string \<Rightarrow> (store_error, board) result) \<Rightarrow> board_engine \<Rightarrow> board_engine" where
  "board_attach store e = e\<lparr>eng_store := Some store, eng_sync := True\<rparr>"

definition board_detach :: "board_engine \<Rightarrow> board_engine" where
  "board_detach e = e\<lparr>eng_store := None, eng_sync := False\<rparr>"

definition board_status :: "board_engine \<Rightarrow> string \<Rightarrow> board_run_status option" where
  "board_status e bid =
     (case eng_runs e bid of
        None \<Rightarrow> None
      | Some r \<Rightarrow>
          (let st = \<lparr> brs_run_id = run_id r, brs_board_id = bid, brs_status = [], brs_error = [] \<rparr> in
           Some (if run_done r then
                   (case run_err r of
                      Some BECancelled \<Rightarrow> st\<lparr>brs_status := ''cancelled''\<rparr>
                    | Some x \<Rightarrow> st\<lparr>brs_status := ''failed'', brs_error := board_error_display x\<rparr>
                    | None \<Rightarrow> st\<lparr>brs_status := ''completed''\<rparr>)
                 else st\<lparr>brs_status := ''running''\<rparr>)))"

definition board_configured ::
  "board_engine \<Rightarrow> (board_error, string \<Rightarrow> (store_error, board) result) result" where
  "board_configured e =
     (case eng_store e of
        Some s \<Rightarrow> if eng_sync e then Ok s else Err BENotConfigured
      | None \<Rightarrow> Err BENotConfigured)"

definition board_load ::
  "(string \<Rightarrow> (store_error, board) result) \<Rightarrow> string \<Rightarrow> (board_error, board) result" where
  "board_load store bid =
     (case store bid of
        Err x \<Rightarrow> Err (BEStore x)
      | Ok b \<Rightarrow> if b_nodes b = [] \<or> b_edges b = [] then Err BEEmptyBoard else Ok b)"

text \<open>
  \<open>execute\<close> up to the spawn of the worker; \<open>rid\<close> is the fresh UUID. The result is the board
  the worker runs and the engine with the run registered.
\<close>

definition board_execute ::
  "board_engine \<Rightarrow> string \<Rightarrow> string \<Rightarrow> (board_error, board \<times> board_engine) result" where
  "board_execute e bid rid =
     (case board_configured e of
        Err x \<Rightarrow> Err x
      | Ok store \<Rightarrow>
          (case board_load store bid of
             Err x \<Rightarrow> Err x
           | Ok b \<Rightarrow>
               if (case eng_runs e bid of Some r \<Rightarrow> \<not> run_done r | None \<Rightarrow> False)
               then Err BEAlreadyRunning
               else Ok (b, e\<lparr>eng_runs := (eng_runs e)(bid \<mapsto>
                     \<lparr> run_id = rid, run_cancelled = False, run_done = False, run_err = None \<rparr>)\<rparr>)))"

text \<open>The worker's epilogue: the outcome is written to whatever run the table holds.\<close>

definition board_finish :: "board_engine \<Rightarrow> string \<Rightarrow> board_error option \<Rightarrow> board_engine" where
  "board_finish e bid err =
     (case eng_runs e bid of
        None \<Rightarrow> e
      | Some r \<Rightarrow> e\<lparr>eng_runs := (eng_runs e)(bid \<mapsto> r\<lparr>run_done := True, run_err := err\<rparr>)\<rparr>)"

definition finish_status :: "board_error option \<Rightarrow> string \<times> string" where
  "finish_status err =
     (case err of
        Some x \<Rightarrow> (if x = BECancelled then ''cancelled'' else ''failed'', board_error_display x)
      | None \<Rightarrow> (''completed'', []))"

definition board_stop :: "board_engine \<Rightarrow> string \<Rightarrow> (board_error, board_engine) result" where
  "board_stop e bid =
     (case eng_runs e bid of
        Some r \<Rightarrow>
          if \<not> run_done r then
            Ok (e\<lparr>eng_runs := (eng_runs e)(bid \<mapsto> r\<lparr>run_cancelled := True\<rparr>)\<rparr>)
          else Err BENotRunning
      | None \<Rightarrow> Err BENotRunning)"

text \<open>The engine with its live worker threads: each is a board id, its run id and its board.\<close>

type_synonym board_sys = "board_engine \<times> (string \<times> string \<times> board) set"

inductive board_step :: "board_sys \<Rightarrow> board_sys \<Rightarrow> bool" where
  bs_attach: "board_step (e, w) (board_attach s e, w)"
| bs_detach: "board_step (e, w) (board_detach e, w)"
| bs_execute: "board_execute e bid rid = Ok (b, e') \<Longrightarrow> (\<forall>(bid', rid', b') \<in> w. rid' \<noteq> rid) \<Longrightarrow>
     board_step (e, w) (e', insert (bid, rid, b) w)"
| bs_finish: "(bid, rid, b) \<in> w \<Longrightarrow> board_step (e, w) (board_finish e bid err, w - {(bid, rid, b)})"
| bs_stop: "board_stop e bid = Ok e' \<Longrightarrow> board_step (e, w) (e', w)"

inductive_cases board_step_cases: "board_step (e, w) s"

inductive board_reach :: "board_sys \<Rightarrow> bool" where
  br_start: "board_reach (\<lparr> eng_store = None, eng_sync = False, eng_runs = Map.empty \<rparr>, {})"
| br_step: "board_reach s \<Longrightarrow> board_step s s' \<Longrightarrow> board_reach s'"

text \<open>
  Every live worker owns the unfinished run of its board, every unfinished run has a worker,
  and a board has at most one.
\<close>

definition board_inv :: "board_sys \<Rightarrow> bool" where
  "board_inv s \<longleftrightarrow>
     (\<forall>x \<in> snd s. \<exists>r. eng_runs (fst s) (fst x) = Some r \<and> \<not> run_done r \<and> run_id r = fst (snd x)) \<and>
     (\<forall>bid r. eng_runs (fst s) bid = Some r \<longrightarrow> \<not> run_done r \<longrightarrow> bid \<in> fst ` snd s) \<and>
     inj_on fst (snd s)"

lemma board_inv_execute:
  assumes "board_inv (e, w)" and "\<And>r. eng_runs e bid = Some r \<Longrightarrow> run_done r"
  shows "board_inv (e\<lparr>eng_runs := (eng_runs e)(bid \<mapsto> \<lparr> run_id = rid, run_cancelled = False,
     run_done = False, run_err = None \<rparr>)\<rparr>, insert (bid, rid, b) w)"
proof -
  have fresh: "bid \<notin> fst ` w" using assms unfolding board_inv_def by fastforce
  then have "fst x \<noteq> bid" if "x \<in> w" for x using that by blast
  with assms(1) fresh show ?thesis unfolding board_inv_def by (auto simp: inj_on_insert)
qed

lemma board_inv_finish:
  assumes "board_inv (e, w)" and "(bid, rid, b) \<in> w"
  shows "board_inv (board_finish e bid err, w - {(bid, rid, b)})"
proof -
  obtain r where r: "eng_runs e bid = Some r" using assms unfolding board_inv_def by fastforce
  have inj: "inj_on fst w" using assms(1) by (simp add: board_inv_def)
  have other: "fst x \<noteq> bid" if "x \<in> w - {(bid, rid, b)}" for x
  proof
    assume "fst x = bid"
    then have "x = (bid, rid, b)" using that inj assms(2) by (metis DiffD1 fst_conv inj_onD)
    with that show False by simp
  qed
  have "inj_on fst (w - {(bid, rid, b)})" using inj by (rule inj_on_diff)
  moreover have "\<exists>r. eng_runs (board_finish e bid err) (fst x) = Some r \<and> \<not> run_done r \<and>
      run_id r = fst (snd x)" if "x \<in> w - {(bid, rid, b)}" for x
    using other [OF that] that assms(1) r by (simp add: board_inv_def board_finish_def)
  moreover have "bid' \<in> fst ` (w - {(bid, rid, b)})"
    if "eng_runs (board_finish e bid err) bid' = Some r'" "\<not> run_done r'" for bid' r'
  proof -
    have ne: "bid' \<noteq> bid" using that r by (auto simp: board_finish_def)
    with that r assms(1) have "bid' \<in> fst ` w" by (simp add: board_inv_def board_finish_def)
    then obtain x where "x \<in> w" "fst x = bid'" by blast
    with ne show ?thesis by force
  qed
  ultimately show ?thesis by (simp add: board_inv_def)
qed

lemma board_step_inv: "board_step s s' \<Longrightarrow> board_inv s \<Longrightarrow> board_inv s'"
proof (induction rule: board_step.induct)
  case (bs_execute e bid rid b e' w)
  then have "e' = e\<lparr>eng_runs := (eng_runs e)(bid \<mapsto>
       \<lparr> run_id = rid, run_cancelled = False, run_done = False, run_err = None \<rparr>)\<rparr>"
    and "\<And>r. eng_runs e bid = Some r \<Longrightarrow> run_done r"
    by (auto simp: board_execute_def split: sum.splits if_splits option.splits)
  then show ?case using board_inv_execute [OF bs_execute.prems] by simp
next
  case (bs_finish bid rid b w e err)
  then show ?case by (intro board_inv_finish)
next
  case (bs_stop e bid e' w)
  then obtain r where r: "eng_runs e bid = Some r" "\<not> run_done r"
    "e' = e\<lparr>eng_runs := (eng_runs e)(bid \<mapsto> r\<lparr>run_cancelled := True\<rparr>)\<rparr>"
    by (auto simp: board_stop_def split: option.splits if_splits)
  from bs_stop.prems r(1,2) show ?case unfolding board_inv_def r(3) by auto
qed (simp_all add: board_inv_def board_attach_def board_detach_def)

lemma board_reach_inv: "board_reach s \<Longrightarrow> board_inv s"
proof (induction rule: board_reach.induct)
  case br_start
  then show ?case by (simp add: board_inv_def)
qed (rule board_step_inv)

text \<open>
  In every reachable state a board has at most one live worker, and when that worker ends
  the status shown for the board is the worker's own run id with its own outcome.
\<close>

lemma board_worker_reports_own_run:
  assumes "board_reach (e, w)" and "(bid, rid, b) \<in> w"
  shows "(\<forall>rid' b'. (bid, rid', b') \<in> w \<longrightarrow> rid' = rid \<and> b' = b) \<and>
    (case board_status (board_finish e bid err) bid of
       None \<Rightarrow> False
     | Some st \<Rightarrow> brs_run_id st = rid \<and> brs_status st = fst (finish_status err))"
proof -
  note inv = board_reach_inv [OF assms(1), unfolded board_inv_def]
  obtain r where r: "eng_runs e bid = Some r" "run_id r = rid"
    using inv assms(2) by fastforce
  have "inj_on fst w" using inv by simp
  then have "\<forall>rid' b'. (bid, rid', b') \<in> w \<longrightarrow> rid' = rid \<and> b' = b"
    using assms(2) by (metis fst_conv inj_onD prod.inject)
  moreover have "case board_status (board_finish e bid err) bid of
       None \<Rightarrow> False
     | Some st \<Rightarrow> brs_run_id st = rid \<and> brs_status st = fst (finish_status err)"
    using r by (cases err) (auto simp: board_status_def board_finish_def finish_status_def Let_def
        split: board_error.splits)
  ultimately show ?thesis by blast
qed

end
