(* ===== verification/EventBus.thy ===== *)
theory EventBus
  imports RcloneTypes "HOL-Library.Sublist"
begin

text \<open>
  \<open>crates/gn-drive-core/src/event_bus.rs\<close>: the events, their topics, and the bus. A
  subscription is a number with a bounded mailbox; the topic table lists subscriptions in the
  order they subscribed. Subscribing, removing and closing run under the bus lock and are one
  function each; a publisher copies the topic's subscriptions under the lock and sends to each
  of them after releasing it, so a run of the bus has the sends as operations of their own
  (\<open>BSend\<close>) beside the uninterrupted \<open>bus_publish\<close>. \<open>Utc::now()\<close> is the argument \<open>now\<close>. The mailbox law (a push keeps the newest
  entries) is the locale \<open>newest_buffer\<close>, interpreted here on the publisher's send loop and
  by the runtime hub on its log.
\<close>

section \<open>Topics\<close>

definition SYNC_STARTED :: string where "SYNC_STARTED = ''sync:started''"
definition SYNC_PROGRESS :: string where "SYNC_PROGRESS = ''sync:progress''"
definition SYNC_COMPLETED :: string where "SYNC_COMPLETED = ''sync:completed''"
definition SYNC_FAILED :: string where "SYNC_FAILED = ''sync:failed''"
definition AUTH_UNLOCKED :: string where "AUTH_UNLOCKED = ''auth:unlocked''"
definition AUTH_LOCKED :: string where "AUTH_LOCKED = ''auth:locked''"
definition SERVICE_STATUS :: string where "SERVICE_STATUS = ''service:status''"
definition STATE_CHANGED :: string where "STATE_CHANGED = ''state:changed''"
definition SCHEDULE_TRIGGERED :: string where "SCHEDULE_TRIGGERED = ''schedule:triggered''"
definition BOARD_EXECUTION :: string where "BOARD_EXECUTION = ''board:execution''"
definition FLOW_EXECUTION :: string where "FLOW_EXECUTION = ''flow:execution''"
definition RUNTIME_SNAPSHOT :: string where "RUNTIME_SNAPSHOT = ''runtime:snapshot''"

lemmas topic_defs = SYNC_STARTED_def SYNC_PROGRESS_def SYNC_COMPLETED_def SYNC_FAILED_def
  AUTH_UNLOCKED_def AUTH_LOCKED_def SERVICE_STATUS_def STATE_CHANGED_def SCHEDULE_TRIGGERED_def
  BOARD_EXECUTION_def FLOW_EXECUTION_def RUNTIME_SNAPSHOT_def

definition topic_ALL :: "string list" where
  "topic_ALL = [SYNC_STARTED, SYNC_PROGRESS, SYNC_COMPLETED, SYNC_FAILED, AUTH_UNLOCKED,
     AUTH_LOCKED, SERVICE_STATUS, STATE_CHANGED, SCHEDULE_TRIGGERED, BOARD_EXECUTION,
     FLOW_EXECUTION]"

section \<open>Events\<close>

record sync_progress_event =
  spe_timestamp :: int
  spe_task_id :: string
  spe_profile_id :: string
  spe_action :: string
  spe_state :: string
  spe_transferred :: int
  spe_total :: int
  spe_bytes_per_sec :: f64
  spe_eta :: int
  spe_errors :: int
  spe_current_file :: string
  spe_stage :: string
  spe_stage_detail :: string
  spe_files_transferred :: int
  spe_total_files :: int
  spe_checks :: int
  spe_total_checks :: int
  spe_deletes :: int
  spe_renames :: int
  spe_transfers :: "file_transfer list"
  spe_error_message :: string

definition sync_progress_event_default :: "int \<Rightarrow> sync_progress_event" where
  "sync_progress_event_default now = \<lparr> spe_timestamp = now, spe_task_id = [],
     spe_profile_id = [], spe_action = [], spe_state = ''running'', spe_transferred = 0,
     spe_total = 0, spe_bytes_per_sec = Fin 0, spe_eta = 0, spe_errors = 0,
     spe_current_file = [], spe_stage = [], spe_stage_detail = [], spe_files_transferred = 0,
     spe_total_files = 0, spe_checks = 0, spe_total_checks = 0, spe_deletes = 0,
     spe_renames = 0, spe_transfers = [], spe_error_message = [] \<rparr>"

record sync_started_event =
  sse_timestamp :: int
  sse_task_id :: string
  sse_profile_id :: string
  sse_action :: string

record sync_completed_event =
  sce_timestamp :: int
  sce_task_id :: string
  sce_profile_id :: string
  sce_action :: string
  sce_duration :: int
  sce_bytes :: int
  sce_errors :: int

record service_status_event =
  sve_timestamp :: int
  sve_running :: bool
  sve_web_port :: int
  sve_uptime_secs :: int

record schedule_triggered_event =
  ste_timestamp :: int
  ste_schedule_id :: string
  ste_profile_id :: string
  ste_action :: string

record board_execution_event =
  bee_timestamp :: int
  bee_board_id :: string
  bee_node_id :: string
  bee_edge_id :: string
  bee_status :: string
  bee_profile_id :: string
  bee_action :: string

record flow_execution_event =
  fee_timestamp :: int
  fee_flow_id :: string
  fee_op_id :: string
  fee_status :: string
  fee_error :: string

record state_changed_event =
  sch_timestamp :: int
  sch_domain :: string
  sch_changed_id :: string

record runtime_log_entry =
  le_at :: int
  le_status :: string
  le_op_id :: string
  le_error :: string
  le_label :: string

record runtime_op_state =
  ros_id :: string
  ros_status :: string
  ros_last_error :: string

record runtime_flow_state =
  rfs_id :: string
  rfs_status :: string
  rfs_last_error :: string
  rfs_ops :: "runtime_op_state list"
  rfs_sync :: "sync_progress_event option"
  rfs_log :: "runtime_log_entry list"

record runtime_snapshot_event =
  rse_timestamp :: int
  rse_revision :: int
  rse_flows :: "runtime_flow_state list"

datatype bus_event =
    SyncStarted sync_started_event
  | SyncProgress sync_progress_event
  | SyncCompleted sync_completed_event
  | SyncFailed sync_progress_event
  | AuthUnlocked int
  | AuthLocked int
  | ServiceStatus service_status_event
  | StateChanged state_changed_event
  | ScheduleTriggered schedule_triggered_event
  | BoardExecution board_execution_event
  | FlowExecution flow_execution_event
  | RuntimeSnapshot runtime_snapshot_event

fun event_topic :: "bus_event \<Rightarrow> string" where
  "event_topic (SyncStarted _) = SYNC_STARTED"
| "event_topic (SyncProgress _) = SYNC_PROGRESS"
| "event_topic (SyncCompleted _) = SYNC_COMPLETED"
| "event_topic (SyncFailed _) = SYNC_FAILED"
| "event_topic (AuthUnlocked _) = AUTH_UNLOCKED"
| "event_topic (AuthLocked _) = AUTH_LOCKED"
| "event_topic (ServiceStatus _) = SERVICE_STATUS"
| "event_topic (StateChanged _) = STATE_CHANGED"
| "event_topic (ScheduleTriggered _) = SCHEDULE_TRIGGERED"
| "event_topic (BoardExecution _) = BOARD_EXECUTION"
| "event_topic (FlowExecution _) = FLOW_EXECUTION"
| "event_topic (RuntimeSnapshot _) = RUNTIME_SNAPSHOT"

fun event_timestamp :: "bus_event \<Rightarrow> int" where
  "event_timestamp (SyncStarted e) = sse_timestamp e"
| "event_timestamp (SyncProgress e) = spe_timestamp e"
| "event_timestamp (SyncFailed e) = spe_timestamp e"
| "event_timestamp (SyncCompleted e) = sce_timestamp e"
| "event_timestamp (AuthUnlocked t) = t"
| "event_timestamp (AuthLocked t) = t"
| "event_timestamp (ServiceStatus e) = sve_timestamp e"
| "event_timestamp (StateChanged e) = sch_timestamp e"
| "event_timestamp (ScheduleTriggered e) = ste_timestamp e"
| "event_timestamp (BoardExecution e) = bee_timestamp e"
| "event_timestamp (FlowExecution e) = fee_timestamp e"
| "event_timestamp (RuntimeSnapshot e) = rse_timestamp e"

definition ev_sync_started :: "int \<Rightarrow> string \<Rightarrow> string \<Rightarrow> string \<Rightarrow> bus_event" where
  "ev_sync_started now task profile action = SyncStarted
     \<lparr> sse_timestamp = now, sse_task_id = task, sse_profile_id = profile, sse_action = action \<rparr>"

definition ev_sync_completed ::
  "int \<Rightarrow> string \<Rightarrow> string \<Rightarrow> string \<Rightarrow> int \<Rightarrow> int \<Rightarrow> int \<Rightarrow> bus_event" where
  "ev_sync_completed now task profile action duration bytes errors = SyncCompleted
     \<lparr> sce_timestamp = now, sce_task_id = task, sce_profile_id = profile, sce_action = action,
       sce_duration = duration, sce_bytes = bytes, sce_errors = errors \<rparr>"

definition ev_flow_execution :: "int \<Rightarrow> string \<Rightarrow> string \<Rightarrow> string \<Rightarrow> string \<Rightarrow> bus_event" where
  "ev_flow_execution now flow op status err = FlowExecution
     \<lparr> fee_timestamp = now, fee_flow_id = flow, fee_op_id = op, fee_status = status,
       fee_error = err \<rparr>"

definition ev_board_execution ::
  "int \<Rightarrow> string \<Rightarrow> string \<Rightarrow> string \<Rightarrow> string \<Rightarrow> string \<Rightarrow> bus_event" where
  "ev_board_execution now board node edge status action = BoardExecution
     \<lparr> bee_timestamp = now, bee_board_id = board, bee_node_id = node, bee_edge_id = edge,
       bee_status = status, bee_profile_id = [], bee_action = action \<rparr>"

definition ev_schedule_triggered :: "int \<Rightarrow> string \<Rightarrow> string \<Rightarrow> string \<Rightarrow> bus_event" where
  "ev_schedule_triggered now sid profile action = ScheduleTriggered
     \<lparr> ste_timestamp = now, ste_schedule_id = sid, ste_profile_id = profile, ste_action = action \<rparr>"

definition ev_state_changed :: "int \<Rightarrow> string \<Rightarrow> string \<Rightarrow> bus_event" where
  "ev_state_changed now domain i = StateChanged
     \<lparr> sch_timestamp = now, sch_domain = domain, sch_changed_id = i \<rparr>"

section \<open>A buffer that keeps the newest entries\<close>

definition last_n :: "nat \<Rightarrow> 'a list \<Rightarrow> 'a list" where
  "last_n n xs = drop (length xs - n) xs"

lemma length_last_n [simp]: "length (last_n n xs) = min n (length xs)"
  by (simp add: last_n_def)

lemma last_n_short: "length xs \<le> n \<Longrightarrow> last_n n xs = xs"
  by (simp add: last_n_def)

lemma last_n_append_last_n: "last_n n (last_n n xs @ ys) = last_n n (xs @ ys)"
  by (cases "length xs \<le> n") (simp_all add: last_n_def add.commute)

lemma subseq_last_n: "subseq (last_n n xs) xs"
  unfolding last_n_def by (metis append_take_drop_id list_emb_append2 subseq_order.order_refl)

locale newest_buffer =
  fixes push :: "'e \<Rightarrow> 'q \<Rightarrow> 'q" and content :: "'q \<Rightarrow> 'e list" and cap :: nat
  assumes content_push: "content (push e q) = last_n cap (content q @ [e])"
    and cap_pos: "0 < cap"
begin

lemma content_pushes: "es \<noteq> [] \<Longrightarrow> content (fold push es q) = last_n cap (content q @ es)"
proof (induction es arbitrary: q)
  case (Cons e es)
  then show ?case by (cases "es = []") (simp_all add: content_push last_n_append_last_n)
qed simp

lemma pushes_bounded: "length (content q) \<le> cap \<Longrightarrow> length (content (fold push es q)) \<le> cap"
  by (cases "es = []") (simp_all add: content_pushes)

lemma push_keeps_newest: "content (push e q) \<noteq> [] \<and> last (content (push e q)) = e"
proof -
  have "length (content q @ [e]) - cap \<le> length (content q)" using cap_pos by simp
  then show ?thesis by (simp add: content_push last_n_def)
qed

lemma pushes_lossless:
  "length (content q @ es) \<le> cap \<Longrightarrow> content (fold push es q) = content q @ es"
  by (cases "es = []") (simp_all add: content_pushes last_n_short)

end

section \<open>The bus\<close>

definition MAILBOX_CAPACITY :: nat where "MAILBOX_CAPACITY = 64"

record 'e event_bus =
  bus_topics :: "string \<rightharpoonup> nat list" \<comment> \<open>subscriptions per topic\<close>
  bus_closed :: bool
  bus_next_id :: nat
  bus_mail :: "nat \<Rightarrow> 'e list" \<comment> \<open>the channel of each subscription, oldest first\<close>

definition bus_new :: "'e event_bus" where
  "bus_new = \<lparr> bus_topics = Map.empty, bus_closed = False, bus_next_id = 0, bus_mail = (\<lambda>_. []) \<rparr>"

definition topic_subs :: "'e event_bus \<Rightarrow> string \<Rightarrow> nat list" where
  "topic_subs b t = (case bus_topics b t of None \<Rightarrow> [] | Some l \<Rightarrow> l)"

text \<open>The send loop of \<open>publish\<close>: while the channel is full, drop the oldest entry and retry.\<close>

function send_loop :: "'e \<Rightarrow> 'e list \<Rightarrow> 'e list" where
  "send_loop ev q = (if length q < MAILBOX_CAPACITY then q @ [ev] else send_loop ev (tl q))"
  by pat_completeness auto
termination
  by (relation "measure (\<lambda>(ev, q). length q)") (auto simp: MAILBOX_CAPACITY_def)

declare send_loop.simps [simp del]

definition bus_subscribe :: "string list \<Rightarrow> 'e event_bus \<Rightarrow> nat \<times> 'e event_bus" where
  "bus_subscribe topics b =
     (let i = bus_next_id b; b1 = b\<lparr>bus_next_id := Suc i\<rparr> in
      (i, if bus_closed b then b1
          else b1\<lparr>bus_topics := fold (\<lambda>t m. m(t \<mapsto> (case m t of None \<Rightarrow> [] | Some l \<Rightarrow> l) @ [i]))
                    topics (bus_topics b)\<rparr>))"

definition bus_remove :: "nat \<Rightarrow> string list \<Rightarrow> 'e event_bus \<Rightarrow> 'e event_bus" where
  "bus_remove i topics b =
     b\<lparr>bus_topics := fold (\<lambda>t m. case m t of None \<Rightarrow> m | Some l \<Rightarrow> m(t \<mapsto> filter (\<lambda>s. s \<noteq> i) l))
         topics (bus_topics b)\<rparr>"

text \<open>The two phases of \<open>publish\<close>: the subscriptions copied under the lock, then one send each.\<close>

definition publish_targets :: "('e \<Rightarrow> string) \<Rightarrow> 'e \<Rightarrow> 'e event_bus \<Rightarrow> nat list" where
  "publish_targets topic ev b = (if bus_closed b then [] else topic_subs b (topic ev))"

definition bus_send :: "'e \<Rightarrow> nat \<Rightarrow> 'e event_bus \<Rightarrow> 'e event_bus" where
  "bus_send ev i b = b\<lparr>bus_mail := (bus_mail b)(i := send_loop ev (bus_mail b i))\<rparr>"

definition bus_publish :: "('e \<Rightarrow> string) \<Rightarrow> 'e \<Rightarrow> 'e event_bus \<Rightarrow> 'e event_bus" where
  "bus_publish topic ev b = fold (bus_send ev) (publish_targets topic ev b) b"

definition bus_close :: "'e event_bus \<Rightarrow> 'e event_bus" where
  "bus_close b = b\<lparr>bus_closed := True, bus_topics := Map.empty\<rparr>"

text \<open>\<open>try_recv().ok()\<close>: the oldest queued event, if any.\<close>

definition bus_try_recv :: "nat \<Rightarrow> 'e event_bus \<Rightarrow> 'e option \<times> 'e event_bus" where
  "bus_try_recv i b =
     (case bus_mail b i of
        [] \<Rightarrow> (None, b)
      | e # es \<Rightarrow> (Some e, b\<lparr>bus_mail := (bus_mail b)(i := es)\<rparr>))"

lemma send_loop_last_n: "send_loop ev q = last_n MAILBOX_CAPACITY (q @ [ev])"
proof (induction ev q rule: send_loop.induct)
  case (1 ev q)
  show ?case
  proof (cases "length q < MAILBOX_CAPACITY")
    case True
    then show ?thesis by (subst send_loop.simps) (simp add: last_n_short)
  next
    case False
    then obtain e es where q: "q = e # es" by (cases q) (auto simp: MAILBOX_CAPACITY_def)
    with False 1 have "send_loop ev q = last_n MAILBOX_CAPACITY (es @ [ev])"
      by (subst send_loop.simps) simp
    also have "\<dots> = last_n MAILBOX_CAPACITY (q @ [ev])"
      using False q by (simp add: last_n_def Suc_diff_le)
    finally show ?thesis .
  qed
qed

interpretation mailbox: newest_buffer send_loop "\<lambda>q. q" MAILBOX_CAPACITY
  by unfold_locales (simp_all add: send_loop_last_n MAILBOX_CAPACITY_def)

section \<open>Runs of the bus\<close>

datatype 'e bus_op = BSubscribe "string list" | BRemove nat "string list" | BPublish 'e
  | BSend 'e nat | BTryRecv nat | BClose

text \<open>One operation, for the subscription \<open>i\<close>: the bus after it and what \<open>i\<close> received.\<close>

fun bus_step :: "('e \<Rightarrow> string) \<Rightarrow> nat \<Rightarrow> 'e bus_op \<Rightarrow> 'e event_bus \<Rightarrow> 'e list \<times> 'e event_bus" where
  "bus_step topic i (BSubscribe ts) b = ([], snd (bus_subscribe ts b))"
| "bus_step topic i (BRemove j ts) b = ([], bus_remove j ts b)"
| "bus_step topic i (BPublish e) b = ([], bus_publish topic e b)"
| "bus_step topic i (BSend e j) b = ([], bus_send e j b)"
| "bus_step topic i (BTryRecv j) b =
     (case bus_try_recv j b of (r, b') \<Rightarrow>
        ((case r of Some e \<Rightarrow> if j = i then [e] else [] | None \<Rightarrow> []), b'))"
| "bus_step topic i BClose b = ([], bus_close b)"

text \<open>The events an operation puts into the mailbox of \<open>i\<close>: once per listing of \<open>i\<close> on the topic.\<close>

fun sent_to :: "('e \<Rightarrow> string) \<Rightarrow> nat \<Rightarrow> 'e bus_op \<Rightarrow> 'e event_bus \<Rightarrow> 'e list" where
  "sent_to topic i (BPublish e) b = replicate (count_list (publish_targets topic e b) i) e"
| "sent_to topic i (BSend e j) b = (if j = i then [e] else [])"
| "sent_to topic i _ b = []"

fun bus_run :: "('e \<Rightarrow> string) \<Rightarrow> nat \<Rightarrow> 'e bus_op list \<Rightarrow> 'e event_bus \<Rightarrow>
    'e list \<times> 'e list \<times> 'e event_bus" where
  "bus_run topic i [] b = ([], [], b)"
| "bus_run topic i (op # ops) b =
     (case bus_step topic i op b of (got, b1) \<Rightarrow>
        case bus_run topic i ops b1 of (gots, sents, b2) \<Rightarrow>
          (got @ gots, sent_to topic i op b @ sents, b2))"

lemma fold_send_mail:
  "bus_mail (fold (bus_send ev) subs b) i
     = fold send_loop (replicate (count_list subs i) ev) (bus_mail b i)"
proof (induction subs arbitrary: b)
  case (Cons j subs)
  then show ?case by (cases "j = i") (simp_all add: bus_send_def)
qed simp

lemma mail_publish:
  "bus_mail (bus_publish topic e b) i = fold send_loop (sent_to topic i (BPublish e) b) (bus_mail b i)"
  by (simp add: bus_publish_def fold_send_mail)

lemma mail_other [simp]:
  "bus_mail (snd (bus_subscribe ts b)) = bus_mail b"
  "bus_mail (bus_remove j ts b) = bus_mail b"
  "bus_mail (bus_close b) = bus_mail b"
  by (simp_all add: bus_subscribe_def bus_remove_def bus_close_def Let_def)

lemma mail_after_pushes: "subseq (fold send_loop es q) (q @ es)"
  by (cases "es = []") (simp_all add: mailbox.content_pushes subseq_last_n)

lemma bus_step_mail:
  assumes "bus_step topic i op b = (got, b1)"
  shows "subseq (got @ bus_mail b1 i) (bus_mail b i @ sent_to topic i op b)"
  using assms
proof (cases op)
  case (BPublish e)
  with assms show ?thesis by (simp add: mail_publish [symmetric] del: sent_to.simps)
      (metis mail_after_pushes mail_publish)
next
  case (BSend e j)
  with assms mail_after_pushes [of "[e]" "bus_mail b j"] show ?thesis by (auto simp: bus_send_def)
next
  case (BTryRecv j)
  with assms show ?thesis
    by (auto simp: bus_try_recv_def split: list.splits prod.splits option.splits if_splits)
qed auto

lemma bus_step_bounded:
  assumes "bus_step topic i op b = (got, b1)" and "\<forall>j. length (bus_mail b j) \<le> MAILBOX_CAPACITY"
  shows "\<forall>j. length (bus_mail b1 j) \<le> MAILBOX_CAPACITY"
  using assms
proof (cases op)
  case (BPublish e)
  with assms show ?thesis by (auto simp: mail_publish intro!: mailbox.pushes_bounded simp del: sent_to.simps)
next
  case (BSend e j)
  with assms show ?thesis by (auto simp: bus_send_def send_loop_last_n)
next
  case (BTryRecv j)
  with assms show ?thesis
    by (auto simp: bus_try_recv_def split: list.splits prod.splits) (metis Suc_leD length_Cons)+
qed auto

lemma bus_run_mail:
  "bus_run topic i ops b = (gots, sents, b2) \<Longrightarrow>
   subseq (gots @ bus_mail b2 i) (bus_mail b i @ sents)"
proof (induction ops arbitrary: b gots sents)
  case (Cons op ops)
  obtain got b1 where s: "bus_step topic i op b = (got, b1)" by fastforce
  obtain gots' sents' where r: "bus_run topic i ops b1 = (gots', sents', b2)"
    and eq: "gots = got @ gots'" "sents = sent_to topic i op b @ sents'"
    using Cons.prems s by (auto split: prod.splits)
  have "subseq (got @ (gots' @ bus_mail b2 i)) (got @ (bus_mail b1 i @ sents'))"
    using Cons.IH [OF r] by (simp add: subseq_append')
  moreover have "subseq ((got @ bus_mail b1 i) @ sents') ((bus_mail b i @ sent_to topic i op b) @ sents')"
    using bus_step_mail [OF s] by (simp only: subseq_append)
  ultimately show ?case using eq by (auto intro: subseq_order.order_trans)
qed simp

lemma bus_run_bounded:
  "bus_run topic i ops b = (gots, sents, b2) \<Longrightarrow> \<forall>j. length (bus_mail b j) \<le> MAILBOX_CAPACITY \<Longrightarrow>
   \<forall>j. length (bus_mail b2 j) \<le> MAILBOX_CAPACITY"
proof (induction ops arbitrary: b gots sents)
  case (Cons op ops)
  obtain got b1 where s: "bus_step topic i op b = (got, b1)" by fastforce
  with Cons bus_step_bounded [OF s Cons.prems(2)] show ?case by (auto split: prod.splits)
qed simp

text \<open>
  C18: a subscriber sees events in publication order and nothing else: whatever operations run
  on a bus, in any order, what a subscriber has received, followed by what its mailbox still
  holds, is a subsequence of what was queued before followed by the events sent to it.
\<close>

theorem bus_delivers_in_order:
  "case bus_run topic i ops b of (gots, sents, b2) \<Rightarrow>
     subseq (gots @ bus_mail b2 i) (bus_mail b i @ sents)"
  using bus_run_mail by (auto split: prod.splits)

text \<open>From a new bus, no mailbox ever holds more than its capacity.\<close>

lemma bus_mailboxes_bounded:
  "case bus_run topic i ops bus_new of (gots, sents, b2) \<Rightarrow>
     \<forall>j. length (bus_mail b2 j) \<le> MAILBOX_CAPACITY"
proof -
  obtain gots sents b2 where r: "bus_run topic i ops bus_new = (gots, sents, b2)" by (metis prod.exhaust)
  have "\<forall>j. length (bus_mail bus_new j) \<le> MAILBOX_CAPACITY" by (simp add: bus_new_def)
  with bus_run_bounded [OF r] r show ?thesis by simp
qed

text \<open>
  Publishing on an open bus leaves each mailbox with the newest entries of what it held
  followed by the copies sent to it, touches no mailbox off the event's topic, and leaves the
  published event last in every mailbox on it.
\<close>

lemma publish_keeps_newest:
  assumes "\<not> bus_closed b"
  shows "bus_mail (bus_publish topic e b) i =
      (if i \<in> set (topic_subs b (topic e))
       then last_n MAILBOX_CAPACITY (bus_mail b i @ sent_to topic i (BPublish e) b)
       else bus_mail b i) \<and>
    (i \<notin> set (topic_subs b (topic e)) \<or> last (bus_mail (bus_publish topic e b) i) = e)"
proof (cases "i \<in> set (topic_subs b (topic e))")
  case True
  note pt = publish_targets_def
  from True obtain n where n: "count_list (topic_subs b (topic e)) i = Suc n"
    by (metis count_list_0_iff not0_implies_Suc)
  then have s: "sent_to topic i (BPublish e) b = replicate n e @ [e]"
    using assms by (simp add: replicate_append_same pt)
  have "bus_mail (bus_publish topic e b) i = send_loop e (fold send_loop (replicate n e) (bus_mail b i))"
    unfolding mail_publish s by simp
  then have "last (bus_mail (bus_publish topic e b) i) = e" by (simp only: mailbox.push_keeps_newest)
  moreover have "bus_mail (bus_publish topic e b) i
      = last_n MAILBOX_CAPACITY (bus_mail b i @ sent_to topic i (BPublish e) b)"
    unfolding mail_publish s by (rule mailbox.content_pushes) simp
  ultimately show ?thesis using True by simp
next
  case False
  then have "sent_to topic i (BPublish e) b = []"
    by (simp add: count_list_0_iff publish_targets_def)
  with False show ?thesis by (simp add: mail_publish del: sent_to.simps)
qed

end
