(* ===== verification/Tracker.thy ===== *)
theory Tracker
  imports RcloneTypes
begin

text \<open>
  \<open>crates/gn-drive-core/src/rclone/stats.rs\<close>: the per-file transfer tracker and the parsers of
  rclone log lines. Reading a line as JSON is \<open>serde_json::from_str\<close>, the argument \<open>parse_json\<close>
  of the operations that use it; everything read out of the value is modelled. The tracker is
  a map from names to rows with the insertion order beside it.
\<close>

section \<open>Helpers\<close>

definition MAX_TRACKED_FILES :: nat where "MAX_TRACKED_FILES = 150"

definition truncate_string :: "string \<Rightarrow> nat \<Rightarrow> string" where
  "truncate_string s n = (if length s \<le> n then s else take n s @ ''...(truncated)'')"

definition get_i64 :: "json \<Rightarrow> string \<Rightarrow> int" where
  "get_i64 v k =
     (case jget v k of
        Some x \<Rightarrow> (case as_i64 x of Some i \<Rightarrow> i
                   | None \<Rightarrow> (case as_f64 x of Some f \<Rightarrow> f64_as_i64 f | None \<Rightarrow> 0))
      | None \<Rightarrow> 0)"

definition get_f64 :: "json \<Rightarrow> string \<Rightarrow> f64" where
  "get_f64 v k = (case Option.bind (jget v k) as_f64 of Some f \<Rightarrow> f | None \<Rightarrow> Fin 0)"

definition get_str :: "json \<Rightarrow> string \<Rightarrow> string" where
  "get_str v k = (case Option.bind (jget v k) as_str of Some s \<Rightarrow> s | None \<Rightarrow> [])"

record json_log_line =
  jl_level :: string
  jl_msg :: string
  jl_object :: string
  jl_size :: int
  jl_stats :: "json option"

definition decode_log_line :: "(string \<Rightarrow> json option) \<Rightarrow> string \<Rightarrow> json_log_line option" where
  "decode_log_line parse_json line =
     (let t = trim line in
      if \<not> starts_with ''{'' t then None
      else case parse_json t of
             None \<Rightarrow> None
           | Some v \<Rightarrow>
               if \<not> is_object v then None
               else Some \<lparr> jl_level = get_str v ''level'', jl_msg = get_str v ''msg'',
                      jl_object = get_str v ''object'', jl_size = get_i64 v ''size'',
                      jl_stats = (case jget v ''stats'' of
                                    Some s \<Rightarrow> if is_object s then Some s else None
                                  | None \<Rightarrow> None) \<rparr>)"

section \<open>The tracker\<close>

record tracker =
  tr_by_name :: "string \<rightharpoonup> file_transfer"
  tr_order :: "string list"

definition tracker_new :: tracker where
  "tracker_new = \<lparr> tr_by_name = Map.empty, tr_order = [] \<rparr>"

definition tracker_get :: "tracker \<Rightarrow> string \<Rightarrow> file_transfer option" where
  "tracker_get t name = tr_by_name t name"

definition tracker_len :: "tracker \<Rightarrow> nat" where
  "tracker_len t = length (tr_order t)"

definition row_status :: "tracker \<Rightarrow> string \<Rightarrow> string option" where
  "row_status t n = map_option ft_status (tr_by_name t n)"

text \<open>\<open>order.iter().position(p)\<close>, then \<open>order.remove(i)\<close> and \<open>by_name.remove(name)\<close>.\<close>

definition tracker_remove_first :: "(string \<Rightarrow> bool) \<Rightarrow> tracker \<Rightarrow> tracker option" where
  "tracker_remove_first p t =
     (case find p (tr_order t) of
        None \<Rightarrow> None
      | Some n \<Rightarrow> Some \<lparr> tr_by_name = (tr_by_name t)(n := None),
          tr_order = remove1 n (tr_order t) \<rparr>)"

definition evict_replaceable :: "tracker \<Rightarrow> tracker" where
  "evict_replaceable t =
     (case tracker_remove_first (\<lambda>n. row_status t n = Some ''pending'') t of
        Some t' \<Rightarrow> t'
      | None \<Rightarrow>
          (case tracker_remove_first
                  (\<lambda>n. row_status t n \<in> {Some ''completed'', Some ''checked''}) t of
             Some t' \<Rightarrow> t'
           | None \<Rightarrow> t))"

definition tracker_push :: "file_transfer \<Rightarrow> tracker \<Rightarrow> tracker" where
  "tracker_push ft t = \<lparr> tr_by_name = (tr_by_name t)(ft_name ft \<mapsto> ft),
     tr_order = tr_order t @ [ft_name ft] \<rparr>"

definition is_terminal :: "string \<Rightarrow> bool" where
  "is_terminal s \<longleftrightarrow> s \<in> {''completed'', ''failed'', ''checked''}"

definition tracker_upsert :: "file_transfer \<Rightarrow> tracker \<Rightarrow> tracker" where
  "tracker_upsert ft t =
     (if ft_name ft = [] then t
      else case tr_by_name t (ft_name ft) of
        Some prev \<Rightarrow>
          if is_terminal (ft_status prev) \<and> ft_status ft = ''transferring'' then t
          else t\<lparr>tr_by_name := (tr_by_name t)(ft_name ft \<mapsto> ft)\<rparr>
      | None \<Rightarrow>
          if length (tr_order t) \<ge> MAX_TRACKED_FILES \<and> ft_status ft \<noteq> ''failed'' then
            (let t' = evict_replaceable t in
             if length (tr_order t') \<ge> MAX_TRACKED_FILES then t' else tracker_push ft t')
          else tracker_push ft t)"

definition seed_name :: "file_entry \<Rightarrow> string" where
  "seed_name e = (let path = trim (fe_path e) in if path \<noteq> [] then path else trim (fe_name e))"

definition seed_one :: "file_entry \<Rightarrow> tracker \<Rightarrow> tracker" where
  "seed_one e t =
     (if fe_is_dir e then t
      else let name = seed_name e in
        if name = [] then t
        else case tr_by_name t name of
          Some prev \<Rightarrow>
            if ft_size prev = 0 \<and> fe_size e > 0
            then t\<lparr>tr_by_name := (tr_by_name t)(name \<mapsto> prev\<lparr>ft_size := fe_size e\<rparr>)\<rparr>
            else t
        | None \<Rightarrow>
            if length (tr_order t) \<ge> MAX_TRACKED_FILES then t
            else tracker_push
                   (file_transfer_default\<lparr>ft_name := name, ft_size := fe_size e,
                      ft_status := ''pending''\<rparr>) t)"

definition seed_pending :: "file_entry list \<Rightarrow> tracker \<Rightarrow> tracker" where
  "seed_pending entries t = fold seed_one entries t"

definition known_status :: "string \<Rightarrow> bool" where
  "known_status s \<longleftrightarrow> s \<in> {''transferring'', ''checking'', ''completed'', ''checked'', ''failed'',
     ''pending''}"

definition pending_row :: "int \<Rightarrow> file_transfer" where
  "pending_row n = file_transfer_new (''('' @ show_int n @ '' pending)'') ''pending''"

text \<open>The loop of \<open>snapshot\<close>: the rows, and the number of rows with a status it counts.\<close>

fun snapshot_loop :: "(string \<rightharpoonup> file_transfer) \<Rightarrow> string list \<Rightarrow> file_transfer list \<times> int" where
  "snapshot_loop m [] = ([], 0)"
| "snapshot_loop m (n # ns) =
     (case snapshot_loop m ns of (out, known) \<Rightarrow>
        (case m n of
           None \<Rightarrow> (out, known)
         | Some ft \<Rightarrow> (ft # out, known + (if known_status (ft_status ft) then 1 else 0))))"

definition tracker_snapshot :: "tracker \<Rightarrow> int \<Rightarrow> file_transfer list" where
  "tracker_snapshot t total_files =
     (case snapshot_loop (tr_by_name t) (tr_order t) of (out, known) \<Rightarrow>
        if total_files > 0 \<and> total_files - known > 0
        then out @ [pending_row (total_files - known)] else out)"

section \<open>Log lines\<close>

definition apply_stats :: "json \<Rightarrow> string \<Rightarrow> sync_stats \<Rightarrow> sync_stats" where
  "apply_stats st object s =
     (let s1 = s\<lparr> st_bytes := get_i64 st ''bytes'', st_bytes_total := get_i64 st ''totalBytes'',
            st_files := get_i64 st ''transfers'', st_files_total := get_i64 st ''totalTransfers'',
            st_transfers := get_i64 st ''transfers'', st_checks := get_i64 st ''checks'',
            st_checks_total := get_i64 st ''totalChecks'', st_deletes := get_i64 st ''deletes'',
            st_renames := get_i64 st ''renames'', st_errors := get_i64 st ''errors'',
            st_speed := get_f64 st ''speed'' \<rparr>;
          s2 = (case Option.bind (jget st ''eta'') as_f64 of
                  Some eta \<Rightarrow> s1\<lparr>st_eta := f64_as_i64 eta\<rparr> | None \<Rightarrow> s1)
      in if object \<noteq> [] then s2\<lparr>st_current_file := object\<rparr> else s2)"

definition parse_json_stats_line ::
  "(string \<Rightarrow> json option) \<Rightarrow> string \<Rightarrow> sync_stats \<Rightarrow> bool \<times> sync_stats" where
  "parse_json_stats_line parse_json line s =
     (case decode_log_line parse_json line of
        None \<Rightarrow> (False, s)
      | Some entry \<Rightarrow>
          (case jl_stats entry of
             None \<Rightarrow> (False, s)
           | Some st \<Rightarrow> (True, apply_stats st (jl_object entry) s)))"

definition transferring_of :: "json_log_line \<Rightarrow> json list option" where
  "transferring_of entry =
     Option.bind (jl_stats entry) (\<lambda>st. Option.bind (jget st ''transferring'') as_array)"

definition transfer_row :: "json \<Rightarrow> file_transfer" where
  "transfer_row tr = \<lparr> ft_name = get_str tr ''name'', ft_size = get_i64 tr ''size'',
     ft_bytes = get_i64 tr ''bytes'', ft_progress = get_f64 tr ''percentage'',
     ft_status = ''transferring'', ft_speed = get_f64 tr ''speed'', ft_error = [] \<rparr>"

definition ingest_transferring :: "json \<Rightarrow> sync_stats \<times> tracker \<Rightarrow> sync_stats \<times> tracker" where
  "ingest_transferring tr st =
     (if get_str tr ''name'' = [] then st
      else ((fst st)\<lparr>st_current_file := get_str tr ''name''\<rparr>,
            tracker_upsert (transfer_row tr) (snd st)))"

text \<open>The row the message of a log line stands for; \<open>None\<close> is the early return.\<close>

definition log_row :: "json_log_line \<Rightarrow> file_transfer option" where
  "log_row entry =
     (let msg = to_lowercase (jl_msg entry); level = to_lowercase (jl_level entry);
          ft = file_transfer_default\<lparr>ft_name := jl_object entry, ft_size := jl_size entry,
                 ft_bytes := jl_size entry\<rparr>
      in if level = ''error'' \<or> str_contains msg ''error'' \<or> str_contains msg ''failed'' then
           Some (ft\<lparr>ft_status := ''failed'', ft_error := jl_msg entry, ft_progress := Fin 0\<rparr>)
         else if str_contains msg ''check'' then
           (if str_contains msg ''ok'' \<or> str_contains msg ''identical''
            then Some (ft\<lparr>ft_status := ''checked'', ft_progress := Fin 100\<rparr>)
            else Some (ft\<lparr>ft_status := ''checking''\<rparr>))
         else if str_contains msg ''copied'' \<or> str_contains msg ''moved''
              \<or> str_contains msg ''updated'' \<or> str_contains msg ''multi-thread'' then
           Some ((ft\<lparr>ft_status := ''completed'', ft_progress := Fin 100\<rparr>)
                  \<lparr>ft_bytes := (if jl_size entry > 0 then jl_size entry else ft_bytes ft)\<rparr>)
         else if level = ''info'' \<or> level = ''notice'' then
           Some (ft\<lparr>ft_status := ''completed'', ft_progress := Fin 100\<rparr>)
         else None)"

definition ingest_json_log_line ::
  "(string \<Rightarrow> json option) \<Rightarrow> string \<Rightarrow> sync_stats \<times> tracker \<Rightarrow> sync_stats \<times> tracker" where
  "ingest_json_log_line parse_json line st0 =
     (case decode_log_line parse_json line of
        None \<Rightarrow> st0
      | Some entry \<Rightarrow>
          (let st = (case transferring_of entry of
                       Some arr \<Rightarrow> fold ingest_transferring arr st0 | None \<Rightarrow> st0)
           in if jl_object entry = [] then st
              else let s = (fst st)\<lparr>st_current_file := jl_object entry\<rparr> in
                case log_row entry of
                  Some ft \<Rightarrow> (s, tracker_upsert ft (snd st))
                | None \<Rightarrow> (s, snd st)))"

definition stage_of :: "json_log_line \<Rightarrow> string option" where
  "stage_of entry =
     (let msg = to_lowercase (jl_msg entry);
          transferring = (case transferring_of entry of Some a \<Rightarrow> a \<noteq> [] | None \<Rightarrow> False)
      in if transferring \<or> str_contains msg ''copied'' \<or> str_contains msg ''transferred''
            \<or> str_contains msg ''moved'' then Some ''transferring''
         else if str_contains msg ''checking'' \<or> str_contains msg ''check'' then Some ''checking''
         else if str_contains msg ''listing'' \<or> str_contains msg ''list '' then Some ''listing''
         else if str_contains msg ''retry'' \<or> str_contains msg ''rate limit''
            \<or> str_contains msg ''throttle'' then Some ''retrying''
         else if str_contains msg ''starting'' \<or> str_contains msg ''config file''
            \<or> str_contains msg ''using '' then Some ''connecting''
         else None)"

definition update_stage :: "(string \<Rightarrow> json option) \<Rightarrow> string \<Rightarrow> sync_stats \<Rightarrow> sync_stats" where
  "update_stage parse_json line s =
     (case decode_log_line parse_json line of
        None \<Rightarrow> s
      | Some entry \<Rightarrow>
          (case stage_of entry of
             Some stage \<Rightarrow> s\<lparr>st_stage := stage, st_stage_detail := jl_object entry\<rparr>
           | None \<Rightarrow> s))"

section \<open>Text lines\<close>

definition size_mult :: "string \<Rightarrow> rat" where
  "size_mult suffix = (let u = to_lowercase suffix in
     if u = ''k'' \<or> u = ''kb'' then 1024
     else if u = ''m'' \<or> u = ''mb'' then 1024 * 1024
     else if u = ''g'' \<or> u = ''gb'' then 1024 * 1024 * 1024
     else if u = ''t'' \<or> u = ''tb'' then 1024 * 1024 * 1024 * 1024
     else 1)"

definition parse_size :: "string \<Rightarrow> int" where
  "parse_size s =
     (let isnum = (\<lambda>c. is_ascii_digit c \<or> c = CHR ''.'');
          num = takeWhile isnum s; suffix = dropWhile isnum s
      in if num = [] then 0
         else case parse_f64_decimal num of
                None \<Rightarrow> 0
              | Some n \<Rightarrow> f64_as_i64 (f64_scale (size_mult suffix) n))"

definition parse_leading_int :: "string \<Rightarrow> int option" where
  "parse_leading_int s = parse_i64 (takeWhile is_ascii_digit (dropWhile is_whitespace s))"

definition parse_fraction :: "string \<Rightarrow> (int \<times> int) option" where
  "parse_fraction s =
     (let split = (\<lambda>rest. case find_char CHR ''/'' rest of
            None \<Rightarrow> None
          | Some i \<Rightarrow> Some (parse_size (take i rest),
                            parse_size (hd (split_on CHR '' '' (drop (Suc i) rest)))))
      in case (find_char CHR '' '' s, find_char CHR ''/'' s) of
           (Some sp, Some sl) \<Rightarrow> if sp < sl then split (drop (Suc sp) s) else split s
         | (None, Some sl) \<Rightarrow> split s
         | (_, None) \<Rightarrow> None)"

definition after_label :: "string \<Rightarrow> string \<Rightarrow> string option" where
  "after_label line label = map_option (\<lambda>i. drop (i + length label) line) (find_sub label line)"

definition parse_stats_line :: "string \<Rightarrow> sync_stats \<Rightarrow> sync_stats" where
  "parse_stats_line line s =
     (if \<not> str_contains line ''INFO'' then s
      else
        let s1 = (case Option.bind (after_label line ''TRANSFER: '') parse_fraction of
                    Some (a, b) \<Rightarrow> s\<lparr>st_bytes := a, st_bytes_total := b\<rparr> | None \<Rightarrow> s);
            s2 = (case Option.bind (after_label line ''CHECK: '') parse_fraction of
                    Some (a, b) \<Rightarrow> s1\<lparr>st_checks := a, st_checks_total := b\<rparr> | None \<Rightarrow> s1);
            s3 = (case Option.bind (after_label line ''ERRORS: '') parse_leading_int of
                    Some n \<Rightarrow> s2\<lparr>st_errors := n\<rparr> | None \<Rightarrow> s2)
        in (case Option.bind (after_label line ''DELETED: '') parse_leading_int of
              Some n \<Rightarrow> s3\<lparr>st_deletes := n\<rparr> | None \<Rightarrow> s3))"

section \<open>What feeds a tracker\<close>

text \<open>
  The client feeds a tracker with listings (\<open>seed_pending\<close>) and log lines
  (\<open>ingest_json_log_line\<close>). Both are sequences of the two primitive updates below.
\<close>

datatype tracker_op = TUpsert file_transfer | TSeed file_entry

fun tracker_prim :: "tracker_op \<Rightarrow> tracker \<Rightarrow> tracker" where
  "tracker_prim (TUpsert ft) t = tracker_upsert ft t"
| "tracker_prim (TSeed e) t = seed_one e t"

fun op_name :: "tracker_op \<Rightarrow> string" where
  "op_name (TUpsert ft) = ft_name ft"
| "op_name (TSeed e) = seed_name e"

datatype feed = FSeed "file_entry list" | FLine string

fun tracker_feed :: "(string \<Rightarrow> json option) \<Rightarrow> feed \<Rightarrow> sync_stats \<times> tracker \<Rightarrow> sync_stats \<times> tracker" where
  "tracker_feed parse_json (FSeed es) st = (fst st, seed_pending es (snd st))"
| "tracker_feed parse_json (FLine l) st = ingest_json_log_line parse_json l st"

text \<open>The rows a feed writes, as primitive updates.\<close>

definition transfer_ops :: "json list \<Rightarrow> tracker_op list" where
  "transfer_ops arr = map (TUpsert \<circ> transfer_row) (filter (\<lambda>tr. get_str tr ''name'' \<noteq> []) arr)"

fun feed_ops :: "(string \<Rightarrow> json option) \<Rightarrow> feed \<Rightarrow> tracker_op list" where
  "feed_ops parse_json (FSeed es) = map TSeed es"
| "feed_ops parse_json (FLine l) =
     (case decode_log_line parse_json l of
        None \<Rightarrow> []
      | Some entry \<Rightarrow>
          (case transferring_of entry of Some arr \<Rightarrow> transfer_ops arr | None \<Rightarrow> []) @
          (if jl_object entry = [] then []
           else case log_row entry of Some ft \<Rightarrow> [TUpsert ft] | None \<Rightarrow> []))"

lemma seed_pending_prims: "seed_pending es t = fold tracker_prim (map TSeed es) t"
  unfolding seed_pending_def by (induction es arbitrary: t) simp_all

lemma ingest_transferring_prims:
  "snd (fold ingest_transferring arr st) = fold tracker_prim (transfer_ops arr) (snd st)"
  by (induction arr arbitrary: st) (simp_all add: transfer_ops_def ingest_transferring_def)

lemma tracker_feed_prims:
  "snd (tracker_feed parse_json f st) = fold tracker_prim (feed_ops parse_json f) (snd st)"
proof (cases f)
  case (FSeed es)
  then show ?thesis by (simp add: seed_pending_prims)
next
  case (FLine l)
  then show ?thesis
    by (simp add: ingest_json_log_line_def ingest_transferring_prims Let_def split: option.split)
qed

lemma tracker_feeds_prims:
  "snd (fold (tracker_feed parse_json) fs st)
     = fold tracker_prim (concat (map (feed_ops parse_json) fs)) (snd st)"
  by (induction fs arbitrary: st) (simp_all add: tracker_feed_prims)

lemma log_row_status:
  "log_row e = Some ft \<Longrightarrow> known_status (ft_status ft) \<and> ft_name ft = jl_object e"
  by (auto simp: log_row_def Let_def known_status_def split: if_splits)

section \<open>The invariant\<close>

definition tracker_inv :: "tracker \<Rightarrow> bool" where
  "tracker_inv t \<longleftrightarrow> distinct (tr_order t) \<and> dom (tr_by_name t) = set (tr_order t) \<and>
     (\<forall>n ft. tr_by_name t n = Some ft \<longrightarrow> ft_name ft = n \<and> n \<noteq> [] \<and> known_status (ft_status ft))"

fun op_ok :: "tracker_op \<Rightarrow> bool" where
  "op_ok (TUpsert ft) \<longleftrightarrow> known_status (ft_status ft)"
| "op_ok (TSeed e) \<longleftrightarrow> True"

lemma transfer_ops_ok: "list_all op_ok (transfer_ops arr)"
  by (simp add: transfer_ops_def transfer_row_def known_status_def list_all_iff)

lemma feed_ops_ok: "list_all op_ok (feed_ops parse_json f)"
proof (cases f)
  case (FSeed es)
  then show ?thesis by (simp add: list_all_iff)
next
  case (FLine l)
  have "list_all op_ok (case log_row e of Some ft \<Rightarrow> [TUpsert ft] | None \<Rightarrow> [])" for e
    using log_row_status by (simp split: option.split)
  with FLine show ?thesis by (simp add: transfer_ops_ok split: option.split)
qed

lemma tracker_inv_new: "tracker_inv tracker_new"
  by (simp add: tracker_inv_def tracker_new_def)

lemma tracker_inv_push:
  "tracker_inv t \<Longrightarrow> tr_by_name t (ft_name ft) = None \<Longrightarrow> ft_name ft \<noteq> [] \<Longrightarrow>
   known_status (ft_status ft) \<Longrightarrow> tracker_inv (tracker_push ft t)"
  by (auto simp: tracker_inv_def tracker_push_def)

lemma tracker_inv_replace:
  "tracker_inv t \<Longrightarrow> tr_by_name t n = Some prev \<Longrightarrow> ft_name ft = n \<Longrightarrow> known_status (ft_status ft) \<Longrightarrow>
   tracker_inv (t\<lparr>tr_by_name := (tr_by_name t)(n \<mapsto> ft)\<rparr>)"
  by (auto simp: tracker_inv_def)

lemma remove_first_Some:
  assumes "tracker_remove_first p t = Some t'"
  obtains n where "p n" "n \<in> set (tr_order t)" "tr_by_name t' = (tr_by_name t)(n := None)"
    "tr_order t' = remove1 n (tr_order t)"
  using assms by (auto simp: tracker_remove_first_def find_Some_iff split: option.splits)

lemma remove_first_None: "tracker_remove_first p t = None \<longleftrightarrow> (\<forall>n \<in> set (tr_order t). \<not> p n)"
  by (simp add: tracker_remove_first_def find_None_iff split: option.split)
    (metis find_None_iff option.distinct(1))

text \<open>Eviction drops at most one row, never a failed or an active one.\<close>

lemma evict_cases:
  obtains (none) "evict_replaceable t = t"
  | (drop) n s where "n \<in> set (tr_order t)" "row_status t n = Some s"
      "s \<in> {''pending'', ''completed'', ''checked''}"
      "evict_replaceable t = \<lparr> tr_by_name = (tr_by_name t)(n := None),
         tr_order = remove1 n (tr_order t) \<rparr>"
proof (cases "tracker_remove_first (\<lambda>n. row_status t n = Some ''pending'') t")
  case (Some t')
  then have "evict_replaceable t = t'" by (simp add: evict_replaceable_def)
  with Some drop show thesis by (elim remove_first_Some) (metis insertI1 tracker.surjective old.unit.exhaust)
next
  case None
  note n1 = None
  show thesis
  proof (cases "tracker_remove_first
      (\<lambda>n. row_status t n \<in> {Some ''completed'', Some ''checked''}) t")
    case (Some t')
    with n1 have e: "evict_replaceable t = t'" by (simp add: evict_replaceable_def)
    from Some obtain n where n: "row_status t n \<in> {Some ''completed'', Some ''checked''}"
      "n \<in> set (tr_order t)" "tr_by_name t' = (tr_by_name t)(n := None)"
      "tr_order t' = remove1 n (tr_order t)" by (rule remove_first_Some)
    then obtain s where "row_status t n = Some s" "s \<in> {''pending'', ''completed'', ''checked''}"
      by auto
    with n e show thesis by (intro drop) auto
  next
    case None
    with n1 show thesis by (intro none) (simp add: evict_replaceable_def)
  qed
qed

lemma tracker_inv_evict: "tracker_inv t \<Longrightarrow> tracker_inv (evict_replaceable t)"
  by (cases t rule: evict_cases) (auto simp: tracker_inv_def set_remove1_eq)

lemma evict_None: "tr_by_name t n = None \<Longrightarrow> tr_by_name (evict_replaceable t) n = None"
  by (cases t rule: evict_cases) auto

lemma tracker_inv_upsert:
  assumes "tracker_inv t" "known_status (ft_status ft)"
  shows "tracker_inv (tracker_upsert ft t)"
  using assms
  by (auto simp: tracker_upsert_def Let_def evict_None
      intro!: tracker_inv_push tracker_inv_replace tracker_inv_evict split: option.splits)

lemma known_pending [simp]: "known_status ''pending''"
  by (simp add: known_status_def)

lemma tracker_inv_seed: "tracker_inv t \<Longrightarrow> tracker_inv (seed_one e t)"
  unfolding seed_one_def Let_def
  by (auto intro!: tracker_inv_push tracker_inv_replace split: option.splits)
    (auto simp: tracker_inv_def)

lemma tracker_inv_prim: "tracker_inv t \<Longrightarrow> op_ok op \<Longrightarrow> tracker_inv (tracker_prim op t)"
  by (cases op) (simp_all add: tracker_inv_upsert tracker_inv_seed)

lemma tracker_inv_prims: "tracker_inv t \<Longrightarrow> list_all op_ok ops \<Longrightarrow> tracker_inv (fold tracker_prim ops t)"
  by (induction ops arbitrary: t) (simp_all add: tracker_inv_prim)

lemma feeds_ok: "list_all op_ok (concat (map (feed_ops parse_json) fs))"
  using feed_ops_ok by (induction fs) auto

lemma tracker_inv_feeds:
  "tracker_inv (snd (fold (tracker_feed parse_json) fs (s, tracker_new)))"
  by (simp add: tracker_feeds_prims tracker_inv_prims tracker_inv_new feeds_ok)

section \<open>Snapshots, demotion, eviction, bounds\<close>

lemma snapshot_loop_rows:
  "\<forall>n \<in> set ns. \<exists>ft. m n = Some ft \<and> known_status (ft_status ft) \<Longrightarrow>
   snapshot_loop m ns = (map (the \<circ> m) ns, int (length ns))"
  by (induction ns) auto

lemma tracker_snapshot_rows:
  assumes "tracker_inv t"
  shows "tracker_snapshot t tot = map (the \<circ> tr_by_name t) (tr_order t) @
    (if tot > int (tracker_len t) then [pending_row (tot - int (tracker_len t))] else [])"
proof -
  have "\<forall>n \<in> set (tr_order t). \<exists>ft. tr_by_name t n = Some ft \<and> known_status (ft_status ft)"
    using assms unfolding tracker_inv_def by (metis domD)
  from snapshot_loop_rows [OF this] show ?thesis
    by (simp add: tracker_snapshot_def tracker_len_def)
qed

lemma tracker_rows_named: "tracker_inv t \<Longrightarrow> n \<in> set (tr_order t) \<Longrightarrow> ft_name (the (tr_by_name t n)) = n"
  unfolding tracker_inv_def by (metis domD option.sel)


lemma evict_row:
  "tr_by_name (evict_replaceable t) n = tr_by_name t n \<or>
   (tr_by_name (evict_replaceable t) n = None \<and> row_status t n \<noteq> Some ''failed'')"
  by (cases t rule: evict_cases) auto

lemma upsert_row:
  assumes "tr_by_name t n = Some prev"
  shows "tr_by_name (tracker_upsert ft t) n = Some prev \<or>
    (tr_by_name (tracker_upsert ft t) n = None \<and> ft_status prev \<noteq> ''failed'' \<and>
       MAX_TRACKED_FILES \<le> length (tr_order t) \<and> ft_name ft \<noteq> n) \<or>
    (tr_by_name (tracker_upsert ft t) n = Some ft \<and> ft_name ft = n \<and>
       \<not> (is_terminal (ft_status prev) \<and> ft_status ft = ''transferring''))"
  using assms evict_row [of t n]
  by (auto simp: tracker_upsert_def tracker_push_def row_status_def Let_def split: option.splits)

lemma seed_row:
  assumes "tr_by_name t n = Some prev"
  shows "tr_by_name (seed_one e t) n = Some prev \<or>
    (seed_name e = n \<and> (\<exists>sz. tr_by_name (seed_one e t) n = Some (prev\<lparr>ft_size := sz\<rparr>)))"
  using assms by (auto simp: seed_one_def tracker_push_def Let_def split: option.splits)

text \<open>
  C33: one update never turns a finished row (completed, checked or failed) back into a
  transferring one, and removes it only to make room in a full table, a failed row never.
\<close>

theorem tracker_never_demotes:
  assumes "tr_by_name t n = Some prev" and "is_terminal (ft_status prev)"
  shows "(\<exists>ft. tr_by_name (tracker_prim op t) n = Some ft \<and> ft_status ft \<noteq> ''transferring'') \<or>
    (tr_by_name (tracker_prim op t) n = None \<and> ft_status prev \<noteq> ''failed'' \<and>
       MAX_TRACKED_FILES \<le> length (tr_order t) \<and> op_name op \<noteq> n)"
proof -
  have nt: "ft_status prev \<noteq> ''transferring''" using assms(2) by (auto simp: is_terminal_def)
  show ?thesis
  proof (cases op)
    case (TUpsert ft)
    with upsert_row [OF assms(1), of ft] nt assms(2) show ?thesis by auto
  next
    case (TSeed e)
    with seed_row [OF assms(1), of e] nt show ?thesis by auto
  qed
qed

theorem tracker_never_demotes_witness:
  "row_status (tracker_upsert (file_transfer_new ''a'' ''transferring'')
     (tracker_upsert (file_transfer_new ''a'' ''completed'') tracker_new)) ''a'' \<noteq> Some ''transferring''"
proof -
  let ?c = "file_transfer_new ''a'' ''completed''"
  let ?t = "tracker_upsert ?c tracker_new"
  have row: "tr_by_name ?t ''a'' = Some ?c" and fin: "is_terminal (ft_status ?c)" by code_simp+
  from tracker_never_demotes [OF row fin, of "TUpsert (file_transfer_new ''a'' ''transferring'')"]
  show ?thesis by (auto simp: row_status_def)
qed

lemma failed_row_prim:
  assumes "tr_by_name t n = Some ft" "ft_status ft = ''failed''" "op_name op \<noteq> n"
  shows "tr_by_name (tracker_prim op t) n = Some ft"
proof (cases op)
  case (TUpsert f)
  with upsert_row [OF assms(1), of f] assms show ?thesis by auto
next
  case (TSeed e)
  with seed_row [OF assms(1), of e] assms show ?thesis by auto
qed

lemma failed_row_prims:
  "tr_by_name t n = Some ft \<Longrightarrow> ft_status ft = ''failed'' \<Longrightarrow> \<forall>op \<in> set ops. op_name op \<noteq> n \<Longrightarrow>
   tr_by_name (fold tracker_prim ops t) n = Some ft"
  by (induction ops arbitrary: t) (simp_all add: failed_row_prim)

text \<open>
  A failure stays visible: a failed row survives unchanged whatever is fed to the tracker
  afterwards, however full the table, as long as no later listing or line is about that file.
\<close>

lemma failed_rows_survive:
  assumes "tr_by_name t n = Some ft" and "ft_status ft = ''failed''"
    and "\<forall>op \<in> set (concat (map (feed_ops parse_json) fs)). op_name op \<noteq> n"
  shows "tr_by_name (snd (fold (tracker_feed parse_json) fs (s, t))) n = Some ft"
  using failed_row_prims [OF assms] by (simp add: tracker_feeds_prims)

fun adds_failed :: "tracker_op \<Rightarrow> bool" where
  "adds_failed (TUpsert ft) \<longleftrightarrow> ft_status ft = ''failed''"
| "adds_failed (TSeed e) \<longleftrightarrow> False"

lemma evict_length: "length (tr_order (evict_replaceable t)) \<le> length (tr_order t)"
  by (cases t rule: evict_cases) (simp_all add: length_remove1)

lemma prim_length:
  "length (tr_order (tracker_prim op t)) \<le> MAX_TRACKED_FILES + k \<or> \<not> length (tr_order t) \<le> MAX_TRACKED_FILES + k
   \<or> (adds_failed op \<and> length (tr_order (tracker_prim op t)) \<le> Suc (MAX_TRACKED_FILES + k))"
  using evict_length [of t]
  by (cases op) (auto simp: tracker_upsert_def seed_one_def tracker_push_def Let_def split: option.splits)

lemma prims_length:
  "length (tr_order t) \<le> MAX_TRACKED_FILES + k \<Longrightarrow>
   length (tr_order (fold tracker_prim ops t)) \<le> MAX_TRACKED_FILES + k + length (filter adds_failed ops)"
proof (induction ops arbitrary: t k)
  case (Cons op ops)
  from prim_length [of op t k] Cons.prems
  consider "length (tr_order (tracker_prim op t)) \<le> MAX_TRACKED_FILES + k"
    | "adds_failed op" "length (tr_order (tracker_prim op t)) \<le> MAX_TRACKED_FILES + Suc k" by auto
  then show ?case
  proof cases
    case 1
    from Cons.IH [OF this] show ?thesis by simp
  next
    case 2
    from Cons.IH [OF 2(2)] 2(1) show ?thesis by simp
  qed
qed simp

text \<open>
  The table is bounded: it never holds more than \<open>MAX_TRACKED_FILES\<close> rows plus the number
  of failed-file updates it was fed, which are the only updates that may exceed the cap.
\<close>

lemma tracker_bounded:
  "tracker_len (snd (fold (tracker_feed parse_json) fs (s, tracker_new)))
     \<le> MAX_TRACKED_FILES + length (filter adds_failed (concat (map (feed_ops parse_json) fs)))"
  using prims_length [of tracker_new 0 "concat (map (feed_ops parse_json) fs)"]
  by (simp add: tracker_feeds_prims tracker_len_def tracker_new_def)

text \<open>The cap does not hold for failed rows: any number of distinct failed files is kept.\<close>

lemma failed_rows_exceed_cap:
  assumes "distinct names" "[] \<notin> set names"
  shows "tr_order (fold (\<lambda>n. tracker_upsert (file_transfer_new n ''failed'')) names tracker_new) = names"
proof -
  have "tr_order (fold (\<lambda>n. tracker_upsert (file_transfer_new n ''failed'')) ns t) = tr_order t @ ns"
    if "dom (tr_by_name t) = set (tr_order t)" "distinct (tr_order t @ ns)" "[] \<notin> set ns" for ns t
    using that
  proof (induction ns arbitrary: t)
    case (Cons n ns)
    have none: "tr_by_name t n = None" using Cons.prems by auto
    have "tracker_upsert (file_transfer_new n ''failed'') t = tracker_push (file_transfer_new n ''failed'') t"
      using Cons.prems none by (auto simp: tracker_upsert_def file_transfer_new_def)
    moreover have "tr_order (tracker_push (file_transfer_new n ''failed'') t) = tr_order t @ [n]"
      "dom (tr_by_name (tracker_push (file_transfer_new n ''failed'') t)) = set (tr_order t @ [n])"
      using Cons.prems by (auto simp: tracker_push_def file_transfer_new_def)
    ultimately show ?case using Cons by simp
  qed simp
  from this [of tracker_new names] assms show ?thesis by (simp add: tracker_new_def)
qed

end
