(* ===== verification/RcloneArgs.thy ===== *)
theory RcloneArgs
  imports Tracker
begin

text \<open>
  \<open>crates/gn-drive-core/src/rclone/client.rs\<close>, the pure part: the endpoints a configuration
  names, the argument list of an action, the flags of a profile. \<open>walk_flags\<close> is the reader of
  option lists the lemmas measure them with: rclone's own rule that a flag which takes a value
  consumes the next argument whatever it looks like.
\<close>

section \<open>Endpoints\<close>

definition resolve_endpoints :: "sync_config \<Rightarrow> (rclone_error, string \<times> string) result" where
  "resolve_endpoints cfg =
     (if cfg_source cfg \<noteq> [] \<and> cfg_dest cfg \<noteq> [] then Ok (cfg_source cfg, cfg_dest cfg)
      else if cfg_source_remote cfg = [] \<or> cfg_source_path cfg = []
              \<or> cfg_dest_remote cfg = [] \<or> cfg_dest_path cfg = []
      then Err (RunFailed ''sync'' ''requires Source+Dest or remotes+paths'')
      else Ok (cfg_source_remote cfg @ '':'' @ cfg_source_path cfg,
               cfg_dest_remote cfg @ '':'' @ cfg_dest_path cfg))"

definition pending_seed_path :: "sync_config \<Rightarrow> string" where
  "pending_seed_path cfg =
     (let src = cfg_source cfg; dst = cfg_dest cfg;
          (src, dst) = (if src = [] \<or> dst = [] then
             (if cfg_source_remote cfg \<noteq> [] \<and> cfg_source_path cfg \<noteq> []
              then cfg_source_remote cfg @ '':'' @ cfg_source_path cfg else src,
              if cfg_dest_remote cfg \<noteq> [] \<and> cfg_dest_path cfg \<noteq> []
              then cfg_dest_remote cfg @ '':'' @ cfg_dest_path cfg else dst)
           else (src, dst))
      in if cfg_action cfg = Pull then dst else src)"

section \<open>Flags\<close>

definition kv :: "string \<Rightarrow> string \<Rightarrow> string list" where
  "kv flag val = [flag, val]"

definition flag_str :: "string \<Rightarrow> string \<Rightarrow> string list" where
  "flag_str flag v = (if v \<noteq> [] then kv flag v else [])"

definition flag_int :: "string \<Rightarrow> int \<Rightarrow> string list" where
  "flag_int flag i = (if i > 0 then kv flag (show_int i) else [])"

definition flag_bool :: "string \<Rightarrow> bool \<Rightarrow> string list" where
  "flag_bool flag b = (if b then [flag] else [])"

definition flag_each :: "string \<Rightarrow> string list \<Rightarrow> string list" where
  "flag_each flag vs = concat (map (kv flag) (filter (\<lambda>s. s \<noteq> []) (map trim vs)))"

definition flag_delete_timing :: "string \<Rightarrow> string list" where
  "flag_delete_timing v =
     (let t = to_lowercase (trim v) in
      if t = ''before'' then [''--delete-before'']
      else if t = ''after'' then [''--delete-after'']
      else if t = ''during'' then [''--delete-during'']
      else [])"

definition profile_to_flags :: "profile_flags \<Rightarrow> string list" where
  "profile_to_flags p = concat [
     flag_str ''--bwlimit'' (pf_bandwidth p),
     flag_int ''--transfers'' (pf_transfers p),
     flag_int ''--checkers'' (pf_checkers p),
     (if f64_pos (pf_tps_limit p) then kv ''--tpslimit'' (show_f64 (pf_tps_limit p)) else []),
     flag_str ''--min-age'' (pf_min_age p),
     flag_str ''--max-age'' (pf_max_age p),
     flag_str ''--min-size'' (pf_min_size p),
     flag_str ''--max-size'' (pf_max_size p),
     flag_str ''--exclude-if-present'' (pf_exclude_if_present p),
     flag_int ''--max-delete'' (pf_max_delete p),
     flag_bool ''--dry-run'' (pf_dry_run p),
     flag_bool ''--no-unicode-normalization'' (pf_no_unicode_normalize p),
     flag_each ''--include'' (pf_includes p),
     flag_each ''--exclude'' (pf_excludes p),
     flag_int ''--multi-thread-streams'' (pf_multi_thread_streams p),
     flag_str ''--buffer-size'' (pf_buffer_size p),
     flag_int ''--retries'' (pf_retries p),
     flag_int ''--low-level-retries'' (pf_low_level_retries p),
     flag_str ''--max-duration'' (pf_max_duration p),
     flag_str ''--retries-sleep'' (pf_retries_sleep p),
     flag_str ''--contimeout'' (pf_conn_timeout p),
     flag_str ''--timeout'' (pf_io_timeout p),
     flag_str ''--order-by'' (pf_order_by p),
     flag_bool ''--check-first'' (pf_check_first p),
     flag_bool ''--immutable'' (pf_immutable p),
     flag_str ''--max-transfer'' (pf_max_transfer p),
     flag_str ''--max-delete-size'' (pf_max_delete_size p),
     flag_str ''--suffix'' (pf_suffix p),
     flag_bool ''--suffix-keep-extension'' (pf_suffix_keep_extension p),
     flag_str ''--backup-dir'' (pf_backup_dir p),
     flag_bool ''--size-only'' (pf_size_only p),
     flag_bool ''--update'' (pf_update_mode p),
     flag_bool ''--ignore-existing'' (pf_ignore_existing p),
     flag_bool ''--delete-excluded'' (pf_delete_excluded p),
     flag_int ''--max-depth'' (pf_max_depth p),
     flag_delete_timing (pf_delete_timing p),
     flag_str ''--conflict-resolve'' (pf_conflict_resolve p),
     flag_str ''--conflict-loser'' (pf_conflict_loser p),
     flag_str ''--conflict-suffix'' (pf_conflict_suffix p),
     flag_bool ''--resilient'' (pf_resilient p),
     flag_str ''--max-lock'' (pf_max_lock p),
     flag_bool ''--check-access'' (pf_check_access p)]"

fun action_args :: "rclone_action \<Rightarrow> string \<Rightarrow> string \<Rightarrow> string list" where
  "action_args Pull src dst = [''sync'', dst, src, ''--update'']"
| "action_args Push src dst = [''sync'', src, dst, ''--update'']"
| "action_args Bi src dst = [''bisync'', src, dst]"
| "action_args BiResync src dst = [''bisync'', src, dst, ''--resync'', ''--force'']"
| "action_args Copy src dst = [''copy'', src, dst]"
| "action_args Move src dst = [''move'', src, dst]"
| "action_args Check src dst = [''check'', src, dst]"
| "action_args DryRun src dst = [''sync'', src, dst, ''--dry-run'', ''--update'']"

definition base_args :: "string \<Rightarrow> string \<Rightarrow> string list" where
  "base_args config_path interval =
     [''--config'', config_path, ''--stats'', if interval = [] then ''1s'' else interval,
      ''--use-json-log'', ''-v'']"

definition build_args :: "string \<Rightarrow> sync_config \<Rightarrow> (rclone_error, string list) result" where
  "build_args config_path cfg =
     (case resolve_endpoints cfg of
        Err e \<Rightarrow> Err e
      | Ok (src, dst) \<Rightarrow>
          Ok (action_args (cfg_action cfg) src dst @ base_args config_path (cfg_stats_interval cfg)
              @ (case cfg_profile cfg of Some p \<Rightarrow> profile_to_flags p | None \<Rightarrow> [])))"

section \<open>Reading an option list\<close>

definition VALUE_FLAGS :: "string list" where
  "VALUE_FLAGS = [''--config'', ''--stats'', ''--bwlimit'', ''--transfers'', ''--checkers'',
     ''--tpslimit'', ''--min-age'', ''--max-age'', ''--min-size'', ''--max-size'',
     ''--exclude-if-present'', ''--max-delete'', ''--include'', ''--exclude'',
     ''--multi-thread-streams'', ''--buffer-size'', ''--retries'', ''--low-level-retries'',
     ''--max-duration'', ''--retries-sleep'', ''--contimeout'', ''--timeout'', ''--order-by'',
     ''--max-transfer'', ''--max-delete-size'', ''--suffix'', ''--backup-dir'', ''--max-depth'',
     ''--conflict-resolve'', ''--conflict-loser'', ''--conflict-suffix'', ''--max-lock'']"

definition BOOL_FLAGS :: "string list" where
  "BOOL_FLAGS = [''--update'', ''--resync'', ''--force'', ''--dry-run'', ''--use-json-log'', ''-v'',
     ''--no-unicode-normalization'', ''--check-first'', ''--immutable'',
     ''--suffix-keep-extension'', ''--size-only'', ''--ignore-existing'', ''--delete-excluded'',
     ''--delete-before'', ''--delete-after'', ''--delete-during'', ''--resilient'',
     ''--check-access'']"

fun walk_flags :: "string list \<Rightarrow> (string \<times> string option) list option" where
  "walk_flags [] = Some []"
| "walk_flags (f # r) =
     (if f \<in> set BOOL_FLAGS then map_option ((#) (f, None)) (walk_flags r)
      else if f \<in> set VALUE_FLAGS then
        (case r of [] \<Rightarrow> None | v # r' \<Rightarrow> map_option ((#) (f, Some v)) (walk_flags r'))
      else None)"

lemma flags_disjoint: "f \<in> set VALUE_FLAGS \<Longrightarrow> f \<notin> set BOOL_FLAGS"
proof -
  have "list_all (\<lambda>f. f \<notin> set BOOL_FLAGS) VALUE_FLAGS" by code_simp
  then show "f \<in> set VALUE_FLAGS \<Longrightarrow> f \<notin> set BOOL_FLAGS" by (simp add: list_all_iff)
qed

lemma walk_flags_append:
  "walk_flags xs = Some a \<Longrightarrow> walk_flags ys = Some b \<Longrightarrow> walk_flags (xs @ ys) = Some (a @ b)"
proof (induction xs arbitrary: a rule: walk_flags.induct)
  case (2 f r)
  then show ?case by (cases r) (auto split: if_splits)
qed simp

lemma walk_flags_concat:
  "list_all2 (\<lambda>seg ops. walk_flags seg = Some ops) segs opss \<Longrightarrow>
   walk_flags (concat segs) = Some (concat opss)"
  by (induction rule: list_all2_induct) (simp_all add: walk_flags_append)

definition opt_str :: "string \<Rightarrow> string \<Rightarrow> (string \<times> string option) list" where
  "opt_str flag v = (if v \<noteq> [] then [(flag, Some v)] else [])"

definition opt_int :: "string \<Rightarrow> int \<Rightarrow> (string \<times> string option) list" where
  "opt_int flag i = (if i > 0 then [(flag, Some (show_int i))] else [])"

definition opt_bool :: "string \<Rightarrow> bool \<Rightarrow> (string \<times> string option) list" where
  "opt_bool flag b = (if b then [(flag, None)] else [])"

definition opt_each :: "string \<Rightarrow> string list \<Rightarrow> (string \<times> string option) list" where
  "opt_each flag vs = map (\<lambda>v. (flag, Some v)) (filter (\<lambda>s. s \<noteq> []) (map trim vs))"

lemma walk_kv: "f \<in> set VALUE_FLAGS \<Longrightarrow> walk_flags (kv f v) = Some [(f, Some v)]"
  using flags_disjoint by (simp add: kv_def)

lemma walk_flag_str: "f \<in> set VALUE_FLAGS \<Longrightarrow> walk_flags (flag_str f v) = Some (opt_str f v)"
  by (simp add: flag_str_def opt_str_def walk_kv)

lemma walk_flag_int: "f \<in> set VALUE_FLAGS \<Longrightarrow> walk_flags (flag_int f v) = Some (opt_int f v)"
  by (simp add: flag_int_def opt_int_def walk_kv)

lemma walk_flag_bool: "f \<in> set BOOL_FLAGS \<Longrightarrow> walk_flags (flag_bool f b) = Some (opt_bool f b)"
  by (simp add: flag_bool_def opt_bool_def)

lemma walk_flag_each:
  assumes "f \<in> set VALUE_FLAGS"
  shows "walk_flags (flag_each f vs) = Some (opt_each f vs)"
proof -
  have "walk_flags (concat (map (kv f) ws)) = Some (map (\<lambda>v. (f, Some v)) ws)" for ws
    using assms by (induction ws) (auto simp: walk_kv intro: walk_flags_append [of _ "[_]", simplified])
  then show ?thesis by (simp add: flag_each_def opt_each_def)
qed

lemmas walk_segs = walk_flag_str walk_flag_int walk_flag_bool walk_flag_each walk_kv

section \<open>What rclone is told\<close>

text \<open>The options of a profile, as flag and value pairs.\<close>

definition profile_opts :: "profile_flags \<Rightarrow> (string \<times> string option) list" where
  "profile_opts p = concat [
     opt_str ''--bwlimit'' (pf_bandwidth p),
     opt_int ''--transfers'' (pf_transfers p),
     opt_int ''--checkers'' (pf_checkers p),
     (if f64_pos (pf_tps_limit p) then [(''--tpslimit'', Some (show_f64 (pf_tps_limit p)))] else []),
     opt_str ''--min-age'' (pf_min_age p),
     opt_str ''--max-age'' (pf_max_age p),
     opt_str ''--min-size'' (pf_min_size p),
     opt_str ''--max-size'' (pf_max_size p),
     opt_str ''--exclude-if-present'' (pf_exclude_if_present p),
     opt_int ''--max-delete'' (pf_max_delete p),
     opt_bool ''--dry-run'' (pf_dry_run p),
     opt_bool ''--no-unicode-normalization'' (pf_no_unicode_normalize p),
     opt_each ''--include'' (pf_includes p),
     opt_each ''--exclude'' (pf_excludes p),
     opt_int ''--multi-thread-streams'' (pf_multi_thread_streams p),
     opt_str ''--buffer-size'' (pf_buffer_size p),
     opt_int ''--retries'' (pf_retries p),
     opt_int ''--low-level-retries'' (pf_low_level_retries p),
     opt_str ''--max-duration'' (pf_max_duration p),
     opt_str ''--retries-sleep'' (pf_retries_sleep p),
     opt_str ''--contimeout'' (pf_conn_timeout p),
     opt_str ''--timeout'' (pf_io_timeout p),
     opt_str ''--order-by'' (pf_order_by p),
     opt_bool ''--check-first'' (pf_check_first p),
     opt_bool ''--immutable'' (pf_immutable p),
     opt_str ''--max-transfer'' (pf_max_transfer p),
     opt_str ''--max-delete-size'' (pf_max_delete_size p),
     opt_str ''--suffix'' (pf_suffix p),
     opt_bool ''--suffix-keep-extension'' (pf_suffix_keep_extension p),
     opt_str ''--backup-dir'' (pf_backup_dir p),
     opt_bool ''--size-only'' (pf_size_only p),
     opt_bool ''--update'' (pf_update_mode p),
     opt_bool ''--ignore-existing'' (pf_ignore_existing p),
     opt_bool ''--delete-excluded'' (pf_delete_excluded p),
     opt_int ''--max-depth'' (pf_max_depth p),
     map (\<lambda>f. (f, None)) (flag_delete_timing (pf_delete_timing p)),
     opt_str ''--conflict-resolve'' (pf_conflict_resolve p),
     opt_str ''--conflict-loser'' (pf_conflict_loser p),
     opt_str ''--conflict-suffix'' (pf_conflict_suffix p),
     opt_bool ''--resilient'' (pf_resilient p),
     opt_str ''--max-lock'' (pf_max_lock p),
     opt_bool ''--check-access'' (pf_check_access p)]"


lemma walk_delete_timing:
  "walk_flags (flag_delete_timing v) = Some (map (\<lambda>f. (f, None)) (flag_delete_timing v))"
  by (simp add: flag_delete_timing_def Let_def BOOL_FLAGS_def)

lemma walk_tps:
  "walk_flags (if b then kv ''--tpslimit'' v else []) = Some (if b then [(''--tpslimit'', Some v)] else [])"
  by (simp add: walk_kv VALUE_FLAGS_def)

lemma walk_profile: "walk_flags (profile_to_flags p) = Some (profile_opts p)"
  unfolding profile_to_flags_def profile_opts_def
  by (rule walk_flags_concat)
    (simp add: walk_flag_str walk_flag_int walk_flag_bool walk_flag_each walk_delete_timing walk_tps
      VALUE_FLAGS_def BOOL_FLAGS_def del: walk_flags.simps)

definition action_opts :: "rclone_action \<Rightarrow> (string \<times> string option) list" where
  "action_opts a = map (\<lambda>f. (f, None)) (drop 3 (action_args a [] []))"

definition base_opts :: "string \<Rightarrow> string \<Rightarrow> (string \<times> string option) list" where
  "base_opts config_path interval = [(''--config'', Some config_path),
     (''--stats'', Some (if interval = [] then ''1s'' else interval)),
     (''--use-json-log'', None), (''-v'', None)]"

lemma walk_base: "walk_flags (base_args c i) = Some (base_opts c i)"
  by (simp add: base_args_def base_opts_def BOOL_FLAGS_def VALUE_FLAGS_def)

lemma walk_action: "walk_flags (drop 3 (action_args a src dst)) = Some (action_opts a)"
  by (cases a) (simp_all add: action_opts_def BOOL_FLAGS_def)

definition cfg_opts :: "string \<Rightarrow> sync_config \<Rightarrow> (string \<times> string option) list" where
  "cfg_opts config_path cfg = action_opts (cfg_action cfg) @
     base_opts config_path (cfg_stats_interval cfg) @
     (case cfg_profile cfg of Some p \<Rightarrow> profile_opts p | None \<Rightarrow> [])"

lemma length_action_args: "3 \<le> length (action_args a src dst)"
  by (cases a) simp_all

lemma take_action_args:
  "take 3 (action_args a src dst) =
     [hd (action_args a [] []), if a = Pull then dst else src, if a = Pull then src else dst]"
  by (cases a) simp_all

lemma build_args_walk:
  assumes "build_args config_path cfg = Ok args"
  shows "walk_flags (drop 3 args) = Some (cfg_opts config_path cfg)"
proof -
  obtain src dst where args: "args = action_args (cfg_action cfg) src dst
      @ base_args config_path (cfg_stats_interval cfg)
      @ (case cfg_profile cfg of Some p \<Rightarrow> profile_to_flags p | None \<Rightarrow> [])"
    using assms by (auto simp: build_args_def split: sum.splits prod.splits)
  have d: "drop 3 args = drop 3 (action_args (cfg_action cfg) src dst)
      @ base_args config_path (cfg_stats_interval cfg)
      @ (case cfg_profile cfg of Some p \<Rightarrow> profile_to_flags p | None \<Rightarrow> [])"
    using length_action_args [of "cfg_action cfg" src dst] by (simp add: args)
  have "walk_flags (case cfg_profile cfg of Some p \<Rightarrow> profile_to_flags p | None \<Rightarrow> [])
      = Some (case cfg_profile cfg of Some p \<Rightarrow> profile_opts p | None \<Rightarrow> [])"
    by (simp add: walk_profile split: option.split)
  then show ?thesis
    unfolding d cfg_opts_def by (intro walk_flags_append walk_action walk_base)
qed

lemma opt_mem:
  "(f, v) \<in> set (opt_str g s) \<longleftrightarrow> s \<noteq> [] \<and> f = g \<and> v = Some s"
  "(f, v) \<in> set (opt_int g i) \<longleftrightarrow> i > 0 \<and> f = g \<and> v = Some (show_int i)"
  "(f, v) \<in> set (opt_bool g b) \<longleftrightarrow> b \<and> f = g \<and> v = None"
  "(f, v) \<in> set (opt_each g vs) \<longleftrightarrow> f = g \<and> (\<exists>w \<in> set vs. trim w \<noteq> [] \<and> v = Some (trim w))"
  by (auto simp: opt_str_def opt_int_def opt_bool_def opt_each_def)

lemma literal_neq_simps [simp]:
  "(f, v) \<in> set (map (\<lambda>g. (g, None)) xs) \<longleftrightarrow> v = None \<and> f \<in> set xs"
  by auto

lemma delete_timing_flags:
  "f \<in> set (flag_delete_timing v) \<Longrightarrow> f \<in> {''--delete-before'', ''--delete-after'', ''--delete-during''}"
  by (auto simp: flag_delete_timing_def Let_def split: if_splits)

lemma not_delete_timing:
  "''--dry-run'' \<notin> set (flag_delete_timing v)" "''--exclude'' \<notin> set (flag_delete_timing v)"
  "''--include'' \<notin> set (flag_delete_timing v)" "''--delete-excluded'' \<notin> set (flag_delete_timing v)"
  "''--max-delete'' \<notin> set (flag_delete_timing v)" "''--backup-dir'' \<notin> set (flag_delete_timing v)"
  "''--config'' \<notin> set (flag_delete_timing v)" "''--resync'' \<notin> set (flag_delete_timing v)"
  by (auto dest: delete_timing_flags)

lemma profile_opts_mem:
  "(''--dry-run'', v) \<in> set (profile_opts p) \<longleftrightarrow> v = None \<and> pf_dry_run p"
  "(''--delete-excluded'', v) \<in> set (profile_opts p) \<longleftrightarrow> v = None \<and> pf_delete_excluded p"
  "(''--max-delete'', v) \<in> set (profile_opts p) \<longleftrightarrow> pf_max_delete p > 0 \<and> v = Some (show_int (pf_max_delete p))"
  "(''--backup-dir'', v) \<in> set (profile_opts p) \<longleftrightarrow> pf_backup_dir p \<noteq> [] \<and> v = Some (pf_backup_dir p)"
  "(''--include'', v) \<in> set (profile_opts p)
     \<longleftrightarrow> (\<exists>w \<in> set (pf_includes p). trim w \<noteq> [] \<and> v = Some (trim w))"
  "(''--exclude'', v) \<in> set (profile_opts p)
     \<longleftrightarrow> (\<exists>w \<in> set (pf_excludes p). trim w \<noteq> [] \<and> v = Some (trim w))"
  "(''--config'', v) \<notin> set (profile_opts p)" "(''--resync'', v) \<notin> set (profile_opts p)"
  by (auto simp: profile_opts_def opt_mem not_delete_timing)

lemma action_opts_mem:
  "(''--dry-run'', v) \<in> set (action_opts a) \<longleftrightarrow> v = None \<and> a = DryRun"
  "(''--resync'', v) \<in> set (action_opts a) \<longleftrightarrow> v = None \<and> a = BiResync"
  "f \<in> {''--delete-excluded'', ''--max-delete'', ''--backup-dir'', ''--include'', ''--exclude'', ''--config''}
     \<Longrightarrow> (f, v) \<notin> set (action_opts a)"
  by (cases a; auto simp: action_opts_def)+

lemma base_opts_mem:
  "(''--config'', v) \<in> set (base_opts c i) \<longleftrightarrow> v = Some c"
  "f \<in> {''--delete-excluded'', ''--max-delete'', ''--backup-dir'', ''--include'', ''--exclude'',
     ''--dry-run'', ''--resync''} \<Longrightarrow> (f, v) \<notin> set (base_opts c i)"
  by (auto simp: base_opts_def)

text \<open>A property of the profile of a configuration, false without one.\<close>

definition profile_has :: "sync_config \<Rightarrow> (profile_flags \<Rightarrow> bool) \<Rightarrow> bool" where
  "profile_has cfg P \<longleftrightarrow> (case cfg_profile cfg of Some p \<Rightarrow> P p | None \<Rightarrow> False)"

lemma cfg_opts_mem:
  "(''--dry-run'', v) \<in> set (cfg_opts c cfg)
     \<longleftrightarrow> v = None \<and> (cfg_action cfg = DryRun \<or> profile_has cfg pf_dry_run)"
  "(''--resync'', v) \<in> set (cfg_opts c cfg) \<longleftrightarrow> v = None \<and> cfg_action cfg = BiResync"
  "(''--config'', v) \<in> set (cfg_opts c cfg) \<longleftrightarrow> v = Some c"
  "(''--delete-excluded'', v) \<in> set (cfg_opts c cfg) \<longleftrightarrow> v = None \<and> profile_has cfg pf_delete_excluded"
  "(''--max-delete'', v) \<in> set (cfg_opts c cfg)
     \<longleftrightarrow> profile_has cfg (\<lambda>p. pf_max_delete p > 0 \<and> v = Some (show_int (pf_max_delete p)))"
  "(''--backup-dir'', v) \<in> set (cfg_opts c cfg)
     \<longleftrightarrow> profile_has cfg (\<lambda>p. pf_backup_dir p \<noteq> [] \<and> v = Some (pf_backup_dir p))"
  "(''--include'', v) \<in> set (cfg_opts c cfg)
     \<longleftrightarrow> profile_has cfg (\<lambda>p. \<exists>w \<in> set (pf_includes p). trim w \<noteq> [] \<and> v = Some (trim w))"
  "(''--exclude'', v) \<in> set (cfg_opts c cfg)
     \<longleftrightarrow> profile_has cfg (\<lambda>p. \<exists>w \<in> set (pf_excludes p). trim w \<noteq> [] \<and> v = Some (trim w))"
  by (auto simp: cfg_opts_def profile_has_def profile_opts_mem action_opts_mem base_opts_mem
      split: option.split)


definition demo_flags_config :: sync_config where
  "demo_flags_config = sync_config_default\<lparr>cfg_source := ''/a'', cfg_dest := ''r:b'',
     cfg_profile := Some (profile_flags_default\<lparr>pf_suffix := ''--dry-run'',
       pf_excludes := ['' --delete-excluded '', '' '']\<rparr>)\<rparr>"


text \<open>
  C29: the direction of a run: arguments are built only when both endpoints are known; rclone
  then reads from the side the pending listing shows and writes to the other
  one, which is the destination for every action except \<open>pull\<close>, where the sides are swapped.
\<close>

theorem build_args_direction:
  assumes "build_args config_path cfg = Ok args"
  shows "\<exists>src dst. resolve_endpoints cfg = Ok (src, dst) \<and> src \<noteq> [] \<and> dst \<noteq> [] \<and>
    args ! 1 = pending_seed_path cfg \<and>
    (args ! 1, args ! 2) = (if cfg_action cfg = Pull then (dst, src) else (src, dst)) \<and>
    args ! 0 = (if cfg_action cfg \<in> {Bi, BiResync} then ''bisync''
                else if cfg_action cfg = Copy then ''copy''
                else if cfg_action cfg = Move then ''move''
                else if cfg_action cfg = Check then ''check'' else ''sync'')"
proof -
  obtain src dst where r: "resolve_endpoints cfg = Ok (src, dst)"
    using assms by (auto simp: build_args_def split: sum.splits)
  then have ne: "src \<noteq> [] \<and> dst \<noteq> []"
    by (auto simp: resolve_endpoints_def split: if_splits)
  from r have "pending_seed_path cfg = (if cfg_action cfg = Pull then dst else src)"
    by (auto simp: resolve_endpoints_def pending_seed_path_def Let_def split: if_splits)
  with r ne assms show ?thesis
    by (cases "cfg_action cfg") (auto simp: build_args_def)
qed

theorem build_args_direction_witness:
  "\<exists>args. build_args ''c'' (demo_flags_config\<lparr>cfg_action := Pull\<rparr>) = Ok args \<and>
     args ! 1 = ''r:b'' \<and> args ! 2 = ''/a''"
proof -
  let ?cfg = "demo_flags_config\<lparr>cfg_action := Pull\<rparr>"
  obtain args where args: "build_args ''c'' ?cfg = Ok args"
    by (simp add: build_args_def resolve_endpoints_def demo_flags_config_def)
  have "resolve_endpoints ?cfg = Ok (''/a'', ''r:b'')" "cfg_action ?cfg = Pull" by code_simp+
  with build_args_direction [OF args] args show ?thesis by auto
qed

end
