(* ===== verification/Client.thy ===== *)
theory Client
  imports RcloneArgs
begin

text \<open>
  \<open>crates/gn-drive-core/src/rclone/client.rs\<close>: finding the binary, the commands of the client,
  and a streamed sync run. rclone itself is outside: a \<open>runner\<close> answers a command from the
  history of all commands so far (so it may keep any state), with an I/O error text or a
  process output; the client's operations thread that history. JSON decoding is \<open>parse_json\<close>.
  A streamed run is the sequence of the atomic steps its threads take on the shared state.
\<close>

section \<open>Finding the binary\<close>

text \<open>
  Absolute paths are lists of components. \<open>is_exec\<close> says which path texts name executable
  regular files.
\<close>

definition path_text :: "string list \<Rightarrow> string" where
  "path_text comps = concat (map ((#) CHR ''/'') comps)"

definition look_path_in :: "(string \<Rightarrow> bool) \<Rightarrow> string \<Rightarrow> string \<Rightarrow> string option" where
  "look_path_in is_exec name path_env =
     find is_exec (map (\<lambda>d. d @ ''/'' @ name) (filter (\<lambda>d. d \<noteq> []) (split_on CHR '':'' path_env)))"

definition bundled_binary_for :: "(string \<Rightarrow> bool) \<Rightarrow> string list \<Rightarrow> string option" where
  "bundled_binary_for is_exec exe =
     (if exe = [] then None
      else let dir = butlast exe;
               bundle = (if dir \<noteq> [] \<and> last dir = ''MacOS'' \<and> butlast dir \<noteq> []
                            \<and> last (butlast dir) = ''Contents''
                         then [path_text (butlast dir @ [''Resources'', ''rclone''])] else [])
           in find is_exec (bundle @ [path_text (dir @ [''rclone''])]))"

definition resolve_binary_with ::
  "(string \<Rightarrow> bool) \<Rightarrow> string option \<Rightarrow> string \<Rightarrow> string list option \<Rightarrow> (rclone_error, string) result" where
  "resolve_binary_with is_exec path path_env exe =
     (case path of
        Some p \<Rightarrow>
          if p = [] then
            (case Option.bind exe (bundled_binary_for is_exec) of
               Some b \<Rightarrow> Ok b
             | None \<Rightarrow> (case look_path_in is_exec ''rclone'' path_env of
                          Some b \<Rightarrow> Ok b | None \<Rightarrow> Err (BinaryNotFound ''rclone'')))
          else (case look_path_in is_exec p path_env of
                  Some b \<Rightarrow> Ok b
                | None \<Rightarrow> if is_exec p then Ok p else Err (BinaryNotFound p))
      | None \<Rightarrow>
          (case Option.bind exe (bundled_binary_for is_exec) of
             Some b \<Rightarrow> Ok b
           | None \<Rightarrow> (case look_path_in is_exec ''rclone'' path_env of
                        Some b \<Rightarrow> Ok b | None \<Rightarrow> Err (BinaryNotFound ''rclone''))))"

section \<open>Running commands\<close>

type_synonym history = "string list list"
type_synonym runner = "history \<Rightarrow> string list \<Rightarrow> string + process_output"
type_synonym 'a op = "history \<Rightarrow> (rclone_error, 'a) result \<times> history"

definition runner_run :: "runner \<Rightarrow> string list \<Rightarrow> history \<Rightarrow> (string + process_output) \<times> history" where
  "runner_run runner args h = (runner h args, h @ [args])"

definition run_checked :: "runner \<Rightarrow> string list \<Rightarrow> string op" where
  "run_checked runner args h =
     (let joined = join '' '' args in
      case runner_run runner args h of (r, h') \<Rightarrow>
        (case r of
           Inl e \<Rightarrow> Err (RunFailed joined e)
         | Inr out \<Rightarrow>
             if po_exit_code out \<noteq> 0 then
               (let e = trim (po_stderr out); o' = trim (po_stdout out) in
                Err (RunFailed joined (truncate_string (if e = [] then o' else e) 500)))
             else Ok (po_stdout out), h'))"

definition run_raw :: "runner \<Rightarrow> string list \<Rightarrow> process_output op" where
  "run_raw runner args h =
     (case runner_run runner args h of (r, h') \<Rightarrow>
        (case r of Inl e \<Rightarrow> Err (RunFailed (join '' '' args) e) | Inr out \<Rightarrow> Ok out, h'))"

text \<open>\<open>Result::map\<close> and \<open>?\<close>.\<close>

definition op_map :: "('a \<Rightarrow> (rclone_error, 'b) result) \<Rightarrow> 'a op \<Rightarrow> 'b op" where
  "op_map f m h = (case m h of (r, h') \<Rightarrow> (case r of Err e \<Rightarrow> Err e | Ok x \<Rightarrow> f x, h'))"

definition op_drop :: "'a op \<Rightarrow> unit op" where
  "op_drop m = op_map (\<lambda>_. Ok ()) m"

definition version_cmd :: "runner \<Rightarrow> string op" where
  "version_cmd runner =
     op_map (\<lambda>out. Ok (trim (hd (split_on (CHR 0x0A) out)))) (run_checked runner [''version''])"

section \<open>Listings\<close>

definition json_i64 :: "json \<Rightarrow> string \<Rightarrow> int" where
  "json_i64 v k =
     (case Option.bind (jget v k)
             (\<lambda>x. case as_i64 x of Some i \<Rightarrow> Some i | None \<Rightarrow> map_option f64_as_i64 (as_f64 x)) of
        Some i \<Rightarrow> i | None \<Rightarrow> 0)"

definition json_str :: "json \<Rightarrow> string \<Rightarrow> string" where
  "json_str v k = (case Option.bind (jget v k) as_str of Some s \<Rightarrow> s | None \<Rightarrow> [])"

definition file_entry_of :: "json \<Rightarrow> file_entry" where
  "file_entry_of v = \<lparr> fe_name = json_str v ''Name'', fe_size = json_i64 v ''Size'',
     fe_mime_type = json_str v ''MimeType'',
     fe_is_dir = (case Option.bind (jget v ''IsDir'') as_bool of Some b \<Rightarrow> b | None \<Rightarrow> False),
     fe_mod_time = json_str v ''ModTime'', fe_path = json_str v ''Path'', fe_id = json_str v ''ID'' \<rparr>"

definition parse_file_entries :: "(string \<Rightarrow> json option) \<Rightarrow> string \<Rightarrow> file_entry list" where
  "parse_file_entries parse_json s =
     (case parse_json s of
        Some (JArray items) \<Rightarrow> map file_entry_of (filter is_object items)
      | _ \<Rightarrow> [])"

text \<open>\<open>p.contains(':') || p.starts_with('/')\<close>\<close>

definition listable_path :: "string \<Rightarrow> bool" where
  "listable_path p \<longleftrightarrow> CHR '':'' \<in> set p \<or> starts_with ''/'' p"

definition list_pending_with ::
  "(string \<Rightarrow> json option) \<Rightarrow> runner \<Rightarrow> string \<Rightarrow> string \<Rightarrow> nat \<Rightarrow> file_entry list op" where
  "list_pending_with parse_json runner config_path remote_path limit h =
     (let p = trim remote_path in
      if p = [] \<or> \<not> listable_path p then (Ok [], h)
      else op_map (\<lambda>out. Ok (take limit (parse_file_entries parse_json (trim out))))
             (run_checked runner [''--log-level'', ''ERROR'', ''lsjson'', p, ''--config'', config_path,
                ''--recursive'', ''--files-only'']) h)"

definition list_files ::
  "(string \<Rightarrow> json option) \<Rightarrow> runner \<Rightarrow> string \<Rightarrow> string \<Rightarrow> file_entry list op" where
  "list_files parse_json runner config_path remote_path h =
     (let p = trim remote_path in
      if p = [] then (Err (RunFailed ''lsjson'' ''path is required''), h)
      else if \<not> listable_path p
      then (Err (RunFailed ''lsjson'' ''path must be absolute or remote:path''), h)
      else op_map (\<lambda>out. Ok (parse_file_entries parse_json (trim out)))
             (run_checked runner [''--log-level'', ''ERROR'', ''lsjson'', p, ''--config'', config_path,
                ''--max-depth'', ''1'']) h)"

definition mkdir_cmd :: "runner \<Rightarrow> string \<Rightarrow> string \<Rightarrow> unit op" where
  "mkdir_cmd runner cp path = op_drop (run_checked runner [''mkdir'', path, ''--config'', cp])"

definition purge_cmd :: "runner \<Rightarrow> string \<Rightarrow> string \<Rightarrow> unit op" where
  "purge_cmd runner cp path = op_drop (run_checked runner [''purge'', path, ''--config'', cp])"

definition delete_file_cmd :: "runner \<Rightarrow> string \<Rightarrow> string \<Rightarrow> unit op" where
  "delete_file_cmd runner cp path =
     op_drop (run_checked runner [''deletefile'', path, ''--config'', cp])"

definition about_cmd :: "(string \<Rightarrow> json option) \<Rightarrow> runner \<Rightarrow> string \<Rightarrow> string \<Rightarrow> quota_info op" where
  "about_cmd parse_json runner cp remote_name =
     op_map (\<lambda>out. case parse_json out of
               Some (JObject kvs) \<Rightarrow> Ok \<lparr> q_used = json_i64 (JObject kvs) ''used'',
                 q_total = json_i64 (JObject kvs) ''total'', q_free = json_i64 (JObject kvs) ''free'' \<rparr>
             | _ \<Rightarrow> Err (RunFailed ''about'' ''parse error''))
       (run_checked runner [''about'', remote_name @ '':'', ''--config'', cp, ''--json''])"

definition providers_cmd :: "(string \<Rightarrow> json option) \<Rightarrow> runner \<Rightarrow> string \<Rightarrow> json_dict list op" where
  "providers_cmd parse_json runner cp =
     op_map (\<lambda>res.
        if po_exit_code res \<noteq> 0 then
          (let msg = trim (po_stderr res) in
           Err (RunFailed ''config providers''
                  (truncate_string (if msg = [] then po_stdout res else msg) 500)))
        else case parse_json (po_stdout res) of
               Some (JArray a) \<Rightarrow>
                 if list_all is_object a
                 then Ok (List.map_filter (\<lambda>v. case v of JObject m \<Rightarrow> Some m | _ \<Rightarrow> None) a)
                 else Err (RunFailed ''config providers'' ''invalid JSON output'')
             | _ \<Rightarrow> Err (RunFailed ''config providers'' ''invalid JSON output''))
       (run_raw runner [''config'', ''providers'', ''--config'', cp])"

section \<open>Remotes\<close>

definition strip_colon :: "string \<Rightarrow> string" where
  "strip_colon name = (if name \<noteq> [] \<and> last name = CHR '':'' then butlast name else name)"

definition remote_types_from_dump ::
  "(string \<Rightarrow> json option) \<Rightarrow> runner \<Rightarrow> string \<Rightarrow> history \<Rightarrow> (string \<rightharpoonup> string) \<times> history" where
  "remote_types_from_dump parse_json runner cp h =
     (case run_checked runner [''config'', ''dump'', ''--config'', cp] h of (r, h') \<Rightarrow>
        (case r of
           Err _ \<Rightarrow> Map.empty
         | Ok out \<Rightarrow>
             (case parse_json out of
                Some (JObject dump) \<Rightarrow>
                  fold (\<lambda>(name, section) m.
                          case Option.bind (jget section ''type'') as_str of
                            Some t \<Rightarrow> m(name \<mapsto> t) | None \<Rightarrow> m) dump Map.empty
              | _ \<Rightarrow> Map.empty), h'))"

definition remotes_of :: "(string \<rightharpoonup> string) \<Rightarrow> string \<Rightarrow> remote list" where
  "remotes_of types out =
     List.map_filter (\<lambda>line. let n = strip_colon (trim line) in
         if n \<noteq> [] then Some \<lparr> r_name = n,
              r_type = (case types n of Some t \<Rightarrow> t | None \<Rightarrow> []), r_description = [] \<rparr> else None)
       (split_on (CHR 0x0A) out)"

definition list_remotes :: "(string \<Rightarrow> json option) \<Rightarrow> runner \<Rightarrow> string \<Rightarrow> remote list op" where
  "list_remotes parse_json runner cp h =
     (case run_checked runner [''listremotes'', ''--config'', cp] h of (r, h1) \<Rightarrow>
        (case r of
           Err (RunFailed command stderr) \<Rightarrow>
             if str_contains stderr ''Usage:'' \<or> str_contains stderr ''Available commands:''
             then (Ok [], h1) else (Err (RunFailed command stderr), h1)
         | Err e \<Rightarrow> (Err e, h1)
         | Ok out \<Rightarrow>
             (case remote_types_from_dump parse_json runner cp h1 of (types, h2) \<Rightarrow>
                (Ok (remotes_of types out), h2))))"

definition create_args :: "string \<Rightarrow> string \<Rightarrow> string \<Rightarrow> string list \<Rightarrow> string list" where
  "create_args cp name type kvs =
     [''config'', ''create'', name, type] @ kvs @ [''--non-interactive'', ''--obscure'', ''--config'', cp]"

definition create_remote_non_interactive ::
  "runner \<Rightarrow> string \<Rightarrow> string \<Rightarrow> string \<Rightarrow> string list \<Rightarrow> process_output op" where
  "create_remote_non_interactive runner cp name type kvs = run_raw runner (create_args cp name type kvs)"

definition continue_remote_create ::
  "runner \<Rightarrow> string \<Rightarrow> string \<Rightarrow> string \<Rightarrow> string \<Rightarrow> string \<Rightarrow> string list \<Rightarrow> process_output op" where
  "continue_remote_create runner cp name type state answer kvs =
     run_raw runner ([''config'', ''create'', name, type] @ kvs @ [''--continue'', ''--state'', state,
       ''--result'', answer, ''--non-interactive'', ''--obscure'', ''--config'', cp])"

definition create_remote :: "runner \<Rightarrow> string \<Rightarrow> string \<Rightarrow> string \<Rightarrow> string list \<Rightarrow> unit op" where
  "create_remote runner cp name type kvs = op_drop (run_checked runner (create_args cp name type kvs))"

definition delete_args :: "string \<Rightarrow> string \<Rightarrow> string list" where
  "delete_args cp name = [''config'', ''delete'', name, ''--config'', cp]"

definition delete_remote :: "runner \<Rightarrow> string \<Rightarrow> string \<Rightarrow> unit op" where
  "delete_remote runner cp name = op_drop (run_checked runner (delete_args cp name))"

definition test_args :: "string \<Rightarrow> string \<Rightarrow> string list" where
  "test_args cp name = [''lsd'', name @ '':'', ''--config'', cp, ''--max-depth'', ''1'']"

definition test_remote :: "runner \<Rightarrow> string \<Rightarrow> string \<Rightarrow> unit op" where
  "test_remote runner cp name = op_drop (run_checked runner (test_args cp name))"

definition create_remote_verified :: "runner \<Rightarrow> string \<Rightarrow> string \<Rightarrow> string \<Rightarrow> string list \<Rightarrow> unit op" where
  "create_remote_verified runner cp name type kvs h =
     (case create_remote runner cp name type kvs h of
        (Err e, h1) \<Rightarrow> (Err e, h1)
      | (Ok _, h1) \<Rightarrow>
          (case test_remote runner cp name h1 of
             (Err e, h2) \<Rightarrow> (Err e, snd (delete_remote runner cp name h2))
           | (Ok _, h2) \<Rightarrow> (Ok (), h2)))"

section \<open>A streamed run\<close>

function pump_lines :: "string \<Rightarrow> string list" where
  "pump_lines s =
     (if s = [] then []
      else takeWhile (\<lambda>c. c \<noteq> CHR 0x0A) s # pump_lines (drop 1 (dropWhile (\<lambda>c. c \<noteq> CHR 0x0A) s)))"
  by pat_completeness auto
termination
proof (relation "measure length")
  fix s :: string
  assume "s \<noteq> []"
  then have "length (drop 1 (dropWhile (\<lambda>c. c \<noteq> CHR 0x0A) s)) < length s"
    using length_dropWhile_le [of "\<lambda>c. c \<noteq> CHR 0x0A" s] length_greater_0_conv [of s]
    unfolding length_drop by linarith
  then show "(drop 1 (dropWhile (\<lambda>c. c \<noteq> CHR 0x0A) s), s) \<in> measure length"
    by (simp only: in_measure)
qed (rule wf_measure)

declare pump_lines.simps [simp del]

text \<open>
  \<open>SyncState\<close> with the snapshots handed to the progress callback. The two reader threads apply
  lines and emit, the waiting thread applies the pending listing and emits; each of these is
  atomic under the state's lock, and a run is any sequence of them.
\<close>

record exec_state =
  xs_stats :: sync_stats
  xs_tracker :: tracker
  xs_stderr :: string
  xs_progress :: "sync_stats list"

datatype exec_event = XLine stream_kind string | XSeed "file_entry list" | XEmit int

definition exec_line :: "(string \<Rightarrow> json option) \<Rightarrow> stream_kind \<Rightarrow> string \<Rightarrow> exec_state \<Rightarrow> exec_state" where
  "exec_line parse_json kind line st =
     (let buf = (if kind = Stderr then xs_stderr st @ line @ [CHR 0x0A] else xs_stderr st);
          s1 = (case parse_json_stats_line parse_json line (xs_stats st) of
                  (True, s) \<Rightarrow> s | (False, s) \<Rightarrow> parse_stats_line line s);
          s2 = update_stage parse_json line s1
      in case ingest_json_log_line parse_json line (s2, xs_tracker st) of
           (s3, t) \<Rightarrow> st\<lparr>xs_stats := s3, xs_tracker := t, xs_stderr := buf\<rparr>)"

definition exec_emit :: "int \<Rightarrow> exec_state \<Rightarrow> exec_state" where
  "exec_emit now st =
     (let stats = (xs_stats st)\<lparr>st_file_transfers :=
                     tracker_snapshot (xs_tracker st) (st_files_total (xs_stats st))\<rparr>
      in st\<lparr>xs_stats := stats, xs_progress := xs_progress st @ [stats\<lparr>st_last_update := now\<rparr>]\<rparr>)"

definition exec_seed :: "file_entry list \<Rightarrow> exec_state \<Rightarrow> exec_state" where
  "exec_seed entries st = st\<lparr>xs_tracker := seed_pending entries (xs_tracker st)\<rparr>"

fun exec_step :: "(string \<Rightarrow> json option) \<Rightarrow> exec_event \<Rightarrow> exec_state \<Rightarrow> exec_state" where
  "exec_step parse_json (XLine kind line) st = exec_line parse_json kind line st"
| "exec_step parse_json (XSeed entries) st = exec_seed entries st"
| "exec_step parse_json (XEmit now) st = exec_emit now st"

definition exec_init :: exec_state where
  "exec_init = \<lparr> xs_stats = sync_stats_default\<lparr>st_stage := ''starting''\<rparr>, xs_tracker = tracker_new,
     xs_stderr = [], xs_progress = [] \<rparr>"

text \<open>
  \<open>execute\<close>, from the steps its threads took (the first emission included), the listing that
  arrived too late for the loop, how the process ended (an I/O error or its exit code), and
  whether the token was cancelled; with the snapshots the callback got.
\<close>

definition execute ::
  "(string \<Rightarrow> json option) \<Rightarrow> string list \<Rightarrow> int \<Rightarrow> int \<Rightarrow> exec_event list \<Rightarrow> file_entry list option
   \<Rightarrow> string + int \<Rightarrow> bool \<Rightarrow> (sync_failed_error, sync_result) result \<times> sync_stats list" where
  "execute parse_json args started ended events late io_result cancelled =
     (let st0 = exec_emit started exec_init;
          st1 = fold (exec_step parse_json) events st0;
          st2 = (case late of Some entries \<Rightarrow> exec_seed entries st1 | None \<Rightarrow> st1);
          stats = (xs_stats st2)\<lparr>st_file_transfers :=
                     tracker_snapshot (xs_tracker st2) (st_files_total (xs_stats st2))\<rparr>;
          result = sync_result_default\<lparr>sr_started_at := started, sr_ended_at := ended,
                     sr_stderr := xs_stderr st2, sr_stats := stats\<rparr>
      in (case io_result of
            Inl e \<Rightarrow> Err \<lparr> sf_result = result,
                       sf_message = ''rclone '' @ join '' '' args @ '': '' @ e, sf_cancelled = False \<rparr>
          | Inr code \<Rightarrow>
              (let result = result\<lparr>sr_exit_code := code\<rparr> in
               if cancelled then Err \<lparr> sf_result = result, sf_message = ''cancelled'', sf_cancelled = True \<rparr>
               else if code \<noteq> 0 then
                 Err \<lparr> sf_result = result,
                       sf_message = ''rclone '' @ join '' '' args @ '': exit '' @ show_int code @
                         '' (stderr: '' @ truncate_string (sr_stderr result) 500 @ '')'',
                       sf_cancelled = False \<rparr>
               else Ok result),
          xs_progress st2))"

definition client_sync ::
  "(string \<Rightarrow> json option) \<Rightarrow> string \<Rightarrow> sync_config \<Rightarrow> int \<Rightarrow> int \<Rightarrow> exec_event list \<Rightarrow>
   file_entry list option \<Rightarrow> string + int \<Rightarrow> bool \<Rightarrow> (sync_failed_error, sync_result) result \<times> sync_stats list" where
  "client_sync parse_json config_path cfg started ended events late io_result cancelled =
     (case build_args config_path cfg of
        Err e \<Rightarrow> (Err \<lparr> sf_result = sync_result_default, sf_message = rclone_error_display e,
                       sf_cancelled = False \<rparr>, [])
      | Ok args \<Rightarrow> execute parse_json args started ended events late io_result cancelled)"

section \<open>Lemmas\<close>

fun stderr_text :: "exec_event \<Rightarrow> string" where
  "stderr_text (XLine Stderr line) = line @ [CHR 0x0A]"
| "stderr_text _ = []"

fun emits :: "exec_event \<Rightarrow> nat" where
  "emits (XEmit _) = 1"
| "emits _ = 0"

fun exec_feeds :: "exec_event \<Rightarrow> feed list" where
  "exec_feeds (XLine _ line) = [FLine line]"
| "exec_feeds (XSeed es) = [FSeed es]"
| "exec_feeds (XEmit _) = []"

lemma exec_line_fields:
  "xs_stderr (exec_line pj k l st) = xs_stderr st @ stderr_text (XLine k l)"
  "xs_progress (exec_line pj k l st) = xs_progress st"
  by (cases k; simp add: exec_line_def Let_def split: prod.split)+

lemma exec_line_tracker:
  "\<exists>s. xs_tracker (exec_line pj k l st) = snd (ingest_json_log_line pj l (s, xs_tracker st))"
  unfolding exec_line_def Let_def prod.case_eq_if by (rule exI) simp

lemma exec_step_stderr: "xs_stderr (exec_step pj e st) = xs_stderr st @ stderr_text e"
  by (cases e) (simp_all add: exec_line_fields exec_seed_def exec_emit_def Let_def)

lemma exec_step_progress: "length (xs_progress (exec_step pj e st)) = length (xs_progress st) + emits e"
  by (cases e) (simp_all add: exec_line_fields exec_seed_def exec_emit_def Let_def)

lemma exec_step_tracker:
  "xs_tracker (exec_step pj e st) =
     fold tracker_prim (concat (map (feed_ops pj) (exec_feeds e))) (xs_tracker st)"
proof (cases e)
  case (XLine k l)
  obtain s where "xs_tracker (exec_line pj k l st) = snd (ingest_json_log_line pj l (s, xs_tracker st))"
    using exec_line_tracker by blast
  with XLine tracker_feed_prims [of pj "FLine l" "(s, xs_tracker st)"] show ?thesis by simp
qed (simp_all add: exec_seed_def exec_emit_def Let_def seed_pending_prims)

lemma exec_run:
  "xs_stderr (fold (exec_step pj) es st) = xs_stderr st @ concat (map stderr_text es)"
  "length (xs_progress (fold (exec_step pj) es st)) = length (xs_progress st) + sum_list (map emits es)"
  "tracker_inv (xs_tracker st) \<Longrightarrow> tracker_inv (xs_tracker (fold (exec_step pj) es st))"
  by (induction es arbitrary: st)
    (simp_all add: exec_step_stderr exec_step_progress exec_step_tracker tracker_inv_prims feeds_ok)

lemma exec_run_from:
  "xs_stderr (fold (exec_step pj) es (exec_emit t exec_init)) = concat (map stderr_text es)"
  "length (xs_progress (fold (exec_step pj) es (exec_emit t exec_init))) = Suc (sum_list (map emits es))"
  by (simp_all add: exec_run exec_emit_def exec_init_def Let_def)

text \<open>The result record of a run: of \<open>Ok\<close>, or the partial one inside the error.\<close>

fun run_result :: "(sync_failed_error, sync_result) result \<Rightarrow> sync_result" where
  "run_result (Inr r) = r"
| "run_result (Inl e) = sf_result e"

text \<open>
  C34: the outcome of a streamed run. However lines, listings and emissions interleaved, the
  run succeeds exactly when the process exited with 0 and nobody cancelled it; it is reported
  as cancelled exactly when the process ended and the token was cancelled; and success or not,
  its result carries every line of stderr, in order, and the exit code of the process, and the
  callback got the first snapshot and one per emission.
\<close>

theorem execute_outcome:
  "case execute parse_json args started ended events late io_result cancelled of
     (r, progress) \<Rightarrow>
       ((\<exists>res. r = Ok res) \<longleftrightarrow> io_result = Inr 0 \<and> \<not> cancelled) \<and>
       ((\<exists>e. r = Err e \<and> sf_cancelled e) \<longleftrightarrow> (\<exists>code. io_result = Inr code) \<and> cancelled) \<and>
       sr_stderr (run_result r) = concat (map stderr_text events) \<and>
       sr_exit_code (run_result r) = (case io_result of Inl _ \<Rightarrow> -1 | Inr code \<Rightarrow> code) \<and>
       length progress = Suc (sum_list (map emits events))"
proof -
  let ?st = "fold (exec_step parse_json) events (exec_emit started exec_init)"
  have late: "xs_stderr (case late of Some es \<Rightarrow> exec_seed es ?st | None \<Rightarrow> ?st) = xs_stderr ?st"
    "xs_progress (case late of Some es \<Rightarrow> exec_seed es ?st | None \<Rightarrow> ?st) = xs_progress ?st"
    by (simp_all add: exec_seed_def split: option.split)
  show ?thesis
    by (auto simp: execute_def Let_def late exec_run_from sync_result_default_def split: sum.split)
qed

lemma exec_progress_rows:
  assumes "tracker_inv (xs_tracker st)"
    and "\<forall>p \<in> set (xs_progress st). distinct (map ft_name (filter (\<lambda>r. ft_status r \<noteq> ''pending'') (st_file_transfers p)))"
  shows "\<forall>p \<in> set (xs_progress (exec_step pj e st)).
    distinct (map ft_name (filter (\<lambda>r. ft_status r \<noteq> ''pending'') (st_file_transfers p)))"
proof (cases e)
  case (XEmit t)
  have names: "map ft_name (map (the \<circ> tr_by_name (xs_tracker st)) (tr_order (xs_tracker st))) = tr_order (xs_tracker st)"
    using tracker_rows_named [OF assms(1)] by (auto intro: map_idI)
  have "distinct (map ft_name (map (the \<circ> tr_by_name (xs_tracker st)) (tr_order (xs_tracker st))))"
    unfolding names using assms(1) by (simp add: tracker_inv_def)
  then have "distinct (map ft_name (filter (\<lambda>r. ft_status r \<noteq> ''pending'')
      (tracker_snapshot (xs_tracker st) n)))" for n
    unfolding tracker_snapshot_rows [OF assms(1)]
    by (simp add: pending_row_def file_transfer_new_def distinct_map_filter)
  with XEmit assms(2) show ?thesis by (simp add: exec_emit_def Let_def)
qed (use assms in \<open>simp_all add: exec_line_fields exec_seed_def\<close>)

lemma exec_progress_rows_run:
  assumes "tracker_inv (xs_tracker st)"
    and "\<forall>p \<in> set (xs_progress st). distinct (map ft_name (filter (\<lambda>r. ft_status r \<noteq> ''pending'') (st_file_transfers p)))"
  shows "\<forall>p \<in> set (xs_progress (fold (exec_step pj) es st)).
    distinct (map ft_name (filter (\<lambda>r. ft_status r \<noteq> ''pending'') (st_file_transfers p)))"
  using assms
proof (induction es arbitrary: st)
  case (Cons e es)
  have inv: "tracker_inv (xs_tracker (exec_step pj e st))"
    using Cons.prems(1) by (simp add: exec_step_tracker tracker_inv_prims feeds_ok)
  from Cons.IH [OF inv exec_progress_rows [OF Cons.prems]] show ?case by simp
qed simp

text \<open>
  The rows the callback is shown: in every snapshot of a run each file that has started
  (or finished, or failed) appears once, however its lines and listings interleaved.
\<close>

lemma progress_rows_unique:
  "case execute parse_json args started ended events late io_result cancelled of
     (r, progress) \<Rightarrow> list_all (\<lambda>p.
       distinct (map ft_name (filter (\<lambda>r. ft_status r \<noteq> ''pending'') (st_file_transfers p)))) progress"
proof -
  let ?start = "exec_emit started exec_init"
  let ?st = "fold (exec_step parse_json) events ?start"
  have late: "xs_progress (case late of Some es \<Rightarrow> exec_seed es ?st | None \<Rightarrow> ?st) = xs_progress ?st"
    by (simp add: exec_seed_def split: option.split)
  have "tracker_inv (xs_tracker ?start)"
    using tracker_inv_new by (simp add: exec_emit_def exec_init_def Let_def)
  moreover have "\<forall>p \<in> set (xs_progress ?start). distinct (map ft_name
       (filter (\<lambda>r. ft_status r \<noteq> ''pending'') (st_file_transfers p)))"
    by (simp add: exec_emit_def exec_init_def Let_def tracker_snapshot_def tracker_new_def
        sync_stats_default_def)
  ultimately have "\<forall>p \<in> set (xs_progress ?st). distinct (map ft_name
      (filter (\<lambda>r. ft_status r \<noteq> ''pending'') (st_file_transfers p)))"
    by (rule exec_progress_rows_run)
  then show ?thesis by (simp add: execute_def Let_def late list_all_iff)
qed

definition demo_listing :: "file_entry list" where
  "demo_listing = [\<lparr> fe_name = ''b'', fe_size = 1, fe_mime_type = [], fe_is_dir = False,
     fe_mod_time = [], fe_path = [], fe_id = [] \<rparr>]"

definition demo_parse :: "string \<Rightarrow> json option" where
  "demo_parse line = Some (JObject [(''level'', JString ''info''), (''msg'', JString ''Copied (new)''),
     (''object'', JString ''a'')])"

section \<open>Commands\<close>

lemma run_checked_history: "snd (run_checked runner args h) = h @ [args]"
  by (simp add: run_checked_def runner_run_def Let_def)

lemma op_drop_history: "snd (op_drop m h) = snd (m h)"
  by (simp add: op_drop_def op_map_def split: prod.split)

lemma op_drop_result:
  "fst (op_drop m h) = (case fst (m h) of Err e \<Rightarrow> Err e | Ok _ \<Rightarrow> Ok ())"
  by (simp add: op_drop_def op_map_def split: prod.split sum.split)

lemma run_checked_ok:
  "(\<exists>out. fst (run_checked runner args h) = Ok out) \<longleftrightarrow>
   (\<exists>po. runner h args = Inr po \<and> po_exit_code po = 0)"
  by (auto simp: run_checked_def runner_run_def Let_def split: sum.splits)

lemma op_drop_cases:
  obtains "op_drop (run_checked runner args) h = (Ok (), h @ [args])"
      "\<exists>po. runner h args = Inr po \<and> po_exit_code po = 0"
  | e where "op_drop (run_checked runner args) h = (Err e, h @ [args])"
      "\<not> (\<exists>po. runner h args = Inr po \<and> po_exit_code po = 0)"
proof (cases "fst (run_checked runner args h)")
  case (Inl e)
  then have "op_drop (run_checked runner args) h = (Err e, h @ [args])"
    using op_drop_result [of "run_checked runner args" h] op_drop_history [of "run_checked runner args" h]
    by (simp add: run_checked_history prod_eq_iff)
  with Inl run_checked_ok [of runner args h] that(2) show thesis by auto
next
  case (Inr out)
  then have "op_drop (run_checked runner args) h = (Ok (), h @ [args])"
    using op_drop_result [of "run_checked runner args" h] op_drop_history [of "run_checked runner args" h]
    by (simp add: run_checked_history prod_eq_iff)
  with Inr run_checked_ok [of runner args h] that(1) show thesis by auto
qed

text \<open>Whether rclone answers a command with exit code 0 after a history.\<close>

definition succeeds :: "runner \<Rightarrow> history \<Rightarrow> string list \<Rightarrow> bool" where
  "succeeds runner h args \<longleftrightarrow>
     (case runner h args of Inr po \<Rightarrow> po_exit_code po = 0 | Inl _ \<Rightarrow> False)"

lemma succeeds_iff: "succeeds runner h args \<longleftrightarrow> (\<exists>po. runner h args = Inr po \<and> po_exit_code po = 0)"
  by (simp add: succeeds_def split: sum.split)

text \<open>
  A remote is kept only when it works. Creating one succeeds exactly when rclone created
  it and then listed it; if creation fails nothing else is run, and if the listing fails the
  remote is deleted again before the listing's error is returned.
\<close>

lemma create_remote_verified_cleans_up:
  "let create = create_args cp name type kvs; h1 = h @ [create]; h2 = h1 @ [test_args cp name]
   in case create_remote_verified runner cp name type kvs h of
        (Ok _, h') \<Rightarrow> succeeds runner h create \<and> succeeds runner h1 (test_args cp name) \<and> h' = h2
      | (Err e, h') \<Rightarrow>
          (\<not> succeeds runner h create \<and> h' = h1 \<and>
             fst (create_remote runner cp name type kvs h) = Err e) \<or>
          (succeeds runner h create \<and> \<not> succeeds runner h1 (test_args cp name) \<and>
             h' = h2 @ [delete_args cp name] \<and> fst (test_remote runner cp name h1) = Err e)"
  (is "let create = ?c; h1 = _; h2 = _ in _")
proof (cases rule: op_drop_cases [of runner ?c h])
  case (2 e)
  then show ?thesis
    by (simp add: create_remote_verified_def create_remote_def succeeds_iff Let_def)
next
  case 1
  note c = 1
  let ?h1 = "h @ [?c]"
  show ?thesis
  proof (cases rule: op_drop_cases [of runner "test_args cp name" ?h1])
    case 1
    with c show ?thesis
      by (simp add: create_remote_verified_def create_remote_def test_remote_def succeeds_iff Let_def)
  next
    case (2 e)
    with c show ?thesis
      by (simp add: create_remote_verified_def create_remote_def test_remote_def delete_remote_def
          op_drop_history run_checked_history succeeds_iff Let_def)
  qed
qed

lemma find_exec: "find P xs = Some x \<Longrightarrow> P x \<and> x \<in> set xs"
  by (auto simp: find_Some_iff)

lemma look_path_exec: "look_path_in is_exec name env = Some b \<Longrightarrow> is_exec b"
  by (auto simp: look_path_in_def dest: find_exec)

lemma bundled_exec: "bundled_binary_for is_exec exe = Some b \<Longrightarrow> is_exec b"
  by (auto simp: bundled_binary_for_def Let_def split: if_splits dest!: find_exec)

text \<open>
  The binary that is run: resolution only ever answers an executable file; without an
  override the copy shipped beside the program wins over \<open>PATH\<close>, and an override is taken from
  \<open>PATH\<close> first, from the path itself second, and never replaced by the shipped copy.
\<close>

lemma resolve_binary_executable:
  "case resolve_binary_with is_exec path path_env exe of
     Ok b \<Rightarrow> is_exec b \<and>
       (case path of
          Some p \<Rightarrow> p = [] \<or> look_path_in is_exec p path_env = Some b \<or>
                    (look_path_in is_exec p path_env = None \<and> b = p)
        | None \<Rightarrow> True) \<and>
       (\<forall>shipped. path \<in> {None, Some []} \<longrightarrow> Option.bind exe (bundled_binary_for is_exec) = Some shipped \<longrightarrow>
          b = shipped)
   | Err e \<Rightarrow>
       (\<forall>p. path = Some p \<and> p \<noteq> [] \<longrightarrow> \<not> is_exec p \<and> look_path_in is_exec p path_env = None) \<and>
       (path \<in> {None, Some []} \<longrightarrow> Option.bind exe (bundled_binary_for is_exec) = None \<and>
          look_path_in is_exec ''rclone'' path_env = None)"
proof (cases "Option.bind exe (bundled_binary_for is_exec)")
  case None
  then show ?thesis
    by (auto simp: resolve_binary_with_def dest: look_path_exec split: option.split)
next
  case (Some b)
  then have "is_exec b" by (auto simp: Option.bind_eq_Some_conv dest: bundled_exec)
  with Some show ?thesis
    by (auto simp: resolve_binary_with_def dest: look_path_exec split: option.split)
qed

lemma pump_lines_step:
  "pump_lines [] = []"
  "CHR 0x0A \<notin> set l \<Longrightarrow> pump_lines (l @ CHR 0x0A # r) = l # pump_lines r"
  "CHR 0x0A \<notin> set l \<Longrightarrow> l \<noteq> [] \<Longrightarrow> pump_lines l = [l]"
proof -
  show e: "pump_lines [] = []" by (subst pump_lines.simps) simp
  have t: "takeWhile (\<lambda>c. c \<noteq> CHR 0x0A) (l @ CHR 0x0A # r) = l"
    "dropWhile (\<lambda>c. c \<noteq> CHR 0x0A) (l @ CHR 0x0A # r) = CHR 0x0A # r" if "CHR 0x0A \<notin> set l"
    using that by (induction l) auto
  show "CHR 0x0A \<notin> set l \<Longrightarrow> pump_lines (l @ CHR 0x0A # r) = l # pump_lines r"
    using t by (subst pump_lines.simps) simp
  assume l: "CHR 0x0A \<notin> set l" "l \<noteq> []"
  then have t1: "takeWhile (\<lambda>c. c \<noteq> CHR 0x0A) l = l" and t2: "dropWhile (\<lambda>c. c \<noteq> CHR 0x0A) l = []"
    by (auto simp: takeWhile_eq_all_conv dropWhile_eq_Nil_conv)
  show "pump_lines l = [l]" by (subst pump_lines.simps) (simp only: l t1 t2 e if_False drop_Nil)
qed

text \<open>
  No output is lost or invented between the process and the line handlers: the lines read
  from a stream contain no line feed, and joined again with one after each they are the stream,
  up to the line feed its last line may lack.
\<close>

lemma pump_lines_exact:
  "list_all (\<lambda>l. CHR 0x0A \<notin> set l) (pump_lines s) \<and>
   concat (map (\<lambda>l. l @ [CHR 0x0A]) (pump_lines s)) =
     (if s = [] then [] else if last s = CHR 0x0A then s else s @ [CHR 0x0A])"
proof (induction "length s" arbitrary: s rule: less_induct)
  case less
  show ?case
  proof (cases "CHR 0x0A \<in> set s")
    case True
    then obtain l r where s: "s = l @ CHR 0x0A # r" "CHR 0x0A \<notin> set l" by (metis split_list_first)
    with less [of r] show ?thesis by (simp add: pump_lines_step)
  next
    case False
    then have "s \<noteq> [] \<Longrightarrow> last s \<noteq> CHR 0x0A" by (metis last_in_set)
    with False show ?thesis by (cases "s = []") (auto simp: pump_lines_step)
  qed
qed

end
