(* ===== verification/SyncTypes.thy ===== *)
theory SyncTypes
  imports EventBus Client
begin

text \<open>
  \<open>crates/gn-drive-core/src/sync_engine.rs\<close>, the parts without engine state: errors, tasks and
  their snapshots, the mapping of a profile to rclone flags, the progress event and the history
  row of a run, and the clean-up of an rclone error for display. Times are nanoseconds;
  \<open>rfc3339\<close> formats them and is a parameter.
\<close>

section \<open>Errors and tasks\<close>

datatype sync_engine_error =
    NotRunning
  | StoreNotReady
  | ProfileBusy
  | TaskFailed string
  | TaskCancelled
  | TaskNotFound
  | EngineStore store_error

fun sync_engine_error_display :: "sync_engine_error \<Rightarrow> string" where
  "sync_engine_error_display NotRunning = ''sync engine is not running''"
| "sync_engine_error_display StoreNotReady = ''sync engine has no data plane''"
| "sync_engine_error_display ProfileBusy = ''a sync for this profile is already running''"
| "sync_engine_error_display (TaskFailed m) = m"
| "sync_engine_error_display TaskCancelled = ''task was cancelled''"
| "sync_engine_error_display TaskNotFound = ''task not found''"
| "sync_engine_error_display (EngineStore e) = store_error_display e"

record task_snapshot =
  ts_id :: string
  ts_name :: string
  ts_action :: string
  ts_status :: string
  ts_stats :: sync_stats
  ts_started_at :: int
  ts_ended_at :: "int option"

text \<open>\<open>SyncTask\<close> with its \<open>TaskState\<close>; \<open>t_cancelled\<close> is its token.\<close>

record sync_task =
  t_id :: string
  t_name :: string
  t_action :: string
  t_status :: string
  t_error :: string
  t_stats :: sync_stats
  t_started_at :: int
  t_ended_at :: "int option"
  t_cancelled :: bool

definition task_new :: "int \<Rightarrow> string \<Rightarrow> string \<Rightarrow> string \<Rightarrow> sync_task" where
  "task_new now i name action = \<lparr> t_id = i, t_name = name, t_action = action, t_status = ''running'',
     t_error = [], t_stats = sync_stats_default, t_started_at = now, t_ended_at = None,
     t_cancelled = False \<rparr>"

definition task_cancel :: "sync_task \<Rightarrow> sync_task" where
  "task_cancel t = t\<lparr>t_cancelled := True, t_status := ''cancelled''\<rparr>"

definition task_snapshot_of :: "sync_task \<Rightarrow> task_snapshot" where
  "task_snapshot_of t = \<lparr> ts_id = t_id t, ts_name = t_name t, ts_action = t_action t,
     ts_status = t_status t, ts_stats = t_stats t, ts_started_at = t_started_at t,
     ts_ended_at = t_ended_at t \<rparr>"

record task_outcome =
  to_status :: string
  to_err_msg :: string

definition outcome_result :: "task_outcome \<Rightarrow> (sync_engine_error, unit) result" where
  "outcome_result out =
     (if to_status out = ''completed'' then Ok ()
      else if to_status out = ''cancelled'' then Err TaskCancelled
      else Err (TaskFailed (to_err_msg out)))"

section \<open>Text\<close>

definition is_ws_trim :: "char \<Rightarrow> bool" where
  "is_ws_trim c \<longleftrightarrow> c = CHR 0x09 \<or> (is_whitespace c \<and> c \<noteq> CHR 0x0A \<and> c \<noteq> CHR 0x0D)"

definition trim_ws :: "string \<Rightarrow> string" where
  "trim_ws s = trim_by is_ws_trim s"

definition sanitize_rclone_err :: "string \<Rightarrow> string" where
  "sanitize_rclone_err s =
     (let lower = to_lowercase s in
      if str_contains lower ''signal: killed'' \<or> str_contains lower ''signal: interrupt''
         \<or> str_contains lower ''context canceled'' \<or> str_contains lower ''context cancelled''
         \<or> str_contains lower ''cancelled'' then []
      else let out = (case find_sub ''(stderr:'' s of Some i \<Rightarrow> trim_ws (take i s) | None \<Rightarrow> s) in
        if starts_with ''{'' (trim_ws out) then ''sync failed'' else out)"

definition FLOW_SCHEDULE_PREFIX :: string where "FLOW_SCHEDULE_PREFIX = ''flow:''"

definition flow_schedule_id :: "string \<Rightarrow> string" where
  "flow_schedule_id flow_id = FLOW_SCHEDULE_PREFIX @ trim_ws flow_id"

section \<open>Profile to flags\<close>

definition pos_or :: "int option \<Rightarrow> int \<Rightarrow> int" where
  "pos_or v d = (case v of Some n \<Rightarrow> if n > 0 then n else d | None \<Rightarrow> d)"

definition profile_flags_of :: "profile \<Rightarrow> profile_flags" where
  "profile_flags_of p =
     (let f = profile_flags_default\<lparr>
          pf_transfers := p_parallel p, pf_dry_run := p_dry_run p, pf_max_age := p_max_age p,
          pf_min_age := p_min_age p, pf_max_size := p_max_size p, pf_min_size := p_min_size p,
          pf_exclude_if_present := p_exclude_if_present p, pf_includes := p_included_paths p,
          pf_excludes := p_excluded_paths p, pf_buffer_size := p_buffer_size p,
          pf_max_duration := p_max_duration p, pf_retries_sleep := p_retries_sleep p,
          pf_conn_timeout := p_conn_timeout p, pf_io_timeout := p_io_timeout p,
          pf_order_by := p_order_by p, pf_check_first := p_check_first p,
          pf_immutable := p_immutable p, pf_max_transfer := p_max_transfer p,
          pf_max_delete_size := p_max_delete_size p, pf_suffix := p_suffix p,
          pf_suffix_keep_extension := p_suffix_keep_extension p, pf_backup_dir := p_backup_path p,
          pf_size_only := p_size_only p, pf_update_mode := p_update_mode p,
          pf_ignore_existing := p_ignore_existing p, pf_delete_excluded := p_delete_excluded p,
          pf_delete_timing := p_delete_timing p, pf_conflict_resolve := p_conflict_resolution p,
          pf_conflict_loser := p_conflict_loser p, pf_conflict_suffix := p_conflict_suffix p,
          pf_resilient := p_resilient p, pf_max_lock := p_max_lock p,
          pf_check_access := p_check_access p \<rparr>
      in f\<lparr> pf_bandwidth := (if p_bandwidth p > 0 then show_int (p_bandwidth p) @ ''M'' else pf_bandwidth f),
            pf_tps_limit := (case p_tps_limit p of
                Some v \<Rightarrow> if f64_pos v then v else pf_tps_limit f | None \<Rightarrow> pf_tps_limit f),
            pf_multi_thread_streams := pos_or (p_multi_thread_streams p) (pf_multi_thread_streams f),
            pf_retries := pos_or (p_retries p) (pf_retries f),
            pf_low_level_retries := pos_or (p_low_level_retries p) (pf_low_level_retries f),
            pf_max_delete := pos_or (p_max_delete p) (pf_max_delete f),
            pf_max_depth := pos_or (p_max_depth p) (pf_max_depth f) \<rparr>)"

section \<open>Events and history of a run\<close>

definition progress_event ::
  "int \<Rightarrow> string \<Rightarrow> string \<Rightarrow> string \<Rightarrow> string \<Rightarrow> sync_stats \<Rightarrow> string \<Rightarrow> sync_progress_event" where
  "progress_event now task_id profile_id action state s err_msg = \<lparr>
     spe_timestamp = now, spe_task_id = task_id, spe_profile_id = profile_id, spe_action = action,
     spe_state = state, spe_transferred = st_bytes s, spe_total = st_bytes_total s,
     spe_bytes_per_sec = st_speed s, spe_eta = st_eta s, spe_errors = st_errors s,
     spe_current_file = st_current_file s, spe_stage = st_stage s, spe_stage_detail = st_stage_detail s,
     spe_files_transferred = st_files s, spe_total_files = st_files_total s, spe_checks = st_checks s,
     spe_total_checks = st_checks_total s, spe_deletes = st_deletes s, spe_renames = st_renames s,
     spe_transfers = st_file_transfers s, spe_error_message = err_msg \<rparr>"

text \<open>\<open>(b - a).num_seconds()\<close>: whole seconds, rounded towards zero.\<close>

definition num_seconds :: "int \<Rightarrow> int \<Rightarrow> int" where
  "num_seconds a b = (if a \<le> b then (b - a) div 1000000000 else - ((a - b) div 1000000000))"

definition history_done ::
  "(int \<Rightarrow> string) \<Rightarrow> string \<Rightarrow> string \<Rightarrow> string \<Rightarrow> string \<Rightarrow> int \<Rightarrow> int \<Rightarrow> sync_stats \<Rightarrow> string \<Rightarrow> history_entry" where
  "history_done rfc3339 task_id profile_name action state started_at ended_at stats error_message = \<lparr>
     h_id = task_id, h_profile_name = profile_name, h_action = action, h_state = state,
     h_started_at = rfc3339 started_at, h_finished_at = rfc3339 ended_at,
     h_duration = num_seconds started_at ended_at, h_bytes = st_bytes stats, h_errors = st_errors stats,
     h_files = st_files stats, h_error_message = error_message \<rparr>"

definition history_running :: "(int \<Rightarrow> string) \<Rightarrow> string \<Rightarrow> string \<Rightarrow> string \<Rightarrow> int \<Rightarrow> history_entry" where
  "history_running rfc3339 task_id profile_name action started_at = \<lparr>
     h_id = task_id, h_profile_name = profile_name, h_action = action, h_state = ''running'',
     h_started_at = rfc3339 started_at, h_finished_at = [], h_duration = 0, h_bytes = 0, h_errors = 0,
     h_files = 0, h_error_message = [] \<rparr>"

definition run_config :: "profile \<Rightarrow> string \<Rightarrow> sync_config" where
  "run_config p action = sync_config_default\<lparr>
     cfg_action := (case action_parse action of Some a \<Rightarrow> a | None \<Rightarrow> Push),
     cfg_source := p_from p, cfg_dest := p_to p, cfg_profile := Some (profile_flags_of p)\<rparr>"

section \<open>What of a profile reaches rclone\<close>

text \<open>The fields of a profile that no argument depends on.\<close>

lemma ignored_profile_fields:
  "profile_flags_of (p\<lparr>p_use_regex := a, p_filter_from_file := b, p_fast_list := c, p_cache_path := d\<rparr>)
     = profile_flags_of p"
  by (simp add: profile_flags_of_def Let_def)

lemma profile_settings_reach:
  assumes "p_from p \<noteq> []" "p_to p \<noteq> []"
  shows "\<exists>args opts. build_args config_path (run_config p action) = Ok args \<and>
    walk_flags (drop 3 args) = Some opts \<and>
    ((''--dry-run'', None) \<in> set opts \<longleftrightarrow> p_dry_run p \<or> action = ''dry-run'') \<and>
    ((''--delete-excluded'', None) \<in> set opts \<longleftrightarrow> p_delete_excluded p) \<and>
    (\<forall>v. (''--max-delete'', v) \<in> set opts \<longleftrightarrow> (\<exists>n > 0. p_max_delete p = Some n \<and> v = Some (show_int n))) \<and>
    (\<forall>v. (''--backup-dir'', v) \<in> set opts \<longleftrightarrow> p_backup_path p \<noteq> [] \<and> v = Some (p_backup_path p)) \<and>
    (\<forall>v. (''--exclude'', v) \<in> set opts \<longleftrightarrow>
       (\<exists>w \<in> set (p_excluded_paths p). trim w \<noteq> [] \<and> v = Some (trim w)))"
proof -
  let ?cfg = "run_config p action"
  obtain args where a: "build_args config_path ?cfg = Ok args"
    using assms by (simp add: build_args_def resolve_endpoints_def run_config_def)
  have act: "cfg_action ?cfg = DryRun \<longleftrightarrow> action = ''dry-run''"
    using action_parse_Some [of action DryRun]
    by (auto simp: run_config_def split: option.split)
  have prof: "cfg_profile ?cfg = Some (profile_flags_of p)" by (simp add: run_config_def)
  have cap: "pf_max_delete (profile_flags_of p) = pos_or (p_max_delete p) 0"
    by (simp add: profile_flags_of_def Let_def profile_flags_default_def)
  have md: "(0 < pf_max_delete (profile_flags_of p) \<and> v = Some (show_int (pf_max_delete (profile_flags_of p))))
      \<longleftrightarrow> (\<exists>n > 0. p_max_delete p = Some n \<and> v = Some (show_int n))" for v
    by (auto simp: cap pos_or_def split: option.splits)
  have rest: "pf_dry_run (profile_flags_of p) = p_dry_run p"
    "pf_delete_excluded (profile_flags_of p) = p_delete_excluded p"
    "pf_backup_dir (profile_flags_of p) = p_backup_path p"
    "pf_excludes (profile_flags_of p) = p_excluded_paths p"
    by (simp_all add: profile_flags_of_def Let_def)
  show ?thesis
    using a build_args_walk [OF a]
    by (intro exI [of _ args] exI [of _ "cfg_opts config_path ?cfg"])
      (simp only: cfg_opts_mem profile_has_def prof option.case act md rest disj_commute simp_thms)
qed

text \<open>
  C30: a profile's safety settings reach rclone. For a profile with both ends set, the arguments
  of a run are always built, and rclone is told to dry-run, to delete excluded files, to cap
  deletions at a number, to keep replaced files in a backup directory, and which paths to
  exclude, exactly as the profile says; an unset, zero or negative deletion cap sends none.
\<close>

theorem profile_reaches_rclone:
  assumes "p_from p \<noteq> []" "p_to p \<noteq> []"
  shows "\<exists>args opts. build_args config_path (run_config p action) = Ok args \<and>
    walk_flags (drop 3 args) = Some opts \<and>
    ((''--dry-run'', None) \<in> set opts \<longleftrightarrow> p_dry_run p \<or> action = ''dry-run'') \<and>
    ((''--delete-excluded'', None) \<in> set opts \<longleftrightarrow> p_delete_excluded p) \<and>
    (\<forall>v. (''--max-delete'', v) \<in> set opts \<longleftrightarrow> (\<exists>n > 0. p_max_delete p = Some n \<and> v = Some (show_int n))) \<and>
    (\<forall>v. (''--backup-dir'', v) \<in> set opts \<longleftrightarrow> p_backup_path p \<noteq> [] \<and> v = Some (p_backup_path p)) \<and>
    (\<forall>v. (''--exclude'', v) \<in> set opts \<longleftrightarrow>
       (\<exists>w \<in> set (p_excluded_paths p). trim w \<noteq> [] \<and> v = Some (trim w)))"
  using assms by (rule profile_settings_reach)

theorem profile_reaches_rclone_witness:
  "\<exists>args opts. build_args ''c'' (run_config (profile_default\<lparr>p_from := ''/a'', p_to := ''r:b'',
      p_max_delete := Some 25\<rparr>) ''push'') = Ok args \<and> walk_flags (drop 3 args) = Some opts \<and>
     (''--max-delete'', Some ''25'') \<in> set opts"
proof -
  let ?p = "profile_default\<lparr>p_from := ''/a'', p_to := ''r:b'', p_max_delete := Some 25\<rparr>"
  have "show_int 25 = ''25''" by code_simp
  then have "\<exists>n > 0. p_max_delete ?p = Some n \<and> Some ''25'' = Some (show_int n)" by auto
  moreover have "p_from ?p \<noteq> []" "p_to ?p \<noteq> []" by simp_all
  ultimately show ?thesis using profile_reaches_rclone [of ?p "''c''" "''push''"] by blast
qed

end
