(* ===== verification/CronParse.thy ===== *)
theory CronParse
  imports Numbers "HOL-Library.Word"
begin

text \<open>
  \<open>crates/gn-drive-core/src/cron.rs\<close>, expressions: the 64-bit field masks, the field parser,
  the descriptors and \<open>@every\<close> durations. \<open>mask_range\<close> counts with \<open>u32\<close> additions that wrap,
  as in the release build.
\<close>

unbundle bit_operations_syntax

datatype cron_error = CronEmpty | BadFieldCount nat | CronInvalid string

definition MONTH_NAMES :: "string list" where
  "MONTH_NAMES = [''jan'', ''feb'', ''mar'', ''apr'', ''may'', ''jun'', ''jul'', ''aug'', ''sep'',
     ''oct'', ''nov'', ''dec'']"

definition DOW_NAMES :: "string list" where
  "DOW_NAMES = [''sun'', ''mon'', ''tue'', ''wed'', ''thu'', ''fri'', ''sat'']"

section \<open>Field masks\<close>

type_synonym cron_field = "64 word"

definition field_contains :: "cron_field \<Rightarrow> nat \<Rightarrow> bool" where
  "field_contains f v \<longleftrightarrow> v < 64 \<and> drop_bit v f AND 1 = 1"

definition trailing_zeros :: "64 word \<Rightarrow> nat" where
  "trailing_zeros m = (case find (bit m) [0..<64] of Some i \<Rightarrow> i | None \<Rightarrow> 64)"

definition at_or_after :: "cron_field \<Rightarrow> nat \<Rightarrow> nat option" where
  "at_or_after f v =
     (if v \<ge> 64 then None
      else let m = drop_bit v f in if m = 0 then None else Some (v + trailing_zeros m))"

lemma field_contains_bit: "field_contains f v \<longleftrightarrow> v < 64 \<and> bit f v"
  by (auto simp: field_contains_def and_one_eq bit_iff_odd_drop_bit mod_2_eq_odd)

lemma bit_64: "bit (f :: 64 word) v \<Longrightarrow> v < 64"
  using bit_imp_le_length [of f v] by simp

lemma trailing_zeros_bit:
  assumes "m \<noteq> 0"
  shows "trailing_zeros m < 64 \<and> bit m (trailing_zeros m) \<and> (\<forall>j < trailing_zeros m. \<not> bit m j)"
proof -
  have "\<exists>i \<in> set [0..<64]. bit m i"
    using assms bit_64 by (metis atLeast0LessThan bit_eq_iff bit_0_eq bot2E lessThan_iff set_upt bot_apply bot_bool_def)
  then obtain i where i: "find (bit m) [0..<64] = Some i"
    by (metis find_None_iff2 option.exhaust)
  then have "i < 64" "bit m i" "\<forall>j < i. \<not> bit m j" by (auto simp: find_Some_iff)
  with i show ?thesis by (simp add: trailing_zeros_def)
qed

lemma at_or_after_None: "at_or_after f v = None \<longleftrightarrow> (\<forall>k \<ge> v. \<not> field_contains f k)"
proof
  assume n: "at_or_after f v = None"
  show "\<forall>k \<ge> v. \<not> field_contains f k"
  proof (intro allI impI notI)
    fix k assume k: "v \<le> k" "field_contains f k"
    then have "bit (drop_bit v f) (k - v)" by (simp add: bit_drop_bit_eq field_contains_bit)
    then have "drop_bit v f \<noteq> 0" by auto
    with n k show False by (auto simp: at_or_after_def Let_def field_contains_bit split: if_splits)
  qed
next
  assume a: "\<forall>k \<ge> v. \<not> field_contains f k"
  show "at_or_after f v = None"
  proof (rule ccontr)
    assume "at_or_after f v \<noteq> None"
    then have "drop_bit v f \<noteq> 0" by (auto simp: at_or_after_def Let_def split: if_splits)
    then have "bit f (v + trailing_zeros (drop_bit v f))"
      using trailing_zeros_bit [of "drop_bit v f"] by (simp add: bit_drop_bit_eq)
    with a bit_64 [OF this] show False by (simp add: field_contains_bit)
  qed
qed

lemma at_or_after_Some:
  assumes "at_or_after f v = Some k"
  shows "v \<le> k \<and> field_contains f k \<and> (\<forall>j. v \<le> j \<and> j < k \<longrightarrow> \<not> field_contains f j)"
proof -
  have nz: "drop_bit v f \<noteq> 0" and k: "k = v + trailing_zeros (drop_bit v f)"
    using assms by (auto simp: at_or_after_def Let_def split: if_splits)
  from trailing_zeros_bit [OF nz] have b: "bit f k"
    and least: "\<forall>j < trailing_zeros (drop_bit v f). \<not> bit f (v + j)"
    by (simp_all add: k bit_drop_bit_eq)
  have "\<not> field_contains f j" if "v \<le> j" "j < k" for j
    using least that k by (auto simp: field_contains_bit dest: spec [where x = "j - v"])
  with b bit_64 [OF b] k show ?thesis by (auto simp: field_contains_bit)
qed

text \<open>The loop of \<open>mask_range\<close>; the fuel counts its iterations.\<close>

fun mask_loop :: "nat \<Rightarrow> nat \<Rightarrow> nat \<Rightarrow> nat \<Rightarrow> 64 word \<Rightarrow> 64 word option" where
  "mask_loop 0 v hi step m = None"
| "mask_loop (Suc k) v hi step m =
     (if v \<le> hi then mask_loop k ((v + step) mod 2 ^ 32) hi step (m OR push_bit v 1) else Some m)"

definition mask_range :: "nat \<Rightarrow> nat \<Rightarrow> nat \<Rightarrow> 64 word" where
  "mask_range lo hi step = (case mask_loop 66 lo hi step 0 of Some m \<Rightarrow> m | None \<Rightarrow> 0)"

section \<open>Parsing\<close>

fun index_of :: "'a \<Rightarrow> 'a list \<Rightarrow> nat option" where
  "index_of x [] = None"
| "index_of x (y # ys) = (if y = x then Some 0 else map_option Suc (index_of x ys))"

definition parse_bound :: "string \<Rightarrow> string list \<Rightarrow> nat \<Rightarrow> nat option" where
  "parse_bound tok names name_base =
     (case parse_u32 tok of
        Some n \<Rightarrow> Some n
      | None \<Rightarrow> map_option (\<lambda>i. i + name_base) (index_of tok names))"

text \<open>One comma part: its first and last value and its step.\<close>

definition parse_part ::
  "string \<Rightarrow> nat \<Rightarrow> nat \<Rightarrow> string list \<Rightarrow> nat \<Rightarrow> (nat \<times> nat \<times> nat) option" where
  "parse_part part mn mx names name_base =
     (let pieces = split_on CHR ''/'' part in
      if length pieces > 2 then None
      else let has_step = (length pieces = 2) in
        case (if has_step then parse_u32 (pieces ! 1) else Some 1) of
          None \<Rightarrow> None
        | Some step \<Rightarrow>
            if step = 0 then None
            else let range = pieces ! 0 in
              case (if range = ''*'' \<or> range = ''?'' then Some (mn, mx)
                    else if CHR ''-'' \<in> set range then
                      (case split_on CHR ''-'' range of
                         [a, b] \<Rightarrow> (case (parse_bound a names name_base, parse_bound b names name_base) of
                                     (Some lo, Some hi) \<Rightarrow> Some (lo, hi) | _ \<Rightarrow> None)
                       | _ \<Rightarrow> None)
                    else (case parse_bound range names name_base of
                            Some lo \<Rightarrow> Some (lo, if has_step then mx else lo) | None \<Rightarrow> None)) of
                None \<Rightarrow> None
              | Some (lo, hi) \<Rightarrow> if lo < mn \<or> hi > mx \<or> lo > hi then None else Some (lo, hi, step))"

fun parse_parts :: "string list \<Rightarrow> nat \<Rightarrow> nat \<Rightarrow> string list \<Rightarrow> nat \<Rightarrow> 64 word \<Rightarrow> 64 word option" where
  "parse_parts [] mn mx names base acc = Some acc"
| "parse_parts (part # ps) mn mx names base acc =
     (case parse_part part mn mx names base of
        None \<Rightarrow> None
      | Some (lo, hi, step) \<Rightarrow> parse_parts ps mn mx names base (acc OR mask_range lo hi step))"

definition parse_field ::
  "string \<Rightarrow> nat \<Rightarrow> nat \<Rightarrow> string list \<Rightarrow> nat \<Rightarrow> (cron_error, cron_field) result" where
  "parse_field field mn mx names name_base =
     (case parse_parts (split_on CHR '','' (to_lowercase (trim field))) mn mx names name_base 0 of
        Some acc \<Rightarrow> Ok acc | None \<Rightarrow> Err (CronInvalid field))"

definition is_restricted :: "string \<Rightarrow> bool" where
  "is_restricted field \<longleftrightarrow>
     \<not> list_ex (\<lambda>part. hd (split_on CHR ''/'' part) \<in> {''*'', ''?''}) (split_on CHR '','' field)"

fun duration_loop :: "string \<Rightarrow> f64 \<Rightarrow> string \<Rightarrow> (f64 \<times> string) option" where
  "duration_loop [] tot num = Some (tot, num)"
| "duration_loop (c # cs) tot num =
     (if is_ascii_digit c \<or> c = CHR ''.'' then duration_loop cs tot (num @ [c])
      else case parse_f64_decimal num of
             None \<Rightarrow> None
           | Some v \<Rightarrow>
               if c = CHR ''h'' then duration_loop cs (f64_add tot (f64_scale 3600 v)) []
               else if c = CHR ''m'' then duration_loop cs (f64_add tot (f64_scale 60 v)) []
               else if c = CHR ''s'' then duration_loop cs (f64_add tot v) []
               else None)"

definition parse_duration :: "string \<Rightarrow> f64 option" where
  "parse_duration s =
     (case duration_loop s (Fin 0) [] of
        None \<Rightarrow> None
      | Some (tot, num) \<Rightarrow>
          (let tot' = (if num \<noteq> [] then
                         (case parse_f64_decimal num of Some v \<Rightarrow> f64_add tot v | None \<Rightarrow> tot)
                       else tot)
           in if f64_pos tot' then Some tot' else None))"

record cron_schedule =
  cs_seconds :: cron_field
  cs_minutes :: cron_field
  cs_hours :: cron_field
  cs_dom :: cron_field
  cs_months :: cron_field
  cs_dow :: cron_field
  cs_dom_restricted :: bool
  cs_dow_restricted :: bool
  cs_every_seconds :: "int option"

definition every_schedule :: "f64 \<Rightarrow> cron_schedule" where
  "every_schedule d = \<lparr> cs_seconds = mask_range 0 59 1, cs_minutes = mask_range 0 59 1,
     cs_hours = mask_range 0 23 1, cs_dom = mask_range 1 31 1, cs_months = mask_range 1 12 1,
     cs_dow = mask_range 0 6 1, cs_dom_restricted = False, cs_dow_restricted = False,
     cs_every_seconds = Some (max (f64_as_i64 d) 1) \<rparr>"

definition descriptor :: "string \<Rightarrow> string option" where
  "descriptor lower =
     (if lower = ''@yearly'' \<or> lower = ''@annually'' then Some ''0 0 0 1 1 *''
      else if lower = ''@monthly'' then Some ''0 0 0 1 * *''
      else if lower = ''@weekly'' then Some ''0 0 0 * * 0''
      else if lower = ''@daily'' \<or> lower = ''@midnight'' then Some ''0 0 0 * * *''
      else if lower = ''@hourly'' then Some ''0 0 * * * *''
      else None)"

definition dow_sunday :: "cron_field \<Rightarrow> cron_field" where
  "dow_sunday dow = (if field_contains dow 7 then (dow AND NOT (push_bit 7 1)) OR 1 else dow)"

definition schedule_of_fields :: "string list \<Rightarrow> (cron_error, cron_schedule) result" where
  "schedule_of_fields fs =
     (case parse_field (fs ! 0) 0 59 [] 0 of Err e \<Rightarrow> Err e | Ok seconds \<Rightarrow>
      case parse_field (fs ! 1) 0 59 [] 0 of Err e \<Rightarrow> Err e | Ok minutes \<Rightarrow>
      case parse_field (fs ! 2) 0 23 [] 0 of Err e \<Rightarrow> Err e | Ok hours \<Rightarrow>
      case parse_field (fs ! 3) 1 31 [] 0 of Err e \<Rightarrow> Err e | Ok days \<Rightarrow>
      case parse_field (fs ! 4) 1 12 MONTH_NAMES 1 of Err e \<Rightarrow> Err e | Ok months \<Rightarrow>
      case parse_field (fs ! 5) 0 7 DOW_NAMES 0 of Err e \<Rightarrow> Err e | Ok dow \<Rightarrow>
        Ok \<lparr> cs_seconds = seconds, cs_minutes = minutes, cs_hours = hours, cs_dom = days,
             cs_months = months, cs_dow = dow_sunday dow,
             cs_dom_restricted = is_restricted (fs ! 3),
             cs_dow_restricted = is_restricted (fs ! 5), cs_every_seconds = None \<rparr>)"

definition parse_six :: "string \<Rightarrow> (cron_error, cron_schedule) result" where
  "parse_six e =
     (let fs = split_whitespace e in
      if length fs = 5 then schedule_of_fields (''0'' # fs)
      else if length fs = 6 then schedule_of_fields fs
      else Err (BadFieldCount (length fs)))"

definition cron_parse :: "string \<Rightarrow> (cron_error, cron_schedule) result" where
  "cron_parse expr =
     (let e = trim expr in
      if e = [] then Err CronEmpty
      else if starts_with ''@'' e then
        (let lower = to_lowercase e in
         case descriptor lower of
           Some e' \<Rightarrow> parse_six e'
         | None \<Rightarrow>
             (case Option.bind (strip_prefix ''@every '' lower) parse_duration of
                Some d \<Rightarrow> Ok (every_schedule d)
              | None \<Rightarrow> Err (CronInvalid expr)))
      else parse_six e)"

definition normalize_cron :: "string \<Rightarrow> (cron_error, string) result" where
  "normalize_cron expr =
     (let e = trim expr in
      if e = [] then Err CronEmpty
      else if starts_with ''@'' e then
        (case cron_parse e of Err err \<Rightarrow> Err err | Ok _ \<Rightarrow> Ok e)
      else let fs = split_whitespace e in
        if length fs = 5 then Ok (''0 '' @ join '' '' fs)
        else if length fs = 6 then Ok (join '' '' fs)
        else Err (BadFieldCount (length fs)))"

section \<open>The masks of an expression\<close>

lemma mask_loop_up:
  assumes "0 < step" "hi + step < 2 ^ 32" "Suc hi - v < k"
  shows "\<exists>m'. mask_loop k v hi step m = Some m' \<and>
    (\<forall>i. bit m' i \<longleftrightarrow> bit m i \<or> (i < 64 \<and> v \<le> i \<and> i \<le> hi \<and> step dvd i - v))"
  using assms(3)
proof (induction k arbitrary: v m)
  case (Suc k)
  show ?case
  proof (cases "v \<le> hi")
    case True
    then have v': "(v + step) mod 2 ^ 32 = v + step" using assms(2) by (intro mod_less) linarith
    have "Suc hi - (v + step) < k" using Suc.prems True assms(1) by linarith
    from Suc.IH [OF this, of "m OR push_bit v 1"] obtain m'
      where m': "mask_loop k (v + step) hi step (m OR push_bit v 1) = Some m'"
      and b: "\<And>i. bit m' i \<longleftrightarrow> bit (m OR push_bit v 1) i
          \<or> (i < 64 \<and> v + step \<le> i \<and> i \<le> hi \<and> step dvd i - (v + step))" by blast
    have "(v + step \<le> i \<and> step dvd i - (v + step)) \<or> i = v \<longleftrightarrow> v \<le> i \<and> step dvd i - v" for i
    proof
      assume "v \<le> i \<and> step dvd i - v"
      moreover from this have "i = v \<or> v + step \<le> i"
        by (metis assms(1) diff_is_0_eq dvd_imp_le le_add_diff_inverse nat_add_left_cancel_le not_gr_zero
            le_antisym)
      ultimately show "(v + step \<le> i \<and> step dvd i - (v + step)) \<or> i = v"
        by (metis diff_diff_left dvd_diff_nat dvd_refl)
    next
      assume "(v + step \<le> i \<and> step dvd i - (v + step)) \<or> i = v"
      then show "v \<le> i \<and> step dvd i - v"
        by (metis add_leD1 diff_diff_left diff_self_eq_0 dvd_0_right dvd_refl dvd_diffD le_diff_conv2 le_refl
            add.commute)
    qed
    moreover have "bit (push_bit v 1 :: 64 word) i \<longleftrightarrow> i < 64 \<and> i = v" for i
      by (auto simp: bit_exp_iff dest: bit_64)
    ultimately have "bit m' i \<longleftrightarrow> bit m i \<or> (i < 64 \<and> v \<le> i \<and> i \<le> hi \<and> step dvd i - v)" for i
      using b [of i] True by (auto simp: bit_or_iff)
    with m' v' True show ?thesis by simp
  qed (use Suc in auto)
qed simp

lemma mask_loop_wrap:
  assumes "hi < 64" "2 ^ 32 \<le> hi + step" "step < 2 ^ 32" "v + 1 < k" "v \<le> hi"
  shows "\<exists>m'. mask_loop k v hi step m = Some m' \<and>
    (\<forall>i. bit m' i \<longrightarrow> bit m i \<or> i \<le> hi) \<and> (\<forall>i. bit m i \<longrightarrow> bit m' i) \<and> bit m' v"
  using assms(4,5)
proof (induction k arbitrary: v m)
  case (Suc k)
  let ?m = "m OR push_bit v 1"
  have bits: "bit ?m i \<longleftrightarrow> bit m i \<or> i = v" for i
    using Suc.prems(2) assms(1) by (auto simp: bit_or_iff bit_exp_iff dest: bit_64)
  show ?case
  proof (cases "v + step < 2 ^ 32")
    case True
    then have "(v + step) mod 2 ^ 32 = v + step" by simp
    moreover have "\<not> v + step \<le> hi" using assms(1,2) by simp
    moreover obtain k' where "k = Suc k'" using Suc.prems by (cases k) auto
    ultimately have "mask_loop (Suc k) v hi step m = Some ?m" using Suc.prems by simp
    with bits Suc.prems show ?thesis by auto
  next
    case False
    then have v': "(v + step) mod 2 ^ 32 = v + step - 2 ^ 32"
      using assms(1,3) Suc.prems by (subst le_mod_geq) auto
    have "v + step - 2 ^ 32 < v" "v + step - 2 ^ 32 + 1 < k" "v + step - 2 ^ 32 \<le> hi"
      using assms(3) Suc.prems False by linarith+
    with Suc.IH [of "v + step - 2 ^ 32" ?m] obtain m'
      where "mask_loop k (v + step - 2 ^ 32) hi step ?m = Some m'"
        "\<forall>i. bit m' i \<longrightarrow> bit ?m i \<or> i \<le> hi" "\<forall>i. bit ?m i \<longrightarrow> bit m' i" by blast
    with v' bits Suc.prems(2) show ?thesis by auto
  qed
qed simp

lemma mask_range_up:
  assumes "0 < step" "hi + step < 2 ^ 32" "hi < 64"
  shows "bit (mask_range lo hi step) i \<longleftrightarrow> lo \<le> i \<and> i \<le> hi \<and> step dvd i - lo"
proof -
  have "Suc hi - lo < 66" using assms(3) by simp
  then obtain m' where m': "mask_loop 66 lo hi step 0 = Some m'"
    and b: "\<forall>i. bit m' i \<longleftrightarrow> bit (0 :: 64 word) i \<or> (i < 64 \<and> lo \<le> i \<and> i \<le> hi \<and> step dvd i - lo)"
    using mask_loop_up [OF assms(1,2)] by blast
  have eq: "mask_range lo hi step = m'" by (simp only: mask_range_def m' option.case)
  have "bit m' i \<longleftrightarrow> i < 64 \<and> lo \<le> i \<and> i \<le> hi \<and> step dvd i - lo"
    using spec [OF b, of i] by simp
  then show ?thesis unfolding eq using assms(3) by (metis le_less_trans)
qed

lemma mask_range_bits:
  assumes "0 < step" "step < 2 ^ 32" "hi < 64" "lo \<le> hi"
  shows "mask_loop 66 lo hi step 0 \<noteq> None \<and> bit (mask_range lo hi step) lo \<and>
    (\<forall>i. bit (mask_range lo hi step) i \<longrightarrow> i \<le> hi)"
proof -
  have "\<exists>m'. mask_loop 66 lo hi step 0 = Some m' \<and> bit m' lo \<and> (\<forall>i. bit m' i \<longrightarrow> i \<le> hi)"
  proof (cases "hi + step < 2 ^ 32")
    case True
    have "Suc hi - lo < 66" using assms(3) by simp
    then obtain m' where m': "mask_loop 66 lo hi step 0 = Some m'"
      and b: "\<forall>i. bit m' i \<longleftrightarrow> bit (0 :: 64 word) i \<or> (i < 64 \<and> lo \<le> i \<and> i \<le> hi \<and> step dvd i - lo)"
      using mask_loop_up [OF assms(1) True] by blast
    then show ?thesis using assms(3,4) by auto
  next
    case False
    then have "2 ^ 32 \<le> hi + step" "lo + 1 < 66" using assms(3,4) by simp_all
    from mask_loop_wrap [OF assms(3) this(1) assms(2) this(2) assms(4), of 0] show ?thesis by auto
  qed
  then obtain m' where m': "mask_loop 66 lo hi step 0 = Some m'" "bit m' lo" "\<forall>i. bit m' i \<longrightarrow> i \<le> hi"
    by blast
  moreover have "mask_range lo hi step = m'" by (simp only: mask_range_def m' option.case)
  ultimately show ?thesis by simp
qed

lemma parse_u32_bound: "parse_u32 s = Some n \<Longrightarrow> n < 2 ^ 32"
  by (auto simp: parse_u32_def u32_max_def split: option.splits if_splits)

lemma parse_part_range:
  assumes "parse_part part mn mx names base = Some (lo, hi, step)"
  shows "mn \<le> lo \<and> lo \<le> hi \<and> hi \<le> mx \<and> 0 < step \<and> step < 2 ^ 32"
proof -
  obtain step' where "(if length (split_on CHR ''/'' part) = 2
      then parse_u32 (split_on CHR ''/'' part ! 1) else Some 1) = Some step'"
    and "step' = step" "step \<noteq> 0" and r: "\<not> (lo < mn \<or> hi > mx \<or> lo > hi)"
    using assms unfolding parse_part_def Let_def
    by (auto split: if_splits option.splits prod.splits simp del: One_nat_def)
  then have "step < 2 ^ 32" by (auto split: if_splits dest: parse_u32_bound)
  with \<open>step \<noteq> 0\<close> r show ?thesis by auto
qed

lemma parse_parts_bits:
  assumes "parse_parts ps mn mx names base acc = Some f" "mx < 64"
    and "\<forall>i. bit acc i \<longrightarrow> i \<le> mx"
  shows "(\<forall>i. bit f i \<longrightarrow> i \<le> mx) \<and> (\<forall>i. bit acc i \<longrightarrow> bit f i) \<and>
    (ps \<noteq> [] \<longrightarrow> (\<exists>i. mn \<le> i \<and> i \<le> mx \<and> bit f i))"
  using assms
proof (induction ps arbitrary: acc)
  case (Cons part ps)
  obtain lo hi step where p: "parse_part part mn mx names base = Some (lo, hi, step)"
    and r: "parse_parts ps mn mx names base (acc OR mask_range lo hi step) = Some f"
    using Cons.prems(1) by (auto split: option.splits)
  have b: "mn \<le> lo \<and> lo \<le> hi \<and> hi \<le> mx \<and> 0 < step \<and> step < 2 ^ 32"
    using parse_part_range [OF p] .
  then have m: "bit (mask_range lo hi step) lo" "\<forall>i. bit (mask_range lo hi step) i \<longrightarrow> i \<le> hi"
    using mask_range_bits [of step hi lo] Cons.prems(2) by auto
  have "\<forall>i. bit (acc OR mask_range lo hi step) i \<longrightarrow> i \<le> mx"
    using m b Cons.prems(3) by (auto simp: bit_or_iff intro: le_trans)
  from Cons.IH [OF r Cons.prems(2) this] m(1) b show ?case by (auto simp: bit_or_iff)
qed simp

lemma parse_field_bits:
  assumes "parse_field field mn mx names base = Ok f" "mx < 64"
  shows "(\<forall>i. field_contains f i \<longrightarrow> i \<le> mx) \<and> (\<exists>i. mn \<le> i \<and> i \<le> mx \<and> field_contains f i)"
proof -
  obtain ps where "parse_parts ps mn mx names base 0 = Some f" "ps \<noteq> []"
    using assms(1) by (auto simp: parse_field_def split: option.splits)
  from parse_parts_bits [OF this(1) assms(2)] this(2) assms(2) bit_64 [of f]
  show ?thesis by (auto simp: field_contains_bit)
qed

definition field_ok :: "cron_field \<Rightarrow> nat \<Rightarrow> nat \<Rightarrow> bool" where
  "field_ok f mn mx \<longleftrightarrow>
     (\<forall>i. field_contains f i \<longrightarrow> i \<le> mx) \<and> (\<exists>i. mn \<le> i \<and> i \<le> mx \<and> field_contains f i)"

text \<open>A schedule whose six fields hold only values their position can take, and at least one.\<close>

definition schedule_ok :: "cron_schedule \<Rightarrow> bool" where
  "schedule_ok s \<longleftrightarrow> field_ok (cs_seconds s) 0 59 \<and> field_ok (cs_minutes s) 0 59 \<and>
     field_ok (cs_hours s) 0 23 \<and> field_ok (cs_dom s) 1 31 \<and> field_ok (cs_months s) 1 12 \<and>
     field_ok (cs_dow s) 0 6"

lemma parse_field_ok: "parse_field field mn mx names base = Ok f \<Longrightarrow> mx < 64 \<Longrightarrow> field_ok f mn mx"
  using parse_field_bits by (simp add: field_ok_def)

lemma dow_sunday_ok: "field_ok f 0 7 \<Longrightarrow> field_ok (dow_sunday f) 0 6"
proof -
  assume f: "field_ok f 0 7"
  have le7: "i \<le> 7" if "field_contains f i" for i using f that by (simp add: field_ok_def)
  obtain j where j: "field_contains f j" using f by (auto simp: field_ok_def)
  have not7: "bit (NOT (push_bit 7 (1 :: 64 word))) i \<longleftrightarrow> i < 64 \<and> i \<noteq> 7" for i
    by (simp only: bit_not_iff push_bit_of_1 bit_exp_iff) (auto simp: possible_bit_def)
  have bits: "field_contains (dow_sunday f) i
      \<longleftrightarrow> (if field_contains f 7 then i \<noteq> 7 \<and> field_contains f i \<or> i = 0 else field_contains f i)" for i
    unfolding dow_sunday_def field_contains_bit if_distrib [where f = "\<lambda>w. bit w i"]
      bit_or_iff bit_and_iff not7 by (auto simp: bit_1_iff)
  show ?thesis
  proof (cases "field_contains f 7")
    case True
    have "i \<le> 6" if "field_contains (dow_sunday f) i" for i
      using that True le7 [of i] by (auto simp: bits)
    with True show ?thesis by (auto simp: field_ok_def bits)
  next
    case False
    have ne: "i \<noteq> 7" if "field_contains f i" for i using that False by metis
    have "i \<le> 6" if "field_contains f i" for i using le7 [OF that] ne [OF that] by simp
    with False j show ?thesis by (auto simp: field_ok_def bits)
  qed
qed

lemma schedule_of_fields_ok: "schedule_of_fields fs = Ok s \<Longrightarrow> schedule_ok s"
  by (auto simp: schedule_of_fields_def schedule_ok_def dow_sunday_ok parse_field_ok split: sum.splits)

lemma mask_all_ok: "lo \<le> hi \<Longrightarrow> hi < 64 \<Longrightarrow> field_ok (mask_range lo hi 1) lo hi"
  using mask_range_bits [of 1 hi lo] bit_64 by (auto simp: field_ok_def field_contains_bit)

lemma parse_six_ok: "parse_six e = Ok s \<Longrightarrow> schedule_ok s \<and> cs_every_seconds s = None"
proof -
  assume a: "parse_six e = Ok s"
  then obtain fs where f: "schedule_of_fields fs = Ok s"
    by (auto simp: parse_six_def Let_def split: if_splits)
  then have "cs_every_seconds s = None" by (auto simp: schedule_of_fields_def split: sum.splits)
  with schedule_of_fields_ok [OF f] show ?thesis by simp
qed

lemma every_schedule_ok: "schedule_ok (every_schedule d)"
  by (simp add: schedule_ok_def every_schedule_def mask_all_ok del: One_nat_def)

lemma cron_parse_ok:
  "cron_parse expr = Ok s \<Longrightarrow> schedule_ok s \<and> (\<forall>n. cs_every_seconds s = Some n \<longrightarrow> 1 \<le> n)"
  by (auto simp: cron_parse_def Let_def every_schedule_ok dest: parse_six_ok split: if_splits option.splits)
    (auto simp: every_schedule_def)

lemma mask_loop_numeral:
  "mask_loop (numeral k) v hi step m =
     (if v \<le> hi then mask_loop (pred_numeral k) ((v + step) mod 2 ^ 32) hi step (m OR push_bit v 1)
      else Some m)"
  by (simp add: numeral_eq_Suc)

lemma parse_field_one:
  "split_on CHR '','' (to_lowercase (trim field)) = [part] \<Longrightarrow>
   parse_part part mn mx names base = Some (lo, hi, step) \<Longrightarrow>
   parse_field field mn mx names base = Ok (mask_range lo hi step)"
  by (simp add: parse_field_def)

lemmas parse_part_eval = parse_part_def parse_bound_def parse_u32_def parse_digits_def
  digits_value_def char_digit_def is_ascii_digit_def u32_max_def

lemma parse_daily_nine: "cron_parse ''0 9 * * *'' = Ok \<lparr> cs_seconds = 1, cs_minutes = 1,
    cs_hours = 512, cs_dom = 4294967294, cs_months = 8190, cs_dow = 127, cs_dom_restricted = False,
    cs_dow_restricted = False, cs_every_seconds = None \<rparr>"
proof -
  have e: "trim ''0 9 * * *'' = ''0 9 * * *''" "starts_with ''@'' ''0 9 * * *'' = False"
    "split_whitespace ''0 9 * * *'' = [''0'', ''9'', ''*'', ''*'', ''*'']"
    "split_on CHR '','' (to_lowercase (trim ''0'')) = [''0'']"
    "split_on CHR '','' (to_lowercase (trim ''9'')) = [''9'']"
    "split_on CHR '','' (to_lowercase (trim ''*'')) = [''*'']"
    "is_restricted ''*'' = False" by code_simp+
  have p: "parse_part ''0'' 0 59 [] 0 = Some (0, 0, 1)" "parse_part ''9'' 0 23 [] 0 = Some (9, 9, 1)"
    "parse_part ''*'' 1 31 [] 0 = Some (1, 31, 1)" "parse_part ''*'' 1 12 MONTH_NAMES 1 = Some (1, 12, 1)"
    "parse_part ''*'' 0 7 DOW_NAMES 0 = Some (0, 7, 1)"
    by (simp_all add: parse_part_eval)
  have m: "mask_range 0 0 1 = 1" "mask_range 9 9 1 = 512" "mask_range 1 31 1 = 4294967294"
    "mask_range 1 12 1 = 8190" "dow_sunday (mask_range 0 7 1) = 127"
    by (simp_all add: mask_range_def mask_loop_numeral dow_sunday_def field_contains_bit)
  have f: "parse_field ''0'' 0 59 [] 0 = Ok 1" "parse_field ''9'' 0 23 [] 0 = Ok 512"
    "parse_field ''*'' 1 31 [] 0 = Ok 4294967294" "parse_field ''*'' 1 12 MONTH_NAMES 1 = Ok 8190"
    "parse_field ''*'' 0 7 DOW_NAMES 0 = Ok (mask_range 0 7 1)"
    using parse_field_one [OF e(4) p(1)] parse_field_one [OF e(5) p(2)] parse_field_one [OF e(6) p(3)]
      parse_field_one [OF e(6) p(4)] parse_field_one [OF e(6) p(5)] by (simp_all only: m)
  show ?thesis
    by (simp add: cron_parse_def parse_six_def schedule_of_fields_def e f m del: One_nat_def)
qed

lemma parse_feb_30: "cron_parse ''0 0 30 2 *'' = Ok \<lparr> cs_seconds = 1, cs_minutes = 1,
    cs_hours = 1, cs_dom = 1073741824, cs_months = 4, cs_dow = 127, cs_dom_restricted = True,
    cs_dow_restricted = False, cs_every_seconds = None \<rparr>"
proof -
  have e: "trim ''0 0 30 2 *'' = ''0 0 30 2 *''" "starts_with ''@'' ''0 0 30 2 *'' = False"
    "split_whitespace ''0 0 30 2 *'' = [''0'', ''0'', ''30'', ''2'', ''*'']"
    "split_on CHR '','' (to_lowercase (trim ''0'')) = [''0'']"
    "split_on CHR '','' (to_lowercase (trim ''30'')) = [''30'']"
    "split_on CHR '','' (to_lowercase (trim ''2'')) = [''2'']"
    "split_on CHR '','' (to_lowercase (trim ''*'')) = [''*'']"
    "is_restricted ''30'' = True" "is_restricted ''*'' = False" by code_simp+
  have p: "parse_part ''0'' 0 59 [] 0 = Some (0, 0, 1)" "parse_part ''0'' 0 23 [] 0 = Some (0, 0, 1)"
    "parse_part ''30'' 1 31 [] 0 = Some (30, 30, 1)" "parse_part ''2'' 1 12 MONTH_NAMES 1 = Some (2, 2, 1)"
    "parse_part ''*'' 0 7 DOW_NAMES 0 = Some (0, 7, 1)"
    by (simp_all add: parse_part_eval)
  have m: "mask_range 0 0 1 = 1" "mask_range 30 30 1 = 1073741824" "mask_range 2 2 1 = 4" "dow_sunday (mask_range 0 7 1) = 127"
    by (simp_all add: mask_range_def mask_loop_numeral dow_sunday_def field_contains_bit)
  have f: "parse_field ''0'' 0 59 [] 0 = Ok 1" "parse_field ''0'' 0 23 [] 0 = Ok 1"
    "parse_field ''30'' 1 31 [] 0 = Ok 1073741824" "parse_field ''2'' 1 12 MONTH_NAMES 1 = Ok 4"
    "parse_field ''*'' 0 7 DOW_NAMES 0 = Ok (mask_range 0 7 1)"
    using parse_field_one [OF e(4) p(1)] parse_field_one [OF e(4) p(2)] parse_field_one [OF e(5) p(3)]
      parse_field_one [OF e(6) p(4)] parse_field_one [OF e(7) p(5)] by (simp_all only: m)
  show ?thesis
    by (simp add: cron_parse_def parse_six_def schedule_of_fields_def e f m del: One_nat_def)
qed

text \<open>
  An accepted expression is a usable schedule: each of its six fields holds at least one
  value, and only values its position can take (Sunday written as 7 included), and an
  \<open>@every\<close> interval is at least one second.
\<close>

lemma cron_parse_usable:
  assumes "cron_parse expr = Ok s"
  shows "schedule_ok s \<and> (case cs_every_seconds s of Some n \<Rightarrow> 1 \<le> n | None \<Rightarrow> True)"
  using cron_parse_ok [OF assms] by (simp split: option.split)

text \<open>
  The values of a part \<open>lo-hi/step\<close>: as long as \<open>hi + step\<close> fits 32 bits, the loop ends and
  sets exactly \<open>lo\<close>, \<open>lo + step\<close>, \<open>lo + 2 step\<close>, \<dots> up to \<open>hi\<close>.
\<close>

lemma mask_range_exact:
  assumes "lo \<le> hi" "hi < 64" "0 < step" "hi + step < 2 ^ 32"
  shows "mask_loop 66 lo hi step 0 = Some (mask_range lo hi step) \<and>
    (field_contains (mask_range lo hi step) v \<longleftrightarrow> (\<exists>k. v = lo + k * step \<and> v \<le> hi))"
proof
  have "step < 2 ^ 32" using assms(4) by linarith
  with mask_range_bits [of step hi lo] assms obtain m where "mask_loop 66 lo hi step 0 = Some m" by auto
  then show "mask_loop 66 lo hi step 0 = Some (mask_range lo hi step)"
    unfolding mask_range_def by (simp only: option.case)
  have "lo \<le> v \<and> step dvd v - lo \<longleftrightarrow> (\<exists>k. v = lo + k * step)"
    by (metis dvd_def le_add1 le_add_diff_inverse add_diff_cancel_left' mult.commute)
  then show "field_contains (mask_range lo hi step) v \<longleftrightarrow> (\<exists>k. v = lo + k * step \<and> v \<le> hi)"
    using mask_range_up [OF assms(3,4,2)] assms(2) by (auto simp: field_contains_bit)
qed

text \<open>Where the addition wraps, values below the start of the range are let in.\<close>

lemma step_wraps: "\<exists>f. parse_field ''3/4294967295'' 0 59 [] 0 = Ok f \<and> field_contains f 0"
proof -
  have p: "parse_part ''3/4294967295'' 0 59 [] 0 = Some (3, 59, 4294967295)"
    by (simp add: parse_part_def parse_bound_def parse_u32_def parse_digits_def digits_value_def
        char_digit_def is_ascii_digit_def u32_max_def)
  have s: "split_on CHR '','' (to_lowercase (trim ''3/4294967295'')) = [''3/4294967295'']" by code_simp
  have m: "mask_range 3 59 4294967295 = 15" by (simp add: mask_range_def mask_loop_numeral)
  have "parse_field ''3/4294967295'' 0 59 [] 0 = Ok 15"
    by (simp only: parse_field_def s parse_parts.simps p m option.case prod.case) simp
  then show ?thesis by (auto simp: field_contains_bit)
qed

end
