(* ===== verification/Cron.thy ===== *)
theory Cron
  imports CronParse "HOL-Library.Product_Lexorder"
begin

text \<open>
  \<open>crates/gn-drive-core/src/cron.rs\<close>, time: the search for the next wall-clock time that matches
  a schedule, the next instant, and the runner's table of entries. The calendar is chrono's:
  the length of a month, the weekday of a date and the last year are fields of \<open>calendar\<close>;
  what is relied on is that a month has at least one day. A wall-clock time is a
  \<open>NaiveDateTime\<close> whose sub-second part has been cleared.
\<close>

section \<open>Wall-clock times\<close>

datatype naive = Naive (nd_year: int) (nd_month: nat) (nd_day: nat) (nd_hour: nat) (nd_minute: nat)
  (nd_second: nat)

definition naive_key :: "naive \<Rightarrow> int \<times> nat \<times> nat \<times> nat \<times> nat \<times> nat" where
  "naive_key t = (nd_year t, nd_month t, nd_day t, nd_hour t, nd_minute t, nd_second t)"

instantiation naive :: linorder
begin

definition less_eq_naive :: "naive \<Rightarrow> naive \<Rightarrow> bool" where
  "less_eq_naive a b \<longleftrightarrow> naive_key a \<le> naive_key b"

definition less_naive :: "naive \<Rightarrow> naive \<Rightarrow> bool" where
  "less_naive a b \<longleftrightarrow> naive_key a < naive_key b"

instance
  by standard (auto simp: less_eq_naive_def less_naive_def naive_key_def naive.expand)

end

lemma naive_less:
  "Naive y m d h mi s < Naive y' m' d' h' mi' s' \<longleftrightarrow>
     y < y' \<or> y = y' \<and> (m < m' \<or> m = m' \<and> (d < d' \<or> d = d' \<and>
       (h < h' \<or> h = h' \<and> (mi < mi' \<or> mi = mi' \<and> s < s'))))"
  by (auto simp: less_naive_def naive_key_def)

record calendar =
  cal_dim :: "int \<Rightarrow> nat \<Rightarrow> nat" \<comment> \<open>days of a month\<close>
  cal_weekday :: "int \<Rightarrow> nat \<Rightarrow> nat \<Rightarrow> nat" \<comment> \<open>days since Sunday\<close>
  cal_max_year :: int

definition valid_naive :: "calendar \<Rightarrow> naive \<Rightarrow> bool" where
  "valid_naive cal t \<longleftrightarrow> nd_year t \<le> cal_max_year cal \<and> 1 \<le> nd_month t \<and> nd_month t \<le> 12 \<and>
     1 \<le> nd_day t \<and> nd_day t \<le> cal_dim cal (nd_year t) (nd_month t) \<and>
     nd_hour t < 24 \<and> nd_minute t < 60 \<and> nd_second t < 60"

text \<open>\<open>NaiveDate::from_ymd_opt\<close> at midnight, \<open>and_hms_opt\<close>, and midnight of \<open>succ_opt\<close>.\<close>

definition ymd_midnight :: "calendar \<Rightarrow> int \<Rightarrow> nat \<Rightarrow> nat \<Rightarrow> naive option" where
  "ymd_midnight cal y m d =
     (if y \<le> cal_max_year cal \<and> 1 \<le> m \<and> m \<le> 12 \<and> 1 \<le> d \<and> d \<le> cal_dim cal y m
      then Some (Naive y m d 0 0 0) else None)"

definition and_hms :: "naive \<Rightarrow> nat \<Rightarrow> nat \<Rightarrow> nat \<Rightarrow> naive option" where
  "and_hms t h mi s =
     (if h < 24 \<and> mi < 60 \<and> s < 60 then Some (Naive (nd_year t) (nd_month t) (nd_day t) h mi s) else None)"

definition succ_midnight :: "calendar \<Rightarrow> naive \<Rightarrow> naive option" where
  "succ_midnight cal t =
     (if nd_day t < cal_dim cal (nd_year t) (nd_month t)
      then ymd_midnight cal (nd_year t) (nd_month t) (nd_day t + 1)
      else if nd_month t < 12 then ymd_midnight cal (nd_year t) (nd_month t + 1) 1
      else ymd_midnight cal (nd_year t + 1) 1 1)"

text \<open>
  \<open>date.and_hms_opt(hour, 0, 0)? + Duration::hours(1)\<close> and the like. Past the last day of the
  calendar the addition panics; the search below never gets there (it ends eight years on).
\<close>

definition add_hour :: "calendar \<Rightarrow> naive \<Rightarrow> naive option" where
  "add_hour cal t = (if nd_hour t + 1 < 24 then and_hms t (nd_hour t + 1) 0 0 else succ_midnight cal t)"

definition add_minute :: "calendar \<Rightarrow> naive \<Rightarrow> naive option" where
  "add_minute cal t =
     (if nd_minute t + 1 < 60 then and_hms t (nd_hour t) (nd_minute t + 1) 0 else add_hour cal t)"

definition add_second :: "calendar \<Rightarrow> naive \<Rightarrow> naive option" where
  "add_second cal t =
     (if nd_second t + 1 < 60 then and_hms t (nd_hour t) (nd_minute t) (nd_second t + 1)
      else add_minute cal t)"

section \<open>The search\<close>

definition day_matches :: "calendar \<Rightarrow> cron_schedule \<Rightarrow> naive \<Rightarrow> bool" where
  "day_matches cal s t =
     (let dom_ok = field_contains (cs_dom s) (nd_day t);
          dow_ok = field_contains (cs_dow s) (cal_weekday cal (nd_year t) (nd_month t) (nd_day t))
      in if cs_dom_restricted s \<and> cs_dow_restricted s then dom_ok \<or> dow_ok else dom_ok \<and> dow_ok)"

datatype cron_step = Found | Jump naive | Stop

fun jump_or_stop :: "naive option \<Rightarrow> cron_step" where
  "jump_or_stop (Some t) = Jump t"
| "jump_or_stop None = Stop"

text \<open>One iteration of the loop: return, continue at a later time, or the \<open>?\<close> of a lookup.\<close>

definition cron_step :: "calendar \<Rightarrow> cron_schedule \<Rightarrow> naive \<Rightarrow> cron_step" where
  "cron_step cal s t =
     (case at_or_after (cs_months s) (nd_month t) of
        None \<Rightarrow> jump_or_stop (ymd_midnight cal (nd_year t + 1) 1 1)
      | Some m \<Rightarrow>
          if m \<noteq> nd_month t then jump_or_stop (ymd_midnight cal (nd_year t) m 1)
          else if \<not> day_matches cal s t then jump_or_stop (succ_midnight cal t)
          else if \<not> field_contains (cs_hours s) (nd_hour t) then
            (case at_or_after (cs_hours s) (nd_hour t + 1) of
               Some h \<Rightarrow> jump_or_stop (and_hms t h 0 0)
             | None \<Rightarrow> jump_or_stop (succ_midnight cal t))
          else if \<not> field_contains (cs_minutes s) (nd_minute t) then
            (case at_or_after (cs_minutes s) (nd_minute t + 1) of
               Some mi \<Rightarrow> jump_or_stop (and_hms t (nd_hour t) mi 0)
             | None \<Rightarrow> jump_or_stop (add_hour cal t))
          else if \<not> field_contains (cs_seconds s) (nd_second t) then
            (case at_or_after (cs_seconds s) (nd_second t + 1) of
               Some sec \<Rightarrow> jump_or_stop (and_hms t (nd_hour t) (nd_minute t) sec)
             | None \<Rightarrow> jump_or_stop (add_minute cal t))
          else Found)"

definition cron_measures :: "calendar \<Rightarrow> int \<Rightarrow> (naive \<Rightarrow> nat) list" where
  "cron_measures cal limit = [\<lambda>t. nat (limit + 1 - nd_year t), \<lambda>t. 13 - nd_month t,
     \<lambda>t. cal_dim cal (nd_year t) (nd_month t) + 1 - nd_day t, \<lambda>t. 24 - nd_hour t,
     \<lambda>t. 60 - nd_minute t, \<lambda>t. 60 - nd_second t]"

lemma jump_iff: "jump_or_stop o' = Jump t \<longleftrightarrow> o' = Some t"
  by (cases o') simp_all

lemma succ_midnight_measure:
  "succ_midnight cal t = Some t' \<Longrightarrow> nd_year t \<le> limit \<Longrightarrow> (t', t) \<in> measures (cron_measures cal limit)"
  by (auto simp: succ_midnight_def ymd_midnight_def cron_measures_def split: if_splits)

lemma and_hms_measure:
  assumes "and_hms t h mi sec = Some t'"
    and "nd_hour t < h \<or> nd_hour t = h \<and> (nd_minute t < mi \<or> nd_minute t = mi \<and> nd_second t < sec)"
  shows "(t', t) \<in> measures (cron_measures cal limit)"
  using assms by (auto simp: and_hms_def cron_measures_def split: if_splits)

lemma add_hour_measure:
  "add_hour cal t = Some t' \<Longrightarrow> nd_year t \<le> limit \<Longrightarrow> (t', t) \<in> measures (cron_measures cal limit)"
  unfolding add_hour_def
  by (cases "nd_hour t + 1 < 24"; simp only: if_True if_False)
    (rule and_hms_measure, assumption, simp, rule succ_midnight_measure)

lemma add_minute_measure:
  "add_minute cal t = Some t' \<Longrightarrow> nd_year t \<le> limit \<Longrightarrow> (t', t) \<in> measures (cron_measures cal limit)"
  unfolding add_minute_def
  by (cases "nd_minute t + 1 < 60"; simp only: if_True if_False)
    (rule and_hms_measure, assumption, simp, rule add_hour_measure)

lemma cron_step_measure:
  assumes "cron_step cal s t = Jump t'" "nd_year t \<le> limit"
  shows "(t', t) \<in> measures (cron_measures cal limit)"
proof (cases "at_or_after (cs_months s) (nd_month t)")
  case None
  with assms show ?thesis
    by (auto simp: cron_step_def jump_iff ymd_midnight_def cron_measures_def split: if_splits)
next
  case (Some m)
  note m = this
  show ?thesis
  proof (cases "m = nd_month t")
    case False
    with m at_or_after_Some [OF m] assms show ?thesis
      by (auto simp: cron_step_def jump_iff ymd_midnight_def cron_measures_def split: if_splits)
  next
    case True
    with m assms(1) consider "succ_midnight cal t = Some t'" | "add_hour cal t = Some t'"
      | "add_minute cal t = Some t'"
      | h where "at_or_after (cs_hours s) (nd_hour t + 1) = Some h" "and_hms t h 0 0 = Some t'"
      | mi where "at_or_after (cs_minutes s) (nd_minute t + 1) = Some mi" "and_hms t (nd_hour t) mi 0 = Some t'"
      | sec where "at_or_after (cs_seconds s) (nd_second t + 1) = Some sec"
          "and_hms t (nd_hour t) (nd_minute t) sec = Some t'"
      unfolding cron_step_def by (auto simp: jump_iff split: option.splits if_splits)
    then show ?thesis
    proof cases
      case (4 h)
      with at_or_after_Some [OF 4(1)] show ?thesis by (intro and_hms_measure [OF 4(2)]) simp
    next
      case (5 mi)
      with at_or_after_Some [OF 5(1)] show ?thesis by (intro and_hms_measure [OF 5(2)]) simp
    next
      case (6 sec)
      with at_or_after_Some [OF 6(1)] show ?thesis by (intro and_hms_measure [OF 6(2)]) simp
    qed (auto intro: succ_midnight_measure add_hour_measure add_minute_measure assms(2))
  qed
qed

function next_loop :: "calendar \<Rightarrow> cron_schedule \<Rightarrow> int \<Rightarrow> naive \<Rightarrow> naive option" where
  "next_loop cal s limit t =
     (if nd_year t \<le> limit then
        (case cron_step cal s t of
           Found \<Rightarrow> Some t
         | Jump t' \<Rightarrow> next_loop cal s limit t'
         | Stop \<Rightarrow> None)
      else None)"
  by pat_completeness auto
termination
proof (relation "measures [\<lambda>(cal, s, limit, t). nat (limit + 1 - nd_year t),
     \<lambda>(cal, s, limit, t). 13 - nd_month t,
     \<lambda>(cal, s, limit, t). cal_dim cal (nd_year t) (nd_month t) + 1 - nd_day t,
     \<lambda>(cal, s, limit, t). 24 - nd_hour t, \<lambda>(cal, s, limit, t). 60 - nd_minute t,
     \<lambda>(cal, s, limit, t). 60 - nd_second t]")
  fix cal :: calendar and s limit t t'
  assume "nd_year t \<le> limit" "cron_step cal s t = Jump t'"
  from cron_step_measure [OF this(2,1)]
  show "((cal, s, limit, t'), (cal, s, limit, t)) \<in> measures [\<lambda>(cal, s, limit, t). nat (limit + 1 - nd_year t),
     \<lambda>(cal, s, limit, t). 13 - nd_month t,
     \<lambda>(cal, s, limit, t). cal_dim cal (nd_year t) (nd_month t) + 1 - nd_day t,
     \<lambda>(cal, s, limit, t). 24 - nd_hour t, \<lambda>(cal, s, limit, t). 60 - nd_minute t,
     \<lambda>(cal, s, limit, t). 60 - nd_second t]"
    by (simp add: cron_measures_def)
qed simp

declare next_loop.simps [simp del]

text \<open>
  For a field schedule. (An \<open>@every\<close> schedule is answered by \<open>next_after\<close> before the search;
  the corresponding first line of \<open>next_naive_after\<close> has no caller.)
\<close>

definition next_naive_after :: "calendar \<Rightarrow> cron_schedule \<Rightarrow> naive \<Rightarrow> naive option" where
  "next_naive_after cal s after =
     (case add_second cal after of
        None \<Rightarrow> None
      | Some t \<Rightarrow> next_loop cal s (nd_year after + 8) t)"

section \<open>The search is exact\<close>

definition cron_matches :: "calendar \<Rightarrow> cron_schedule \<Rightarrow> naive \<Rightarrow> bool" where
  "cron_matches cal s t \<longleftrightarrow> field_contains (cs_months s) (nd_month t) \<and> day_matches cal s t \<and>
     field_contains (cs_hours s) (nd_hour t) \<and> field_contains (cs_minutes s) (nd_minute t) \<and>
     field_contains (cs_seconds s) (nd_second t)"

text \<open>Nothing from \<open>t\<close> up to \<open>t'\<close> satisfies \<open>P\<close>.\<close>

definition skips :: "calendar \<Rightarrow> (naive \<Rightarrow> bool) \<Rightarrow> naive \<Rightarrow> naive \<Rightarrow> bool" where
  "skips cal P t t' \<longleftrightarrow> valid_naive cal t' \<and> t < t' \<and> (\<forall>u. valid_naive cal u \<longrightarrow> t \<le> u \<longrightarrow> u < t' \<longrightarrow> \<not> P u)"

lemma less_iff: "a < b \<longleftrightarrow> nd_year a < nd_year b \<or> nd_year a = nd_year b \<and> (nd_month a < nd_month b \<or>
    nd_month a = nd_month b \<and> (nd_day a < nd_day b \<or> nd_day a = nd_day b \<and> (nd_hour a < nd_hour b \<or>
    nd_hour a = nd_hour b \<and> (nd_minute a < nd_minute b \<or> nd_minute a = nd_minute b \<and>
    nd_second a < nd_second b))))"
  by (cases a; cases b) (simp add: naive_less)

lemma le_iff: "a \<le> b \<longleftrightarrow> nd_year a < nd_year b \<or> nd_year a = nd_year b \<and> (nd_month a < nd_month b \<or>
    nd_month a = nd_month b \<and> (nd_day a < nd_day b \<or> nd_day a = nd_day b \<and> (nd_hour a < nd_hour b \<or>
    nd_hour a = nd_hour b \<and> (nd_minute a < nd_minute b \<or> nd_minute a = nd_minute b \<and>
    nd_second a \<le> nd_second b))))"
  unfolding not_less [symmetric, of a b] less_iff by auto

lemma skips_next_year:
  assumes "ymd_midnight cal (nd_year t + 1) 1 1 = Some t'"
    and "\<And>u. nd_year u = nd_year t \<Longrightarrow> nd_month t \<le> nd_month u \<Longrightarrow> \<not> P u"
  shows "skips cal P t t'"
proof -
  have t': "valid_naive cal t'" "t' = Naive (nd_year t + 1) 1 1 0 0 0"
    using assms(1) by (auto simp: ymd_midnight_def valid_naive_def split: if_splits)
  have "\<not> P u" if "valid_naive cal u" "t \<le> u" "u < t'" for u
  proof (rule assms(2))
    show "nd_year u = nd_year t" using that t'(2) by (auto simp: le_iff less_iff valid_naive_def)
    with that(2) show "nd_month t \<le> nd_month u" by (auto simp: le_iff)
  qed
  with t' show ?thesis by (auto simp: skips_def less_iff)
qed

lemma skips_month:
  assumes "ymd_midnight cal (nd_year t) m 1 = Some t'" "nd_month t < m"
    and "\<And>u. nd_year u = nd_year t \<Longrightarrow> nd_month t \<le> nd_month u \<Longrightarrow> nd_month u < m \<Longrightarrow> \<not> P u"
  shows "skips cal P t t'"
proof -
  have t': "valid_naive cal t'" "t' = Naive (nd_year t) m 1 0 0 0"
    using assms(1) by (auto simp: ymd_midnight_def valid_naive_def split: if_splits)
  have "\<not> P u" if "valid_naive cal u" "t \<le> u" "u < t'" for u
  proof (rule assms(3))
    show y: "nd_year u = nd_year t" using that t'(2) by (auto simp: le_iff less_iff)
    with that t'(2) show "nd_month t \<le> nd_month u" "nd_month u < m"
      by (auto simp: le_iff less_iff valid_naive_def)
  qed
  with t' assms(2) show ?thesis by (auto simp: skips_def less_iff)
qed

definition same_date :: "naive \<Rightarrow> naive \<Rightarrow> bool" where
  "same_date a b \<longleftrightarrow> nd_year a = nd_year b \<and> nd_month a = nd_month b \<and> nd_day a = nd_day b"

definition date_le :: "naive \<Rightarrow> naive \<Rightarrow> bool" where
  "date_le a b \<longleftrightarrow> nd_year a < nd_year b \<or> nd_year a = nd_year b \<and> (nd_month a < nd_month b \<or>
     nd_month a = nd_month b \<and> nd_day a \<le> nd_day b)"

lemma le_date: "a \<le> b \<Longrightarrow> date_le a b"
  unfolding le_iff date_le_def by (elim disjE conjE) simp_all

lemma less_midnight_date: "u < Naive y m d 0 0 0 \<Longrightarrow>
    nd_year u < y \<or> nd_year u = y \<and> (nd_month u < m \<or> nd_month u = m \<and> nd_day u < d)"
  unfolding less_iff naive.sel by (elim disjE conjE) simp_all

lemma date_le_antisym: "date_le a b \<Longrightarrow> date_le b a \<Longrightarrow> same_date a b"
  unfolding date_le_def same_date_def by (elim disjE conjE) simp_all

lemma skips_day:
  assumes "succ_midnight cal t = Some t'" "valid_naive cal t"
    and "\<And>u. valid_naive cal u \<Longrightarrow> same_date u t \<Longrightarrow> t \<le> u \<Longrightarrow> \<not> P u"
  shows "skips cal P t t'"
proof -
  consider "nd_day t < cal_dim cal (nd_year t) (nd_month t)"
      "t' = Naive (nd_year t) (nd_month t) (nd_day t + 1) 0 0 0"
    | "nd_day t = cal_dim cal (nd_year t) (nd_month t)" "nd_month t < 12"
      "t' = Naive (nd_year t) (nd_month t + 1) 1 0 0 0"
    | "nd_day t = cal_dim cal (nd_year t) (nd_month t)" "nd_month t = 12"
      "t' = Naive (nd_year t + 1) 1 1 0 0 0"
    using assms(1,2) by (auto simp: succ_midnight_def ymd_midnight_def valid_naive_def split: if_splits)
  note c = this
  have v: "valid_naive cal t'"
    using assms(1,2) by (auto simp: succ_midnight_def ymd_midnight_def valid_naive_def split: if_splits)
  have lt: "t < t'" using c by cases (simp_all add: less_iff)
  have "\<not> P u" if u: "valid_naive cal u" "t \<le> u" "u < t'" for u
  proof (rule assms(3) [OF u(1) _ u(2)])
    have "date_le u t"
      using c
    proof cases
      case 1
      from less_midnight_date [OF u(3) [unfolded 1(2)]] show ?thesis by (auto simp: date_le_def)
    next
      case 2
      from less_midnight_date [OF u(3) [unfolded 2(3)]] u(1) 2(1) show ?thesis
        by (auto simp: date_le_def valid_naive_def less_Suc_eq)
    next
      case 3
      from less_midnight_date [OF u(3) [unfolded 3(3)]] u(1) 3(1,2) show ?thesis
        by (auto simp: date_le_def valid_naive_def)
    qed
    then show "same_date u t" using le_date [OF u(2)] by (rule date_le_antisym)
  qed
  with v lt show ?thesis by (simp add: skips_def)
qed

lemma skips_time:
  assumes "and_hms t h mi sec = Some t'" "valid_naive cal t"
    and "nd_hour t < h \<or> nd_hour t = h \<and> (nd_minute t < mi \<or> nd_minute t = mi \<and> nd_second t < sec)"
    and "\<And>u. valid_naive cal u \<Longrightarrow> same_date u t \<Longrightarrow> t \<le> u \<Longrightarrow> u < t' \<Longrightarrow> \<not> P u"
  shows "skips cal P t t'"
proof -
  have t': "t' = Naive (nd_year t) (nd_month t) (nd_day t) h mi sec" "h < 24" "mi < 60" "sec < 60"
    using assms(1) by (auto simp: and_hms_def split: if_splits)
  then have "valid_naive cal t'" "t < t'" using assms(2,3) by (auto simp: valid_naive_def less_iff)
  moreover have "\<not> P u" if u: "valid_naive cal u" "t \<le> u" "u < t'" for u
  proof (rule assms(4) [OF u(1) _ u(2,3)])
    have "date_le u t'" using u(3) by (intro le_date) simp
    then have "date_le u t" by (simp add: t'(1) date_le_def)
    then show "same_date u t" using le_date [OF u(2)] by (rule date_le_antisym)
  qed
  ultimately show ?thesis by (simp add: skips_def)
qed

lemma same_date_day_matches: "same_date u t \<Longrightarrow> day_matches cal s u = day_matches cal s t"
  by (simp add: same_date_def day_matches_def)

lemma skips_hour_carry:
  assumes "add_hour cal t = Some t'" "valid_naive cal t"
    and "\<And>u. valid_naive cal u \<Longrightarrow> same_date u t \<Longrightarrow> nd_hour u = nd_hour t \<Longrightarrow> t \<le> u \<Longrightarrow> \<not> P u"
  shows "skips cal P t t'"
proof (cases "nd_hour t + 1 < 24")
  case True
  then have a: "and_hms t (nd_hour t + 1) 0 0 = Some t'" using assms(1) by (simp add: add_hour_def)
  then have t': "t' = Naive (nd_year t) (nd_month t) (nd_day t) (nd_hour t + 1) 0 0"
    by (auto simp: and_hms_def split: if_splits)
  show ?thesis
  proof (rule skips_time [OF a assms(2)])
    fix u assume u: "valid_naive cal u" "same_date u t" "t \<le> u" "u < t'"
    then have "nd_hour u = nd_hour t" by (auto simp: t' same_date_def le_iff less_iff)
    with u show "\<not> P u" using assms(3) by blast
  qed simp
next
  case False
  then have a: "succ_midnight cal t = Some t'" using assms(1) by (simp add: add_hour_def)
  show ?thesis
  proof (rule skips_day [OF a assms(2)])
    fix u assume u: "valid_naive cal u" "same_date u t" "t \<le> u"
    then have "nd_hour t \<le> nd_hour u" "nd_hour u < 24"
      by (auto simp: same_date_def le_iff valid_naive_def)
    with False have "nd_hour u = nd_hour t" by simp
    with u show "\<not> P u" using assms(3) by blast
  qed
qed

lemma skips_minute_carry:
  assumes "add_minute cal t = Some t'" "valid_naive cal t"
    and "\<And>u. valid_naive cal u \<Longrightarrow> same_date u t \<Longrightarrow> nd_hour u = nd_hour t \<Longrightarrow>
           nd_minute u = nd_minute t \<Longrightarrow> t \<le> u \<Longrightarrow> \<not> P u"
  shows "skips cal P t t'"
proof (cases "nd_minute t + 1 < 60")
  case True
  then have a: "and_hms t (nd_hour t) (nd_minute t + 1) 0 = Some t'"
    using assms(1) by (simp add: add_minute_def)
  then have t': "t' = Naive (nd_year t) (nd_month t) (nd_day t) (nd_hour t) (nd_minute t + 1) 0"
    by (auto simp: and_hms_def split: if_splits)
  show ?thesis
  proof (rule skips_time [OF a assms(2)])
    fix u assume u: "valid_naive cal u" "same_date u t" "t \<le> u" "u < t'"
    then have "nd_hour u = nd_hour t" "nd_minute u = nd_minute t"
      by (auto simp: t' same_date_def le_iff less_iff)
    with u show "\<not> P u" using assms(3) by blast
  qed simp
next
  case False
  then have a: "add_hour cal t = Some t'" using assms(1) by (simp add: add_minute_def)
  show ?thesis
  proof (rule skips_hour_carry [OF a assms(2)])
    fix u assume u: "valid_naive cal u" "same_date u t" "nd_hour u = nd_hour t" "t \<le> u"
    then have "nd_minute t \<le> nd_minute u" "nd_minute u < 60"
      by (auto simp: same_date_def le_iff valid_naive_def)
    with False have "nd_minute u = nd_minute t" by simp
    with u show "\<not> P u" using assms(3) by blast
  qed
qed

lemma next_value_skips:
  assumes "\<not> field_contains f v" "at_or_after f (v + 1) = Some k"
  shows "v < k \<and> (\<forall>j. v \<le> j \<longrightarrow> j < k \<longrightarrow> \<not> field_contains f j)"
proof -
  from at_or_after_Some [OF assms(2)]
  have k: "v + 1 \<le> k" "\<forall>j. v + 1 \<le> j \<and> j < k \<longrightarrow> \<not> field_contains f j" by auto
  have "\<not> field_contains f j" if "v \<le> j" "j < k" for j
    using that k(2) assms(1) by (cases "j = v") auto
  with k(1) show ?thesis by simp
qed

lemma no_next_value:
  assumes "\<not> field_contains f v" "at_or_after f (v + 1) = None" "v \<le> j"
  shows "\<not> field_contains f j"
  using assms by (cases "j = v") (auto simp: at_or_after_None)

lemma step_hour:
  assumes "valid_naive cal t" "\<not> field_contains (cs_hours s) (nd_hour t)"
    and "(case at_or_after (cs_hours s) (nd_hour t + 1) of
            Some h \<Rightarrow> and_hms t h 0 0 | None \<Rightarrow> succ_midnight cal t) = Some t'"
  shows "skips cal (cron_matches cal s) t t'"
proof (cases "at_or_after (cs_hours s) (nd_hour t + 1)")
  case None
  with assms(3) have a: "succ_midnight cal t = Some t'" by simp
  show ?thesis
  proof (rule skips_day [OF a assms(1)])
    fix u assume "same_date u t" "t \<le> u"
    then have "nd_hour t \<le> nd_hour u" by (auto simp: same_date_def le_iff)
    with no_next_value [OF assms(2) None] show "\<not> cron_matches cal s u" by (simp add: cron_matches_def)
  qed
next
  case (Some h)
  with assms(3) have a: "and_hms t h 0 0 = Some t'" by simp
  then have t': "t' = Naive (nd_year t) (nd_month t) (nd_day t) h 0 0"
    by (auto simp: and_hms_def split: if_splits)
  note h = next_value_skips [OF assms(2) Some]
  show ?thesis
  proof (rule skips_time [OF a assms(1)])
    fix u assume "same_date u t" "t \<le> u" "u < t'"
    then have "nd_hour t \<le> nd_hour u" "nd_hour u < h" by (auto simp: t' same_date_def le_iff less_iff)
    with h show "\<not> cron_matches cal s u" by (simp add: cron_matches_def)
  qed (use h in simp)
qed

lemma step_minute:
  assumes "valid_naive cal t" "\<not> field_contains (cs_minutes s) (nd_minute t)"
    and "(case at_or_after (cs_minutes s) (nd_minute t + 1) of
            Some mi \<Rightarrow> and_hms t (nd_hour t) mi 0 | None \<Rightarrow> add_hour cal t) = Some t'"
  shows "skips cal (cron_matches cal s) t t'"
proof (cases "at_or_after (cs_minutes s) (nd_minute t + 1)")
  case None
  with assms(3) have a: "add_hour cal t = Some t'" by simp
  show ?thesis
  proof (rule skips_hour_carry [OF a assms(1)])
    fix u assume "same_date u t" "nd_hour u = nd_hour t" "t \<le> u"
    then have "nd_minute t \<le> nd_minute u" by (auto simp: same_date_def le_iff)
    with no_next_value [OF assms(2) None] show "\<not> cron_matches cal s u" by (simp add: cron_matches_def)
  qed
next
  case (Some mi)
  with assms(3) have a: "and_hms t (nd_hour t) mi 0 = Some t'" by simp
  then have t': "t' = Naive (nd_year t) (nd_month t) (nd_day t) (nd_hour t) mi 0"
    by (auto simp: and_hms_def split: if_splits)
  note mi = next_value_skips [OF assms(2) Some]
  show ?thesis
  proof (rule skips_time [OF a assms(1)])
    fix u assume "same_date u t" "t \<le> u" "u < t'"
    then have "nd_minute t \<le> nd_minute u" "nd_minute u < mi"
      by (auto simp: t' same_date_def le_iff less_iff)
    with mi show "\<not> cron_matches cal s u" by (simp add: cron_matches_def)
  qed (use mi in simp)
qed

lemma step_second:
  assumes "valid_naive cal t" "\<not> field_contains (cs_seconds s) (nd_second t)"
    and "(case at_or_after (cs_seconds s) (nd_second t + 1) of
            Some sec \<Rightarrow> and_hms t (nd_hour t) (nd_minute t) sec | None \<Rightarrow> add_minute cal t) = Some t'"
  shows "skips cal (cron_matches cal s) t t'"
proof (cases "at_or_after (cs_seconds s) (nd_second t + 1)")
  case None
  with assms(3) have a: "add_minute cal t = Some t'" by simp
  show ?thesis
  proof (rule skips_minute_carry [OF a assms(1)])
    fix u assume "same_date u t" "nd_hour u = nd_hour t" "nd_minute u = nd_minute t" "t \<le> u"
    then have "nd_second t \<le> nd_second u" by (auto simp: same_date_def le_iff)
    with no_next_value [OF assms(2) None] show "\<not> cron_matches cal s u" by (simp add: cron_matches_def)
  qed
next
  case (Some sec)
  with assms(3) have a: "and_hms t (nd_hour t) (nd_minute t) sec = Some t'" by simp
  then have t': "t' = Naive (nd_year t) (nd_month t) (nd_day t) (nd_hour t) (nd_minute t) sec"
    by (auto simp: and_hms_def split: if_splits)
  note sec = next_value_skips [OF assms(2) Some]
  show ?thesis
  proof (rule skips_time [OF a assms(1)])
    fix u assume "same_date u t" "t \<le> u" "u < t'"
    then have "nd_second t \<le> nd_second u" "nd_second u < sec"
      by (auto simp: t' same_date_def le_iff less_iff)
    with sec show "\<not> cron_matches cal s u" by (simp add: cron_matches_def)
  qed (use sec in simp)
qed

text \<open>One iteration: it stops at a match, or moves on past times that do not match.\<close>

lemma cron_step_jump:
  assumes "cron_step cal s t = Jump t'" "valid_naive cal t"
  shows "skips cal (cron_matches cal s) t t'"
proof (cases "at_or_after (cs_months s) (nd_month t)")
  case None
  with assms(1) have a: "ymd_midnight cal (nd_year t + 1) 1 1 = Some t'"
    by (simp add: cron_step_def jump_iff)
  from None have "\<forall>k \<ge> nd_month t. \<not> field_contains (cs_months s) k" by (simp add: at_or_after_None)
  then show ?thesis by (intro skips_next_year [OF a]) (auto simp: cron_matches_def)
next
  case (Some m)
  note m = this at_or_after_Some [OF this]
  show ?thesis
  proof (cases "m = nd_month t")
    case False
    with m assms(1) have a: "ymd_midnight cal (nd_year t) m 1 = Some t'" and "nd_month t < m"
      by (simp_all add: cron_step_def jump_iff)
    with m(2) show ?thesis by (intro skips_month [OF a]) (auto simp: cron_matches_def)
  next
    case True
    consider "\<not> day_matches cal s t" "succ_midnight cal t = Some t'"
      | "\<not> field_contains (cs_hours s) (nd_hour t)"
        "(case at_or_after (cs_hours s) (nd_hour t + 1) of
            Some h \<Rightarrow> and_hms t h 0 0 | None \<Rightarrow> succ_midnight cal t) = Some t'"
      | "\<not> field_contains (cs_minutes s) (nd_minute t)"
        "(case at_or_after (cs_minutes s) (nd_minute t + 1) of
            Some mi \<Rightarrow> and_hms t (nd_hour t) mi 0 | None \<Rightarrow> add_hour cal t) = Some t'"
      | "\<not> field_contains (cs_seconds s) (nd_second t)"
        "(case at_or_after (cs_seconds s) (nd_second t + 1) of
            Some sec \<Rightarrow> and_hms t (nd_hour t) (nd_minute t) sec | None \<Rightarrow> add_minute cal t) = Some t'"
      using assms(1) m(1) True unfolding cron_step_def
      by (auto simp: jump_iff split: option.splits if_splits)
    then show ?thesis
    proof cases
      case 1
      then show ?thesis
        by (intro skips_day [OF 1(2) assms(2)]) (simp add: cron_matches_def same_date_day_matches)
    next
      case 2
      with assms(2) show ?thesis by (rule step_hour)
    next
      case 3
      with assms(2) show ?thesis by (rule step_minute)
    next
      case 4
      with assms(2) show ?thesis by (rule step_second)
    qed
  qed
qed

lemma cron_step_found: "cron_step cal s t = Found \<Longrightarrow> cron_matches cal s t"
  by (auto simp: cron_step_def cron_matches_def dest: at_or_after_Some
      split: option.splits if_splits elim: jump_or_stop.elims)

lemma next_loop_skips:
  assumes "next_loop cal s limit t = Some t'" "valid_naive cal t"
  shows "valid_naive cal t' \<and> t \<le> t' \<and> cron_matches cal s t' \<and> nd_year t' \<le> limit \<and>
    (\<forall>u. valid_naive cal u \<longrightarrow> t \<le> u \<longrightarrow> u < t' \<longrightarrow> \<not> cron_matches cal s u)"
  using assms
proof (induction cal s limit t rule: next_loop.induct)
  case (1 cal s limit t)
  from 1(2) have y: "nd_year t \<le> limit" by (subst (asm) next_loop.simps) (simp split: if_splits)
  show ?case
  proof (cases "cron_step cal s t")
    case Found
    with 1(2) y have "t = t'" by (subst (asm) next_loop.simps) simp
    with 1(3) y cron_step_found [OF Found] show ?thesis by (auto dest: leD)
  next
    case (Jump t1)
    note sk = cron_step_jump [OF Jump 1(3), unfolded skips_def]
    from 1(2) y Jump have r: "next_loop cal s limit t1 = Some t'" by (subst (asm) next_loop.simps) simp
    note ih = 1(1) [OF y Jump r conjunct1 [OF sk]]
    have "\<not> cron_matches cal s u" if "valid_naive cal u" "t \<le> u" "u < t'" for u
      using ih sk that by (cases "u < t1") auto
    with ih sk show ?thesis by (auto intro: order_trans less_imp_le)
  next
    case Stop
    with 1(2) y show ?thesis by (subst (asm) next_loop.simps) simp
  qed
qed

lemma add_second_skips:
  assumes "add_second cal t = Some t'" "valid_naive cal t"
  shows "valid_naive cal t' \<and> t < t' \<and> (\<forall>u. valid_naive cal u \<longrightarrow> t < u \<longrightarrow> t' \<le> u)"
proof -
  have "skips cal (\<lambda>u. t < u) t t'"
  proof (cases "nd_second t + 1 < 60")
    case True
    then have a: "and_hms t (nd_hour t) (nd_minute t) (nd_second t + 1) = Some t'"
      using assms(1) by (simp add: add_second_def)
    then have t': "t' = Naive (nd_year t) (nd_month t) (nd_day t) (nd_hour t) (nd_minute t) (nd_second t + 1)"
      by (auto simp: and_hms_def split: if_splits)
    show ?thesis
    proof (rule skips_time [OF a assms(2)])
      fix u assume u: "same_date u t" "t \<le> u" "u < t'"
      then have "nd_hour u = nd_hour t" "nd_minute u = nd_minute t"
        by (auto simp: t' same_date_def le_iff less_iff)
      with u have "nd_second u = nd_second t" by (auto simp: t' same_date_def le_iff less_iff)
      with u \<open>nd_hour u = nd_hour t\<close> \<open>nd_minute u = nd_minute t\<close> show "\<not> t < u"
        by (simp add: same_date_def less_iff)
    qed simp
  next
    case False
    then have a: "add_minute cal t = Some t'" using assms(1) by (simp add: add_second_def)
    show ?thesis
    proof (rule skips_minute_carry [OF a assms(2)])
      fix u assume u: "valid_naive cal u" "same_date u t" "nd_hour u = nd_hour t" "nd_minute u = nd_minute t"
      then have "\<not> nd_second t < nd_second u" using False by (simp add: valid_naive_def)
      with u show "\<not> t < u" by (simp add: same_date_def less_iff)
    qed
  qed
  then show ?thesis by (auto simp: skips_def not_less [symmetric] dest: less_imp_le)
qed


text \<open>A calendar and a schedule (every day at 9:00:00) to evaluate with.\<close>

definition demo_dim :: "int \<Rightarrow> nat \<Rightarrow> nat" where
  "demo_dim y m = (if m = 2 then (if y mod 4 = 0 \<and> (y mod 100 \<noteq> 0 \<or> y mod 400 = 0) then 29 else 28)
     else if m \<in> {4, 6, 9, 11} then 30 else 31)"

definition demo_cal :: calendar where
  "demo_cal = \<lparr> cal_dim = demo_dim, cal_weekday = (\<lambda>y m d. 0), cal_max_year = 262142 \<rparr>"

definition demo_nine :: cron_schedule where
  "demo_nine = \<lparr> cs_seconds = 1, cs_minutes = 1, cs_hours = 512, cs_dom = 4294967294,
     cs_months = 8190, cs_dow = 127, cs_dom_restricted = False, cs_dow_restricted = False,
     cs_every_seconds = None \<rparr>"

lemma demo_next: "next_naive_after demo_cal demo_nine (Naive 2026 1 31 9 30 0) = Some (Naive 2026 2 1 9 0 0)"
  by code_simp


section \<open>The search is complete\<close>

text \<open>What is relied on of the calendar: every month has a first day.\<close>

definition calendar_ok :: "calendar \<Rightarrow> bool" where
  "calendar_ok cal \<longleftrightarrow> (\<forall>y m. 1 \<le> m \<and> m \<le> 12 \<longrightarrow> 1 \<le> cal_dim cal y m)"

lemma ymd_midnight_Some:
  "calendar_ok cal \<Longrightarrow> y \<le> cal_max_year cal \<Longrightarrow> 1 \<le> m \<Longrightarrow> m \<le> 12 \<Longrightarrow> ymd_midnight cal y m 1 \<noteq> None"
  by (simp add: ymd_midnight_def calendar_ok_def)

lemma succ_midnight_Some:
  assumes "calendar_ok cal" "valid_naive cal t" "nd_year t < cal_max_year cal"
  shows "succ_midnight cal t \<noteq> None"
proof -
  have "1 \<le> cal_dim cal (nd_year t) (nd_month t + 1)" if "nd_month t < 12"
    using assms(1) that by (simp add: calendar_ok_def)
  moreover have "1 \<le> cal_dim cal (nd_year t + 1) 1" using assms(1) by (simp add: calendar_ok_def)
  ultimately show ?thesis
    using assms(2,3) by (auto simp: succ_midnight_def ymd_midnight_def valid_naive_def)
qed

lemma add_hour_Some:
  assumes "calendar_ok cal" "valid_naive cal t" "nd_year t < cal_max_year cal"
  shows "add_hour cal t \<noteq> None"
  using succ_midnight_Some [OF assms] by (simp add: add_hour_def and_hms_def)

lemma add_minute_Some:
  assumes "calendar_ok cal" "valid_naive cal t" "nd_year t < cal_max_year cal"
  shows "add_minute cal t \<noteq> None"
  using add_hour_Some [OF assms] assms(2) by (simp add: add_minute_def and_hms_def valid_naive_def)

lemma add_second_Some:
  assumes "calendar_ok cal" "valid_naive cal t" "nd_year t < cal_max_year cal"
  shows "add_second cal t \<noteq> None"
  using add_minute_Some [OF assms] assms(2) by (simp add: add_second_def and_hms_def valid_naive_def)

lemma jump_or_stop_Stop: "jump_or_stop x = Stop \<longleftrightarrow> x = None"
  by (cases x) simp_all

lemma field_ok_at:
  "field_ok f mn mx \<Longrightarrow> at_or_after f v = Some k \<Longrightarrow> v \<le> k \<and> k \<le> mx"
  using at_or_after_Some by (fastforce simp: field_ok_def)

lemma cron_step_not_Stop:
  assumes ok: "schedule_ok s" "calendar_ok cal" "valid_naive cal t" "nd_year t < cal_max_year cal"
  shows "cron_step cal s t \<noteq> Stop"
proof -
  have m: "m \<le> 12" "1 \<le> m" if "at_or_after (cs_months s) (nd_month t) = Some m" for m
    using field_ok_at [OF _ that, of 1 12] ok(1,3) by (auto simp: schedule_ok_def valid_naive_def)
  have h: "k < 24" if "at_or_after (cs_hours s) (Suc (nd_hour t)) = Some k" for k
    using field_ok_at [OF _ that] ok(1) by (fastforce simp: schedule_ok_def)
  have mi: "k < 60" if "at_or_after (cs_minutes s) (Suc (nd_minute t)) = Some k" for k
    using field_ok_at [OF _ that] ok(1) by (fastforce simp: schedule_ok_def)
  have sec: "k < 60" if "at_or_after (cs_seconds s) (Suc (nd_second t)) = Some k" for k
    using field_ok_at [OF _ that] ok(1) by (fastforce simp: schedule_ok_def)
  have y1: "ymd_midnight cal (nd_year t + 1) 1 1 \<noteq> None"
    using ymd_midnight_Some [OF ok(2), of "nd_year t + 1" 1] ok(4) by simp
  have ym: "ymd_midnight cal (nd_year t) m 1 \<noteq> None"
    if "at_or_after (cs_months s) (nd_month t) = Some m" for m
    using ymd_midnight_Some [OF ok(2), of "nd_year t" m] m [OF that] ok(4) by simp
  have v: "nd_hour t < 24" "nd_minute t < 60" using ok(3) by (simp_all add: valid_naive_def)
  show ?thesis
    unfolding cron_step_def
    using y1 ym succ_midnight_Some [OF ok(2-4)] add_hour_Some [OF ok(2-4)] add_minute_Some [OF ok(2-4)]
    by (auto simp: jump_or_stop_Stop and_hms_def v h mi sec split: option.splits)
qed

lemma next_loop_None:
  assumes "next_loop cal s limit t = None" "valid_naive cal t" "schedule_ok s" "calendar_ok cal"
    "limit < cal_max_year cal"
  shows "\<forall>u. valid_naive cal u \<longrightarrow> t \<le> u \<longrightarrow> nd_year u \<le> limit \<longrightarrow> \<not> cron_matches cal s u"
  using assms
proof (induction cal s limit t rule: next_loop.induct)
  case (1 cal s limit t)
  show ?case
  proof (cases "nd_year t \<le> limit")
    case False
    then have "nd_year u > limit" if "t \<le> u" for u using that by (auto simp: le_iff)
    then show ?thesis by (meson not_le)
  next
    case True
    show ?thesis
    proof (cases "cron_step cal s t")
      case Found
      with 1(2) True show ?thesis by (subst (asm) next_loop.simps) simp
    next
      case Stop
      with cron_step_not_Stop [OF 1(4,5,3)] 1(6) True show ?thesis by simp
    next
      case (Jump t1)
      note sk = cron_step_jump [OF Jump 1(3), unfolded skips_def]
      from 1(2) True Jump have r: "next_loop cal s limit t1 = None" by (subst (asm) next_loop.simps) simp
      note ih = 1(1) [OF True Jump r conjunct1 [OF sk] 1(4-6)]
      show ?thesis
      proof (intro allI impI)
        fix u assume "valid_naive cal u" "t \<le> u" "nd_year u \<le> limit"
        with ih sk show "\<not> cron_matches cal s u" by (cases "u < t1") auto
      qed
    qed
  qed
qed

text \<open>
  C24: when the search gives up, there is nothing to find: for a parsed schedule, started at
  least nine years before the calendar's last year, the answer \<open>None\<close> means that no wall-clock
  time after the start matches within the next eight calendar years.
\<close>

theorem next_naive_complete:
  assumes "next_naive_after cal s after = None" and "cron_parse expr = Ok s"
    and "calendar_ok cal" "valid_naive cal after" "nd_year after + 8 < cal_max_year cal"
  shows "\<forall>u. valid_naive cal u \<longrightarrow> after < u \<longrightarrow> nd_year u \<le> nd_year after + 8 \<longrightarrow> \<not> cron_matches cal s u"
proof -
  have "nd_year after < cal_max_year cal" using assms(5) by simp
  then obtain t where a: "add_second cal after = Some t" using add_second_Some [OF assms(3,4)] by blast
  with assms(1) have "next_loop cal s (nd_year after + 8) t = None" by (simp add: next_naive_after_def)
  from next_loop_None [OF this] add_second_skips [OF a assms(4)] cron_parse_ok [OF assms(2)] assms(3,5)
  show ?thesis by blast
qed

definition demo_feb_30 :: cron_schedule where
  "demo_feb_30 = \<lparr> cs_seconds = 1, cs_minutes = 1, cs_hours = 1, cs_dom = 1073741824, cs_months = 4,
     cs_dow = 127, cs_dom_restricted = True, cs_dow_restricted = False, cs_every_seconds = None \<rparr>"

theorem next_naive_complete_witness:
  "\<not> cron_matches demo_cal demo_feb_30 (Naive 2028 2 29 0 0 0)"
proof -
  have n: "next_naive_after demo_cal demo_feb_30 (Naive 2026 1 31 9 30 0) = None" by code_simp
  have p: "cron_parse ''0 0 30 2 *'' = Ok demo_feb_30" by (simp add: parse_feb_30 demo_feb_30_def)
  have c: "calendar_ok demo_cal" by (simp add: calendar_ok_def demo_cal_def demo_dim_def)
  have v: "valid_naive demo_cal (Naive 2026 1 31 9 30 0)"
    "nd_year (Naive 2026 1 31 9 30 0) + 8 < cal_max_year demo_cal" by code_simp+
  have u: "valid_naive demo_cal (Naive 2028 2 29 0 0 0)" "Naive 2026 1 31 9 30 0 < Naive 2028 2 29 0 0 0"
    "nd_year (Naive 2028 2 29 0 0 0) \<le> nd_year (Naive 2026 1 31 9 30 0) + 8" by code_simp+
  show ?thesis using next_naive_complete [OF n p c v] u by blast
qed

section \<open>Instants\<close>

text \<open>
  An instant counts nanoseconds. \<open>ck_naive\<close> is \<open>naive_local()\<close> cleared of its sub-second part,
  \<open>ck_resolve\<close> is \<open>and_local_timezone(Local).earliest()\<close> (\<open>None\<close> in a gap), \<open>ck_max\<close> the last
  instant chrono can represent; \<open>Duration::seconds\<close> panics above \<open>i64::MAX / 1000\<close>.
\<close>

record clock =
  ck_cal :: calendar
  ck_naive :: "int \<Rightarrow> naive"
  ck_resolve :: "naive \<Rightarrow> int option"
  ck_max :: int

datatype 'a outcome = Panics | Returns 'a

definition second_ns :: int where "second_ns = 1000000000"

fun next_search :: "clock \<Rightarrow> cron_schedule \<Rightarrow> int \<Rightarrow> nat \<Rightarrow> naive \<Rightarrow> int option" where
  "next_search ck s date 0 cursor = None"
| "next_search ck s date (Suc k) cursor =
     (case next_naive_after (ck_cal ck) s cursor of
        None \<Rightarrow> None
      | Some cand \<Rightarrow>
          (case ck_resolve ck cand of
             Some dt \<Rightarrow> if dt > date then Some dt else next_search ck s date k cand
           | None \<Rightarrow> next_search ck s date k cand))"

definition next_after :: "clock \<Rightarrow> cron_schedule \<Rightarrow> int \<Rightarrow> int option outcome" where
  "next_after ck s date =
     (case cs_every_seconds s of
        Some every \<Rightarrow>
          (if every > i64_max div 1000 then Panics
           else let t = date div second_ns * second_ns + every * second_ns in
             if t > ck_max ck then Panics else Returns (Some t))
      | None \<Rightarrow> Returns (next_search ck s date 64 (ck_naive ck date)))"

lemma next_search_later: "next_search ck s date k cursor = Some dt \<Longrightarrow> date < dt"
  by (induction k arbitrary: cursor) (auto split: option.splits if_splits)

lemma next_search_match:
  assumes "next_search ck s date k cursor = Some dt" "valid_naive (ck_cal ck) cursor"
  shows "\<exists>cand. valid_naive (ck_cal ck) cand \<and> cursor < cand \<and> cron_matches (ck_cal ck) s cand \<and>
    ck_resolve ck cand = Some dt"
  using assms
proof (induction k arbitrary: cursor)
  case (Suc k)
  obtain cand where n: "next_naive_after (ck_cal ck) s cursor = Some cand"
    using Suc.prems(1) by (auto split: option.splits)
  obtain t0 where a: "add_second (ck_cal ck) cursor = Some t0"
    and l: "next_loop (ck_cal ck) s (nd_year cursor + 8) t0 = Some cand"
    using n by (auto simp: next_naive_after_def split: option.splits)
  have c: "valid_naive (ck_cal ck) cand" "cursor < cand" "cron_matches (ck_cal ck) s cand"
    using add_second_skips [OF a Suc.prems(2)] next_loop_skips [OF l] by (auto intro: less_le_trans)
  show ?case
  proof (cases "ck_resolve ck cand = Some dt")
    case True
    with c show ?thesis by blast
  next
    case False
    with Suc.prems(1) n have "next_search ck s date k cand = Some dt"
      by (auto split: option.splits if_splits)
    from Suc.IH [OF this c(1)] c(2) show ?thesis by (auto intro: order.strict_trans)
  qed
qed simp

lemma next_after_later:
  assumes "next_after ck s date = Returns (Some dt)" "\<forall>n. cs_every_seconds s = Some n \<longrightarrow> 1 \<le> n"
  shows "date < dt"
proof (cases "cs_every_seconds s")
  case (Some n)
  then have "1 \<le> n" "dt = date div second_ns * second_ns + n * second_ns"
    using assms by (auto simp: next_after_def Let_def split: if_splits)
  moreover have "date < date div second_ns * second_ns + second_ns"
    by (simp add: second_ns_def)
  moreover have "second_ns \<le> n * second_ns" using \<open>1 \<le> n\<close> by (simp add: second_ns_def)
  ultimately show ?thesis by linarith
next
  case None
  with assms(1) show ?thesis by (simp add: next_after_def next_search_later)
qed

text \<open>
  C25: across clock changes: a fire instant of a parsed expression is strictly later than the
  moment it was computed at, and for a field schedule it is the (earliest) instant of a
  wall-clock time that matches, so a time a spring-forward gap removes is never fired.
\<close>

theorem next_after_sound:
  assumes "next_after ck s date = Returns (Some dt)" and "cron_parse expr = Ok s"
    and "valid_naive (ck_cal ck) (ck_naive ck date)"
  shows "date < dt \<and> (case cs_every_seconds s of
      Some n \<Rightarrow> dt = date div second_ns * second_ns + n * second_ns
    | None \<Rightarrow> \<exists>cand. valid_naive (ck_cal ck) cand \<and> cron_matches (ck_cal ck) s cand \<and>
        ck_resolve ck cand = Some dt)"
proof
  show "date < dt" using next_after_later [OF assms(1)] cron_parse_ok [OF assms(2)] by blast
  show "case cs_every_seconds s of
      Some n \<Rightarrow> dt = date div second_ns * second_ns + n * second_ns
    | None \<Rightarrow> \<exists>cand. valid_naive (ck_cal ck) cand \<and> cron_matches (ck_cal ck) s cand \<and>
        ck_resolve ck cand = Some dt"
    using assms(1) next_search_match [OF _ assms(3)]
    by (fastforce simp: next_after_def Let_def split: option.splits if_splits)
qed

definition demo_clock :: clock where
  "demo_clock = \<lparr> ck_cal = demo_cal, ck_naive = (\<lambda>_. Naive 2026 1 31 9 30 0),
     ck_resolve = (\<lambda>t. if t = Naive 2026 2 1 9 0 0 then Some 7000 else None), ck_max = 10 ^ 20 \<rparr>"

lemma demo_fire: "next_after demo_clock demo_nine 5000 = Returns (Some 7000)"
proof -
  have "next_search demo_clock demo_nine 5000 (Suc k) (Naive 2026 1 31 9 30 0) = Some 7000" for k
    using demo_next by (simp add: demo_clock_def)
  from this [of 63] show ?thesis by (simp add: next_after_def demo_nine_def demo_clock_def)
qed

theorem next_after_sound_witness:
  "(5000::int) < 7000 \<and> (\<exists>cand. cron_matches demo_cal demo_nine cand \<and> ck_resolve demo_clock cand = Some 7000)"
proof -
  have p: "cron_parse ''0 9 * * *'' = Ok demo_nine" by (simp add: parse_daily_nine demo_nine_def)
  have v: "valid_naive (ck_cal demo_clock) (ck_naive demo_clock 5000)" by code_simp
  have "cs_every_seconds demo_nine = None" "ck_cal demo_clock = demo_cal"
    by (simp_all add: demo_nine_def demo_clock_def)
  with next_after_sound [OF demo_fire p v] show ?thesis by auto
qed

text \<open>An interval above \<open>i64::MAX / 1000\<close> seconds is accepted by the parser and panics when used.\<close>

lemma every_overflow_panics:
  "f64_as_i64 d > i64_max div 1000 \<Longrightarrow> next_after ck (every_schedule d) date = Panics"
  by (simp add: next_after_def every_schedule_def max_def)

section \<open>The runner\<close>

text \<open>
  \<open>CronRunner\<close>: the entries by id (a \<open>HashMap\<close>; the list order stands for its iteration order)
  and whether the tick thread runs. A handler is a name; \<open>tick_at\<close> answers the handlers it runs,
  after releasing the table.
\<close>

record 'h cron_entry =
  ce_schedule :: cron_schedule
  ce_handler :: 'h
  ce_next_fire :: int

record 'h cron_runner =
  cr_entries :: "(string \<times> 'h cron_entry) list"
  cr_running :: bool

definition runner_new :: "'h cron_runner" where
  "runner_new = \<lparr> cr_entries = [], cr_running = False \<rparr>"

definition cron_start :: "'h cron_runner \<Rightarrow> 'h cron_runner" where
  "cron_start r = r\<lparr>cr_running := True\<rparr>"

definition cron_stop :: "'h cron_runner \<Rightarrow> 'h cron_runner" where
  "cron_stop r = r\<lparr>cr_running := False, cr_entries := []\<rparr>"

definition cron_add_at ::
  "clock \<Rightarrow> string \<Rightarrow> cron_schedule \<Rightarrow> 'h \<Rightarrow> int \<Rightarrow> 'h cron_runner \<Rightarrow> (bool \<times> 'h cron_runner) outcome" where
  "cron_add_at ck i s handler now r =
     (case next_after ck s now of
        Panics \<Rightarrow> Panics
      | Returns None \<Rightarrow> Returns (False, r)
      | Returns (Some t) \<Rightarrow> Returns (True, r\<lparr>cr_entries := AList.update i
            \<lparr> ce_schedule = s, ce_handler = handler, ce_next_fire = t \<rparr> (cr_entries r)\<rparr>))"

definition cron_remove :: "string \<Rightarrow> 'h cron_runner \<Rightarrow> 'h cron_runner" where
  "cron_remove i r = r\<lparr>cr_entries := AList.delete i (cr_entries r)\<rparr>"

definition cron_contains :: "string \<Rightarrow> 'h cron_runner \<Rightarrow> bool" where
  "cron_contains i r \<longleftrightarrow> map_of (cr_entries r) i \<noteq> None"

definition cron_next_fire :: "string \<Rightarrow> 'h cron_runner \<Rightarrow> int option" where
  "cron_next_fire i r = map_option ce_next_fire (map_of (cr_entries r) i)"

definition park_ns :: int where "park_ns = 36500 * 86400 * second_ns"

fun tick_entries :: "clock \<Rightarrow> int \<Rightarrow> (string \<times> 'h cron_entry) list \<Rightarrow>
    ('h list \<times> (string \<times> 'h cron_entry) list) outcome" where
  "tick_entries ck now [] = Returns ([], [])"
| "tick_entries ck now ((i, e) # es) =
     (if ce_next_fire e \<le> now then
        (case next_after ck (ce_schedule e) now of
           Panics \<Rightarrow> Panics
         | Returns nf \<Rightarrow>
             (case (case nf of Some t \<Rightarrow> Returns t
                    | None \<Rightarrow> if now + park_ns > ck_max ck then Panics else Returns (now + park_ns)) of
                Panics \<Rightarrow> Panics
              | Returns t \<Rightarrow>
                  (case tick_entries ck now es of
                     Panics \<Rightarrow> Panics
                   | Returns (fired, es') \<Rightarrow>
                       Returns (ce_handler e # fired, (i, e\<lparr>ce_next_fire := t\<rparr>) # es'))))
      else case tick_entries ck now es of
             Panics \<Rightarrow> Panics
           | Returns (fired, es') \<Rightarrow> Returns (fired, (i, e) # es'))"

definition tick_at :: "clock \<Rightarrow> int \<Rightarrow> 'h cron_runner \<Rightarrow> ('h list \<times> 'h cron_runner) outcome" where
  "tick_at ck now r =
     (case tick_entries ck now (cr_entries r) of
        Panics \<Rightarrow> Panics
      | Returns (fired, es) \<Rightarrow> Returns (fired, r\<lparr>cr_entries := es\<rparr>))"

definition interval_ok :: "cron_schedule \<Rightarrow> bool" where
  "interval_ok s \<longleftrightarrow> (case cs_every_seconds s of Some n \<Rightarrow> 1 \<le> n | None \<Rightarrow> True)"

lemma tick_entries_spec:
  assumes "tick_entries ck now es = Returns (fired, es')"
    and "list_all (\<lambda>(i, e). interval_ok (ce_schedule e)) es"
  shows "fired = map (ce_handler \<circ> snd) (filter (\<lambda>(i, e). ce_next_fire e \<le> now) es) \<and>
    list_all2 (\<lambda>(i, e) (j, e'). i = j \<and> e'\<lparr>ce_next_fire := ce_next_fire e\<rparr> = e \<and> now < ce_next_fire e' \<and>
       (now < ce_next_fire e \<longrightarrow> e' = e)) es es'"
  using assms
proof (induction es arbitrary: fired es')
  case (Cons x es)
  obtain i e where x: "x = (i, e)" by fastforce
  show ?case
  proof (cases "ce_next_fire e \<le> now")
    case True
    with Cons.prems(1) x obtain nf t fs es2 where n: "next_after ck (ce_schedule e) now = Returns nf"
      and t: "case nf of Some t2 \<Rightarrow> t2 = t | None \<Rightarrow> t = now + park_ns"
      and r: "tick_entries ck now es = Returns (fs, es2)" "fired = ce_handler e # fs"
        "es' = (i, e\<lparr>ce_next_fire := t\<rparr>) # es2"
      by (auto split: outcome.splits option.splits if_splits)
    have "now < t"
    proof (cases nf)
      case None
      then show ?thesis using t by (simp add: park_ns_def second_ns_def)
    next
      case (Some t2)
      with t have "t2 = t" by simp
      with n Some next_after_later [of ck "ce_schedule e" now t] Cons.prems(2) x show ?thesis
        by (simp add: interval_ok_def split: option.splits)
    qed
    with Cons.IH [OF r(1)] Cons.prems(2) x True r(2,3) show ?thesis by simp
  next
    case False
    with Cons.prems(1) x obtain fs es2 where r: "tick_entries ck now es = Returns (fs, es2)"
      "fired = fs" "es' = (i, e) # es2"
      by (auto split: outcome.splits)
    with Cons.IH [OF r(1)] Cons.prems(2) x False show ?thesis by simp
  qed
qed simp

text \<open>
  C22: a tick fires what is due and nothing else. It runs the handler of each entry whose time
  has come exactly once, in table order; afterwards every entry is still there with its own
  schedule and handler, none is due any more, and those that were not due are unchanged.
\<close>

theorem tick_fires_due_once:
  assumes "tick_at ck now r = Returns (fired, r')"
    and "list_all (\<lambda>(i, e). interval_ok (ce_schedule e)) (cr_entries r)"
  shows "fired = map (ce_handler \<circ> snd) (filter (\<lambda>(i, e). ce_next_fire e \<le> now) (cr_entries r)) \<and>
    list_all2 (\<lambda>(i, e) (j, e'). i = j \<and> e'\<lparr>ce_next_fire := ce_next_fire e\<rparr> = e \<and> now < ce_next_fire e' \<and>
       (now < ce_next_fire e \<longrightarrow> e' = e)) (cr_entries r) (cr_entries r')"
proof -
  obtain es where "tick_entries ck now (cr_entries r) = Returns (fired, es)" "r' = r\<lparr>cr_entries := es\<rparr>"
    using assms(1) by (auto simp: tick_at_def split: outcome.splits)
  with tick_entries_spec [OF this(1) assms(2)] show ?thesis by simp
qed

definition demo_runner :: "nat cron_runner" where
  "demo_runner = \<lparr> cr_entries = [(''a'', \<lparr> ce_schedule = demo_nine, ce_handler = 1, ce_next_fire = 4000 \<rparr>),
     (''b'', \<lparr> ce_schedule = demo_nine, ce_handler = 2, ce_next_fire = 9000 \<rparr>)], cr_running = True \<rparr>"

theorem tick_fires_due_once_witness:
  "\<exists>r'. tick_at demo_clock 5000 demo_runner = Returns ([1], r') \<and>
     list_all (\<lambda>(i, e). 5000 < ce_next_fire e) (cr_entries r')"
proof -
  obtain r' where t: "tick_at demo_clock 5000 demo_runner = Returns ([1], r')"
    by (simp add: tick_at_def demo_runner_def demo_fire)
  have "list_all (\<lambda>(i, e). interval_ok (ce_schedule e)) (cr_entries demo_runner)" by code_simp
  from tick_fires_due_once [OF t this] have "list_all2 (\<lambda>_ (j, e'). 5000 < ce_next_fire e')
      (cr_entries demo_runner) (cr_entries r')"
    by (auto elim!: list_all2_mono)
  then have "list_all (\<lambda>(i, e). 5000 < ce_next_fire e) (cr_entries r')"
    by (auto simp: list_all2_conv_all_nth list_all_length)
  with t show ?thesis by blast
qed

end
