(* ===== verification/SyncEngine.thy ===== *)
theory SyncEngine
  imports SyncTypes Cron
begin

text \<open>
  \<open>crates/gn-drive-core/src/sync_engine.rs\<close>: admission of tasks, their runs, waiting, stopping,
  and the cron registrations. Every operation is split where the code releases its locks:
  \<open>reserve\<close> and \<open>admit\<close> are the two halves of \<open>start_with_profile\<close>, \<open>stop_signal\<close> and
  \<open>stop_harvest\<close> those of \<open>stop\<close>, \<open>run_begin\<close>, \<open>run_progress\<close>, \<open>run_end\<close> and \<open>finish\<close> the stages
  of a worker. Tasks live in a store (\<open>se_tasks\<close>) because a worker keeps its task after \<open>stop\<close>
  has dropped it from the active map. Published events and saved history rows are logs.
\<close>

section \<open>State\<close>

datatype sched_handler = HSchedule schedule | HFlow string

record engine_store =
  es_get_profile :: "string \<Rightarrow> (store_error, profile) result"
  es_list_schedules :: "(store_error, schedule list) result"
  es_list_flows :: "(store_error, flow list) result"

record sync_engine =
  se_running :: bool
  se_store :: "engine_store option"
  se_client :: bool \<comment> \<open>an rclone client is attached\<close>
  se_flow_exec :: bool
  se_tasks :: "string \<rightharpoonup> sync_task" \<comment> \<open>every task ever created\<close>
  se_active :: "string list" \<comment> \<open>keys of \<open>Active.tasks\<close>\<close>
  se_outcomes :: "string \<rightharpoonup> task_outcome"
  se_busy :: "string set"
  se_sched :: "string set"
  se_cron :: "sched_handler cron_runner"
  se_events :: "bus_event list"
  se_history :: "history_entry list"

definition engine_new :: sync_engine where
  "engine_new = \<lparr> se_running = False, se_store = None, se_client = False, se_flow_exec = False,
     se_tasks = Map.empty, se_active = [], se_outcomes = Map.empty, se_busy = {}, se_sched = {},
     se_cron = runner_new, se_events = [], se_history = [] \<rparr>"

definition publish_event :: "bus_event \<Rightarrow> sync_engine \<Rightarrow> sync_engine" where
  "publish_event e st = st\<lparr>se_events := se_events st @ [e]\<rparr>"

definition save_history :: "history_entry \<Rightarrow> sync_engine \<Rightarrow> sync_engine" where
  "save_history h st = (case se_store st of None \<Rightarrow> st | Some _ \<Rightarrow> st\<lparr>se_history := se_history st @ [h]\<rparr>)"

definition update_task :: "string \<Rightarrow> (sync_task \<Rightarrow> sync_task) \<Rightarrow> sync_engine \<Rightarrow> sync_engine" where
  "update_task i f st = st\<lparr>se_tasks := (se_tasks st)(i := map_option f (se_tasks st i))\<rparr>"

section \<open>Admission\<close>

definition reserve :: "string \<Rightarrow> sync_engine \<Rightarrow> (sync_engine_error, unit) result \<times> sync_engine" where
  "reserve key st =
     (if key \<in> se_busy st then (Err ProfileBusy, st)
      else (Ok (), st\<lparr>se_busy := insert key (se_busy st)\<rparr>))"

text \<open>The second half, under the \<open>admit\<close> lock; the worker that runs the task is spawned last.\<close>

definition admit :: "int \<Rightarrow> string \<Rightarrow> string \<Rightarrow> string \<Rightarrow> sync_engine \<Rightarrow>
    (sync_engine_error, string) result \<times> sync_engine" where
  "admit now tid action key st =
     (if \<not> se_running st then (Err NotRunning, st\<lparr>se_busy := se_busy st - {key}\<rparr>)
      else (Ok tid, publish_event (ev_sync_started now tid key action)
             (st\<lparr>se_busy := insert key (se_busy st), se_tasks := (se_tasks st)(tid \<mapsto> task_new now tid key action),
                 se_active := List.insert tid (se_active st)\<rparr>)))"

definition start_with_profile :: "int \<Rightarrow> string \<Rightarrow> string \<Rightarrow> string \<Rightarrow> sync_engine \<Rightarrow>
    (sync_engine_error, string) result \<times> sync_engine" where
  "start_with_profile now tid action key st =
     (case reserve key st of
        (Err e, st') \<Rightarrow> (Err e, st')
      | (Ok _, st') \<Rightarrow> admit now tid action key st')"

text \<open>The checks of \<open>start_sync\<close> and \<open>start_path_sync\<close>, and the profile the worker is given.\<close>

definition resolve_start_sync :: "string \<Rightarrow> sync_engine \<Rightarrow> (sync_engine_error, profile) result" where
  "resolve_start_sync profile_name st =
     (if \<not> se_running st then Err NotRunning
      else case se_store st of
             None \<Rightarrow> Err StoreNotReady
           | Some s \<Rightarrow> (case es_get_profile s profile_name of
                          Err e \<Rightarrow> Err (EngineStore e) | Ok p \<Rightarrow> Ok p))"

definition start_sync :: "int \<Rightarrow> string \<Rightarrow> string \<Rightarrow> string \<Rightarrow> sync_engine \<Rightarrow>
    (sync_engine_error, string \<times> profile) result \<times> sync_engine" where
  "start_sync now tid action profile_name st =
     (case resolve_start_sync profile_name st of
        Err e \<Rightarrow> (Err e, st)
      | Ok p \<Rightarrow> (case start_with_profile now tid action profile_name st of
                   (Err e, st') \<Rightarrow> (Err e, st') | (Ok t, st') \<Rightarrow> (Ok (t, p), st')))"

definition path_profile :: "string \<Rightarrow> string \<Rightarrow> string \<Rightarrow> profile option \<Rightarrow> profile" where
  "path_profile key from to opts =
     (let p = (case opts of Some p \<Rightarrow> p | None \<Rightarrow> profile_default);
          p = p\<lparr>p_name := key, p_from := from, p_to := to\<rparr>
      in if p_parallel p \<le> 0 then p\<lparr>p_parallel := 4\<rparr> else p)"

definition start_path_sync ::
  "int \<Rightarrow> string \<Rightarrow> string \<Rightarrow> string \<Rightarrow> string \<Rightarrow> string \<Rightarrow> profile option \<Rightarrow> sync_engine \<Rightarrow>
   (sync_engine_error, string \<times> profile) result \<times> sync_engine" where
  "start_path_sync now tid action key from to opts st =
     (if \<not> se_running st then (Err NotRunning, st)
      else if from = [] \<or> to = [] then (Err (TaskFailed ''syncengine: from and to are required''), st)
      else case start_with_profile now tid action key st of
             (Err e, st') \<Rightarrow> (Err e, st')
           | (Ok t, st') \<Rightarrow> (Ok (t, path_profile key from to opts), st'))"

section \<open>The worker\<close>

definition run_begin :: "(int \<Rightarrow> string) \<Rightarrow> int \<Rightarrow> string \<Rightarrow> profile \<Rightarrow> string \<Rightarrow> sync_engine \<Rightarrow> sync_engine" where
  "run_begin rfc3339 now tid p action st =
     save_history (history_running rfc3339 tid (p_name p) action now)
       (update_task tid (\<lambda>t. t\<lparr>t_started_at := now\<rparr>) st)"

definition run_progress :: "int \<Rightarrow> string \<Rightarrow> profile \<Rightarrow> string \<Rightarrow> sync_stats \<Rightarrow> sync_engine \<Rightarrow> sync_engine" where
  "run_progress now tid p action stats st =
     publish_event (SyncProgress (progress_event now tid (p_name p) action ''running'' stats []))
       (update_task tid (\<lambda>t. t\<lparr>t_stats := stats\<rparr>) st)"

text \<open>What the client answered: nothing without a client, else a result or an error.\<close>

type_synonym client_answer = "(sync_failed_error, sync_result) result option"

definition final_stats :: "client_answer \<Rightarrow> sync_stats \<Rightarrow> sync_stats" where
  "final_stats ans cur =
     (case ans of Some (Inr r) \<Rightarrow> sr_stats r | Some (Inl e) \<Rightarrow> sr_stats (sf_result e) | None \<Rightarrow> cur)"

definition run_failed :: "(int \<Rightarrow> string) \<Rightarrow> int \<Rightarrow> string \<Rightarrow> profile \<Rightarrow> string \<Rightarrow> sync_task \<Rightarrow>
    sync_failed_error \<Rightarrow> sync_stats \<Rightarrow> sync_engine \<Rightarrow> sync_engine" where
  "run_failed rfc3339 now tid p action t e stats st =
     (let cancelled = t_cancelled t \<or> t_status t = ''cancelled'' \<or> sf_cancelled e;
          state = (if cancelled then ''cancelled'' else ''failed'');
          msg = (if cancelled then [] else truncate_string (sanitize_rclone_err (sf_message e)) 240);
          failed = (sync_progress_event_default now)\<lparr>spe_task_id := tid, spe_profile_id := p_name p,
                     spe_action := action, spe_state := state, spe_error_message := msg,
                     spe_transfers := st_file_transfers stats\<rparr>
      in save_history (history_done rfc3339 tid (p_name p) action state (t_started_at t) now stats
                         (truncate_string (sf_message e) 1000))
          (publish_event (SyncFailed failed)
            (publish_event (SyncProgress (progress_event now tid (p_name p) action state stats msg))
              (update_task tid (\<lambda>t. t\<lparr>t_stats := stats, t_status := state, t_error := msg,
                  t_ended_at := Some now\<rparr>) st))))"

definition run_completed :: "(int \<Rightarrow> string) \<Rightarrow> int \<Rightarrow> string \<Rightarrow> profile \<Rightarrow> string \<Rightarrow> sync_task \<Rightarrow>
    client_answer \<Rightarrow> sync_stats \<Rightarrow> sync_engine \<Rightarrow> sync_engine" where
  "run_completed rfc3339 now tid p action t ans stats st =
     (let duration = (case ans of Some (Inr r) \<Rightarrow> sr_ended_at r - sr_started_at r | _ \<Rightarrow> 0)
      in save_history (history_done rfc3339 tid (p_name p) action ''completed'' (t_started_at t) now stats [])
          (publish_event (ev_sync_completed now tid (p_name p) action duration (st_bytes stats) (st_errors stats))
            (publish_event (SyncProgress (progress_event now tid (p_name p) action ''completed'' stats []))
              (update_task tid (\<lambda>t. t\<lparr>t_stats := stats, t_status := ''completed'',
                  t_ended_at := Some now\<rparr>) st))))"

definition run_end :: "(int \<Rightarrow> string) \<Rightarrow> int \<Rightarrow> string \<Rightarrow> profile \<Rightarrow> string \<Rightarrow> client_answer \<Rightarrow>
    sync_engine \<Rightarrow> sync_engine" where
  "run_end rfc3339 now tid p action ans st =
     (case se_tasks st tid of
        None \<Rightarrow> st
      | Some t \<Rightarrow>
          (let stats = final_stats ans (t_stats t) in
           case ans of
             Some (Inl e) \<Rightarrow> run_failed rfc3339 now tid p action t e stats st
           | _ \<Rightarrow> run_completed rfc3339 now tid p action t ans stats st))"

text \<open>\<open>Drop for Finish\<close>: runs on every way out of the worker, panics included.\<close>

definition finish :: "string \<Rightarrow> sync_engine \<Rightarrow> sync_engine" where
  "finish tid st =
     (case se_tasks st tid of
        None \<Rightarrow> st
      | Some t \<Rightarrow>
          (let status = (if t_status t = [] \<or> t_status t = ''running'' then ''failed'' else t_status t);
               st1 = update_task tid (\<lambda>t. t\<lparr>t_status := status\<rparr>) st
           in st1\<lparr>se_outcomes := (se_outcomes st1)(tid \<mapsto> \<lparr> to_status = status, to_err_msg = t_error t \<rparr>),
                  se_active := remove1 tid (se_active st1), se_busy := se_busy st1 - {t_name t}\<rparr>))"

section \<open>Waiting and stopping\<close>

text \<open>One iteration of the loop of \<open>wait_task\<close>: an answer, or \<open>None\<close> to wait and look again.\<close>

definition wait_poll :: "string \<Rightarrow> bool \<Rightarrow> sync_engine \<Rightarrow> (sync_engine_error, unit) result option \<times> sync_engine" where
  "wait_poll tid cancelled st =
     (if cancelled then (Some (Err TaskCancelled), st)
      else case se_outcomes st tid of
             Some out \<Rightarrow> (Some (outcome_result out), st\<lparr>se_outcomes := (se_outcomes st)(tid := None)\<rparr>)
           | None \<Rightarrow> (None, st))"

definition stop_sync :: "string \<Rightarrow> sync_engine \<Rightarrow> (sync_engine_error, unit) result \<times> sync_engine" where
  "stop_sync tid st =
     (if tid \<in> set (se_active st) then (Ok (), update_task tid task_cancel st)
      else (Err TaskNotFound, st))"

definition active_tasks :: "sync_engine \<Rightarrow> task_snapshot list" where
  "active_tasks st =
     List.map_filter (\<lambda>i. map_option task_snapshot_of (se_tasks st i)) (se_active st)"

definition stop_signal :: "sync_engine \<Rightarrow> sync_engine" where
  "stop_signal st = st\<lparr>se_running := False, se_cron := cron_stop (se_cron st)\<rparr>"

definition stop_harvest :: "sync_engine \<Rightarrow> sync_engine" where
  "stop_harvest st =
     fold (\<lambda>i. update_task i task_cancel) (se_active st)
       (st\<lparr>se_active := [], se_busy := {}, se_sched := {}\<rparr>)"

section \<open>Schedules\<close>

definition unregister_schedule :: "string \<Rightarrow> sync_engine \<Rightarrow> sync_engine" where
  "unregister_schedule i st =
     st\<lparr>se_sched := se_sched st - {i}, se_cron := cron_remove i (se_cron st)\<rparr>"

definition add_cron :: "clock \<Rightarrow> int \<Rightarrow> string \<Rightarrow> string \<Rightarrow> sched_handler \<Rightarrow> sync_engine \<Rightarrow> sync_engine outcome" where
  "add_cron ck now i cron h st =
     (case cron_parse cron of
        Err _ \<Rightarrow> Returns st
      | Ok s \<Rightarrow>
          (case cron_add_at ck i s h now (se_cron st) of
             Panics \<Rightarrow> Panics
           | Returns (ok, r) \<Rightarrow>
               Returns (st\<lparr>se_cron := r, se_sched := (if ok then insert i (se_sched st) else se_sched st)\<rparr>)))"

definition register_schedule :: "clock \<Rightarrow> int \<Rightarrow> schedule \<Rightarrow> sync_engine \<Rightarrow> sync_engine outcome" where
  "register_schedule ck now sch st =
     (let st1 = unregister_schedule (sch_id sch) st in
      if \<not> sch_enabled sch \<or> sch_cron sch = [] then Returns st1
      else add_cron ck now (sch_id sch) (sch_cron sch) (HSchedule sch) st1)"

definition sync_flow_schedule :: "clock \<Rightarrow> int \<Rightarrow> flow \<Rightarrow> sync_engine \<Rightarrow> sync_engine outcome" where
  "sync_flow_schedule ck now f st =
     (if trim_ws (f_id f) = [] then Returns st
      else let i = flow_schedule_id (f_id f); st1 = unregister_schedule i st;
               cron = trim_ws (f_schedule_cron f)
           in if \<not> f_schedule_enabled f \<or> cron = [] \<or> \<not> se_flow_exec st1 then Returns st1
              else add_cron ck now i cron (HFlow (f_id f)) st1)"

definition unregister_flow_schedule :: "string \<Rightarrow> sync_engine \<Rightarrow> sync_engine" where
  "unregister_flow_schedule flow_id st = unregister_schedule (flow_schedule_id flow_id) st"

fun fold_outcome :: "('a \<Rightarrow> 's \<Rightarrow> 's outcome) \<Rightarrow> 'a list \<Rightarrow> 's \<Rightarrow> 's outcome" where
  "fold_outcome f [] st = Returns st"
| "fold_outcome f (x # xs) st =
     (case f x st of Panics \<Rightarrow> Panics | Returns st' \<Rightarrow> fold_outcome f xs st')"

definition load_schedules :: "clock \<Rightarrow> int \<Rightarrow> sync_engine \<Rightarrow> sync_engine outcome" where
  "load_schedules ck now st =
     (case se_store st of
        None \<Rightarrow> Returns st
      | Some s \<Rightarrow>
          (case (case es_list_schedules s of
                   Ok schs \<Rightarrow> fold_outcome (register_schedule ck now) schs st
                 | Err _ \<Rightarrow> Returns st) of
             Panics \<Rightarrow> Panics
           | Returns st1 \<Rightarrow>
               (case es_list_flows s of
                  Ok fs \<Rightarrow> fold_outcome (sync_flow_schedule ck now) fs st1
                | Err _ \<Rightarrow> Returns st1)))"

definition engine_attach :: "clock \<Rightarrow> int \<Rightarrow> engine_store \<Rightarrow> sync_engine \<Rightarrow> sync_engine outcome" where
  "engine_attach ck now s st =
     (let st1 = st\<lparr>se_store := Some s, se_client := True\<rparr> in
      if se_running st1 then load_schedules ck now st1 else Returns st1)"

definition engine_detach :: "sync_engine \<Rightarrow> sync_engine" where
  "engine_detach st = st\<lparr>se_store := None, se_client := False\<rparr>"

definition set_flow_executor :: "sync_engine \<Rightarrow> sync_engine" where
  "set_flow_executor st = st\<lparr>se_flow_exec := True\<rparr>"

definition engine_start :: "clock \<Rightarrow> int \<Rightarrow> sync_engine \<Rightarrow> sync_engine outcome" where
  "engine_start ck now st =
     (if se_running st then Returns st
      else let st1 = st\<lparr>se_running := True, se_cron := cron_start (se_cron st)\<rparr> in
        if se_store st1 \<noteq> None then load_schedules ck now st1 else Returns st1)"

definition trigger_schedule :: "int \<Rightarrow> string \<Rightarrow> schedule \<Rightarrow> sync_engine \<Rightarrow>
    (sync_engine_error, string \<times> profile) result \<times> sync_engine" where
  "trigger_schedule now tid sch st =
     start_sync now tid (sch_action sch) (sch_profile_name sch)
       (publish_event (ev_schedule_triggered now (sch_id sch) (sch_profile_name sch) (sch_action sch)) st)"

text \<open>The flow whose execution is requested, if an executor is attached.\<close>

definition trigger_flow_schedule :: "int \<Rightarrow> string \<Rightarrow> sync_engine \<Rightarrow> string option \<times> sync_engine" where
  "trigger_flow_schedule now flow_id st =
     (if se_flow_exec st then Some flow_id else None,
      publish_event (ev_schedule_triggered now (flow_schedule_id flow_id) flow_id ''flow'') st)"

section \<open>Runs of the engine\<close>

text \<open>
  The engine with the threads in flight: keys reserved and not yet admitted, and the workers
  that have not finished. \<open>sy_stopped\<close> and \<open>sy_harvested\<close> record the halves of \<open>stop\<close>. A run
  starts the engine at most once: \<open>SyStart\<close> needs an engine that was never stopped.
\<close>

record sync_system =
  sy_engine :: sync_engine
  sy_reserved :: "string list"
  sy_workers :: "string list"
  sy_stopped :: bool
  sy_harvested :: bool

definition system_new :: sync_system where
  "system_new = \<lparr> sy_engine = engine_new, sy_reserved = [], sy_workers = [], sy_stopped = False,
     sy_harvested = False \<rparr>"

text \<open>What an operation that is not about admission leaves alone.\<close>

definition same_admission :: "sync_engine \<Rightarrow> sync_engine \<Rightarrow> bool" where
  "same_admission e e' \<longleftrightarrow> se_running e' = se_running e \<and> se_active e' = se_active e \<and>
     se_busy e' = se_busy e \<and> dom (se_tasks e') = dom (se_tasks e) \<and>
     (\<forall>i. map_option t_name (se_tasks e' i) = map_option t_name (se_tasks e i)) \<and>
     (\<forall>i t. se_tasks e i = Some t \<longrightarrow> t_cancelled t \<longrightarrow> (\<exists>t'. se_tasks e' i = Some t' \<and> t_cancelled t'))"

inductive sys_step :: "sync_system \<Rightarrow> sync_system \<Rightarrow> bool" where
  SyStart: "engine_start ck now (sy_engine y) = Returns e \<Longrightarrow> \<not> sy_stopped y \<Longrightarrow>
     sys_step y (y\<lparr>sy_engine := e\<rparr>)"
| SyAttach: "engine_attach ck now store (sy_engine y) = Returns e \<Longrightarrow> sys_step y (y\<lparr>sy_engine := e\<rparr>)"
| SyDetach: "sys_step y (y\<lparr>sy_engine := engine_detach (sy_engine y)\<rparr>)"
| SyRegister: "register_schedule ck now sch (sy_engine y) = Returns e \<Longrightarrow> sys_step y (y\<lparr>sy_engine := e\<rparr>)"
| SyFlowSched: "sync_flow_schedule ck now f (sy_engine y) = Returns e \<Longrightarrow> sys_step y (y\<lparr>sy_engine := e\<rparr>)"
| SyReserve: "reserve key (sy_engine y) = (Ok u, e) \<Longrightarrow>
     sys_step y (y\<lparr>sy_engine := e, sy_reserved := key # sy_reserved y\<rparr>)"
| SyAdmit: "key \<in> set (sy_reserved y) \<Longrightarrow> tid \<notin> dom (se_tasks (sy_engine y)) \<Longrightarrow>
     admit now tid action key (sy_engine y) = (r, e) \<Longrightarrow>
     sys_step y (y\<lparr>sy_engine := e, sy_reserved := remove1 key (sy_reserved y),
       sy_workers := (case r of Inr _ \<Rightarrow> tid # sy_workers y | Inl _ \<Rightarrow> sy_workers y)\<rparr>)"
| SyBegin: "tid \<in> set (sy_workers y) \<Longrightarrow>
     sys_step y (y\<lparr>sy_engine := run_begin rfc3339 now tid p action (sy_engine y)\<rparr>)"
| SyProgress: "tid \<in> set (sy_workers y) \<Longrightarrow>
     sys_step y (y\<lparr>sy_engine := run_progress now tid p action stats (sy_engine y)\<rparr>)"
| SyEnd: "tid \<in> set (sy_workers y) \<Longrightarrow>
     sys_step y (y\<lparr>sy_engine := run_end rfc3339 now tid p action ans (sy_engine y)\<rparr>)"
| SyFinish: "tid \<in> set (sy_workers y) \<Longrightarrow>
     sys_step y (y\<lparr>sy_engine := finish tid (sy_engine y), sy_workers := remove1 tid (sy_workers y)\<rparr>)"
| SyWait: "wait_poll tid c (sy_engine y) = (r, e) \<Longrightarrow> sys_step y (y\<lparr>sy_engine := e\<rparr>)"
| SyStopSync: "stop_sync tid (sy_engine y) = (r, e) \<Longrightarrow> sys_step y (y\<lparr>sy_engine := e\<rparr>)"
| SyStopSignal: "sys_step y (y\<lparr>sy_engine := stop_signal (sy_engine y), sy_stopped := True\<rparr>)"
| SyStopHarvest: "sy_stopped y \<Longrightarrow>
     sys_step y (y\<lparr>sy_engine := stop_harvest (sy_engine y), sy_harvested := True\<rparr>)"

inductive sys_reach :: "sync_system \<Rightarrow> bool" where
  sys_init: "sys_reach system_new"
| sys_next: "sys_reach y \<Longrightarrow> sys_step y y' \<Longrightarrow> sys_reach y'"

inductive_cases sys_stepE: "sys_step y y'"

definition task_name :: "sync_engine \<Rightarrow> string \<Rightarrow> string" where
  "task_name e i = (case se_tasks e i of Some t \<Rightarrow> t_name t | None \<Rightarrow> [])"

text \<open>
  Until a stop has harvested the workers, the busy keys are exactly those of the live workers
  and the reservations, all different; the active map is the set of live workers. \<open>nm\<close> names
  the key of a task, \<open>h\<close> says whether the workers were harvested.
\<close>

definition adm_inv :: "(string \<Rightarrow> string) \<Rightarrow> string list \<Rightarrow> string list \<Rightarrow> string list \<Rightarrow> string set \<Rightarrow> bool \<Rightarrow> bool" where
  "adm_inv nm ws rs as busy h \<longleftrightarrow> distinct ws \<and> distinct (map nm ws) \<and> distinct as \<and> set as \<subseteq> set ws \<and>
     (\<not> h \<longrightarrow> set as = set ws \<and> distinct rs \<and> nm ` set ws \<inter> set rs = {} \<and> busy = nm ` set ws \<union> set rs)"

definition sys_inv :: "sync_system \<Rightarrow> bool" where
  "sys_inv y \<longleftrightarrow> adm_inv (task_name (sy_engine y)) (sy_workers y) (sy_reserved y)
       (se_active (sy_engine y)) (se_busy (sy_engine y)) (sy_harvested y) \<and>
     set (sy_workers y) \<subseteq> dom (se_tasks (sy_engine y)) \<and>
     (sy_stopped y \<longrightarrow> \<not> se_running (sy_engine y)) \<and> (sy_harvested y \<longrightarrow> sy_stopped y) \<and>
     (sy_harvested y \<longrightarrow> (\<forall>i \<in> set (sy_workers y). \<exists>t. se_tasks (sy_engine y) i = Some t \<and> t_cancelled t))"

lemma adm_inv_reserve:
  "adm_inv nm ws rs as busy h \<Longrightarrow> key \<notin> busy \<Longrightarrow> adm_inv nm ws (key # rs) as (insert key busy) h"
  by (auto simp: adm_inv_def)

lemma adm_inv_release:
  "adm_inv nm ws rs as busy h \<Longrightarrow> key \<in> set rs \<Longrightarrow> adm_inv nm ws (remove1 key rs) as (busy - {key}) h"
  by (auto simp: adm_inv_def distinct_remove1 set_remove1_eq)

lemma adm_inv_admit:
  assumes "adm_inv nm ws rs as busy False" "key \<in> set rs" "tid \<notin> set ws"
  shows "adm_inv (nm(tid := key)) (tid # ws) (remove1 key rs) (List.insert tid as) (insert key busy) False"
proof -
  have "map (nm(tid := key)) ws = map nm ws" "(nm(tid := key)) ` set ws = nm ` set ws"
    using assms(3) by auto
  with assms show ?thesis
    unfolding adm_inv_def by (auto simp: distinct_remove1 set_remove1_eq)
qed

lemma adm_inv_finish:
  assumes "adm_inv nm ws rs as busy h" "tid \<in> set ws"
  shows "adm_inv nm (remove1 tid ws) rs (remove1 tid as) (busy - {nm tid}) h"
proof -
  obtain xs ys where ws: "ws = xs @ tid # ys" "tid \<notin> set xs" using assms(2) by (metis split_list_first)
  then have r: "remove1 tid ws = xs @ ys" by (simp add: remove1_append)
  from assms(1) have d: "distinct as" "distinct ws" "distinct (map nm ws)" by (simp_all add: adm_inv_def)
  have "nm tid \<notin> nm ` set xs \<union> nm ` set ys" using d(3) unfolding ws(1) by auto
  then have img: "nm ` set (remove1 tid ws) = nm ` set ws - {nm tid}"
    unfolding r unfolding ws(1) by (simp add: image_Un)
  have "set (remove1 tid as) \<subseteq> set (remove1 tid ws)"
    using assms(1) d(1,2) by (auto simp: adm_inv_def set_remove1_eq)
  moreover have "nm tid \<notin> set rs" if "\<not> h" using assms that by (auto simp: adm_inv_def)
  moreover have "distinct (map nm (remove1 tid ws))" using d(3) unfolding r unfolding ws(1) by auto
  ultimately show ?thesis
    using assms(1) d unfolding adm_inv_def img by (auto simp: distinct_remove1 set_remove1_eq)
qed

lemma adm_inv_harvest: "adm_inv nm ws rs as busy h \<Longrightarrow> adm_inv nm ws rs [] {} True"
  by (simp add: adm_inv_def)

lemma same_admissionI:
  assumes "se_running e' = se_running e" "se_active e' = se_active e" "se_busy e' = se_busy e"
    "se_tasks e' = se_tasks e"
  shows "same_admission e e'"
  using assms by (auto simp: same_admission_def)

lemma same_admission_refl [simp]: "same_admission e e"
  by (rule same_admissionI) simp_all

lemma same_admission_trans: "same_admission a b \<Longrightarrow> same_admission b c \<Longrightarrow> same_admission a c"
  unfolding same_admission_def by (metis (no_types, lifting))

lemma same_admission_update_task:
  "(\<And>t. t_name (f t) = t_name t \<and> (t_cancelled t \<longrightarrow> t_cancelled (f t))) \<Longrightarrow> same_admission e (update_task i f e)"
  by (auto simp: same_admission_def update_task_def option.map_comp comp_def split: if_splits)

lemma same_admission_publish: "same_admission e (publish_event ev e)"
  by (rule same_admissionI) (simp_all add: publish_event_def)

lemma same_admission_history: "same_admission e (save_history h e)"
  by (rule same_admissionI) (simp_all add: save_history_def split: option.split)

lemma same_admission_run_begin: "same_admission e (run_begin rfc3339 now tid p action e)"
  unfolding run_begin_def
  by (rule same_admission_trans [OF same_admission_update_task same_admission_history]) simp

lemma same_admission_run_progress: "same_admission e (run_progress now tid p action stats e)"
  unfolding run_progress_def
  by (rule same_admission_trans [OF same_admission_update_task same_admission_publish]) simp

lemma same_admission_run_failed: "same_admission e (run_failed rfc3339 now tid p action t err stats e)"
  unfolding run_failed_def Let_def
  by (intro same_admission_trans [OF _ same_admission_history]
      same_admission_trans [OF _ same_admission_publish] same_admission_update_task) simp

lemma same_admission_run_completed: "same_admission e (run_completed rfc3339 now tid p action t ans stats e)"
  unfolding run_completed_def Let_def
  by (intro same_admission_trans [OF _ same_admission_history]
      same_admission_trans [OF _ same_admission_publish] same_admission_update_task) simp

lemma same_admission_run_end: "same_admission e (run_end rfc3339 now tid p action ans e)"
  by (simp add: run_end_def Let_def same_admission_run_failed same_admission_run_completed split: option.split sum.split)

lemma same_admission_add_cron: "add_cron ck now i c h e = Returns e' \<Longrightarrow> same_admission e e'"
  by (auto simp: add_cron_def intro!: same_admissionI split: sum.splits outcome.splits)

lemma same_admission_unregister: "same_admission e (unregister_schedule i e)"
  by (rule same_admissionI) (simp_all add: unregister_schedule_def)

lemma same_admission_add_cron_after:
  "add_cron ck now i c h (unregister_schedule j e) = Returns e' \<Longrightarrow> same_admission e e'"
  by (rule same_admission_trans [OF same_admission_unregister same_admission_add_cron])

lemma same_admission_register: "register_schedule ck now sch e = Returns e' \<Longrightarrow> same_admission e e'"
  by (auto simp: register_schedule_def Let_def same_admission_unregister
      dest: same_admission_add_cron_after split: if_splits)

lemma same_admission_flow: "sync_flow_schedule ck now f e = Returns e' \<Longrightarrow> same_admission e e'"
  by (auto simp: sync_flow_schedule_def Let_def same_admission_unregister
      dest: same_admission_add_cron_after split: if_splits)

lemma same_admission_fold:
  assumes "\<And>x a b. f x a = Returns b \<Longrightarrow> same_admission a b"
  shows "fold_outcome f xs e = Returns e' \<Longrightarrow> same_admission e e'"
proof (induction xs arbitrary: e)
  case (Cons x xs)
  then obtain e1 where "f x e = Returns e1" "fold_outcome f xs e1 = Returns e'"
    by (auto split: outcome.splits)
  with Cons.IH [OF this(2)] assms show ?case using same_admission_trans by blast
qed simp

lemmas same_admission_loops = same_admission_fold [OF same_admission_register]
  same_admission_fold [OF same_admission_flow]

lemma same_admission_load:
  assumes "load_schedules ck now e = Returns e'"
  shows "same_admission e e'"
proof (cases "se_store e")
  case (Some s)
  obtain e1 where 1: "(case es_list_schedules s of
      Ok schs \<Rightarrow> fold_outcome (register_schedule ck now) schs e | Err _ \<Rightarrow> Returns e) = Returns e1"
    and 2: "(case es_list_flows s of
      Ok fs \<Rightarrow> fold_outcome (sync_flow_schedule ck now) fs e1 | Err _ \<Rightarrow> Returns e1) = Returns e'"
    using assms Some by (auto simp: load_schedules_def split: outcome.splits)
  have "same_admission e e1" using 1 same_admission_loops by (cases "es_list_schedules s") auto
  moreover have "same_admission e1 e'" using 2 same_admission_loops by (cases "es_list_flows s") auto
  ultimately show ?thesis by (rule same_admission_trans)
qed (use assms in \<open>simp add: load_schedules_def\<close>)

lemma same_admission_wait: "wait_poll tid c e = (r, e') \<Longrightarrow> same_admission e e'"
  by (auto simp: wait_poll_def intro!: same_admissionI split: if_splits option.splits)

lemma same_admission_stop_sync: "stop_sync tid e = (r, e') \<Longrightarrow> same_admission e e'"
  by (auto simp: stop_sync_def task_cancel_def intro: same_admission_update_task split: if_splits)

lemma same_admission_attach:
  assumes "engine_attach ck now s e = Returns e'"
  shows "same_admission e e'"
proof -
  have "same_admission e (e\<lparr>se_store := Some s, se_client := True\<rparr>)" by (rule same_admissionI) simp_all
  then show ?thesis
    using assms same_admission_load same_admission_trans
    by (auto simp: engine_attach_def Let_def split: if_splits)
qed

lemma same_admission_detach: "same_admission e (engine_detach e)"
  by (rule same_admissionI) (simp_all add: engine_detach_def)

lemma task_name_same: "same_admission e e' \<Longrightarrow> task_name e' i = task_name e i"
proof -
  assume "same_admission e e'"
  then have "map_option t_name (se_tasks e' i) = map_option t_name (se_tasks e i)"
    by (simp add: same_admission_def)
  then show ?thesis by (cases "se_tasks e i"; cases "se_tasks e' i") (simp_all add: task_name_def)
qed

lemma sys_inv_same:
  assumes "same_admission (sy_engine y) e" "sys_inv y"
  shows "sys_inv (y\<lparr>sy_engine := e\<rparr>)"
proof -
  have n: "task_name e = task_name (sy_engine y)"
    using task_name_same [OF assms(1)] by (simp add: fun_eq_iff)
  have "se_running e = se_running (sy_engine y)" "se_active e = se_active (sy_engine y)"
    "se_busy e = se_busy (sy_engine y)" "dom (se_tasks e) = dom (se_tasks (sy_engine y))"
    using assms(1) by (simp_all add: same_admission_def)
  moreover have "\<exists>t. se_tasks e i = Some t \<and> t_cancelled t"
    if "\<exists>t. se_tasks (sy_engine y) i = Some t \<and> t_cancelled t" for i
    using assms(1) that by (auto simp: same_admission_def)
  ultimately show ?thesis using assms(2) unfolding sys_inv_def by (simp add: n)
qed

lemma sys_inv_reserve:
  assumes "reserve key (sy_engine y) = (Ok u, e)" "sys_inv y"
  shows "sys_inv (y\<lparr>sy_engine := e, sy_reserved := key # sy_reserved y\<rparr>)"
proof -
  have k: "key \<notin> se_busy (sy_engine y)" and e: "e = (sy_engine y)\<lparr>se_busy := insert key (se_busy (sy_engine y))\<rparr>"
    using assms(1) by (auto simp: reserve_def split: if_splits)
  have "task_name e = task_name (sy_engine y)" by (simp add: e task_name_def fun_eq_iff)
  with assms(2) k show ?thesis by (simp add: sys_inv_def e adm_inv_reserve)
qed

lemma admit_cases:
  assumes "admit now tid action key st = (r, e)"
  obtains "\<not> se_running st" "r = Err NotRunning" "e = st\<lparr>se_busy := se_busy st - {key}\<rparr>"
  | "se_running st" "r = Ok tid" "se_running e" "se_busy e = insert key (se_busy st)"
    "se_tasks e = (se_tasks st)(tid \<mapsto> task_new now tid key action)"
    "se_active e = List.insert tid (se_active st)"
  using assms by (auto simp: admit_def publish_event_def split: if_splits)

lemma sys_inv_admit:
  assumes "key \<in> set (sy_reserved y)" "tid \<notin> dom (se_tasks (sy_engine y))"
    "admit now tid action key (sy_engine y) = (r, e)" "sys_inv y"
  shows "sys_inv (y\<lparr>sy_engine := e, sy_reserved := remove1 key (sy_reserved y),
       sy_workers := (case r of Inr _ \<Rightarrow> tid # sy_workers y | Inl _ \<Rightarrow> sy_workers y)\<rparr>)"
  using assms(3)
proof (cases rule: admit_cases)
  case 1
  have "task_name e = task_name (sy_engine y)" by (simp add: 1 task_name_def fun_eq_iff)
  with assms(1,4) show ?thesis
    by (simp add: sys_inv_def 1(2,3) adm_inv_release)
next
  case 2
  have fresh: "tid \<notin> set (sy_workers y)" "sy_stopped y = False" "sy_harvested y = False"
    using assms(2,4) 2(1) by (auto simp: sys_inv_def)
  have n: "task_name e = (task_name (sy_engine y))(tid := key)"
    by (simp add: fun_eq_iff task_name_def 2 task_new_def)
  have "adm_inv (task_name (sy_engine y)) (sy_workers y) (sy_reserved y) (se_active (sy_engine y))
      (se_busy (sy_engine y)) False" "set (sy_workers y) \<subseteq> dom (se_tasks (sy_engine y))"
    using assms(4) fresh by (simp_all add: sys_inv_def)
  with adm_inv_admit [OF this(1) assms(1) fresh(1)] fresh show ?thesis
    by (auto simp: sys_inv_def 2 n)
qed

lemma finish_fields:
  assumes "se_tasks e tid = Some t"
  shows "task_name (finish tid e) = task_name e" "dom (se_tasks (finish tid e)) = dom (se_tasks e)"
    "se_active (finish tid e) = remove1 tid (se_active e)" "se_running (finish tid e) = se_running e"
    "se_busy (finish tid e) = se_busy e - {task_name e tid}"
    "(\<exists>t. se_tasks e i = Some t \<and> t_cancelled t) \<Longrightarrow> \<exists>t. se_tasks (finish tid e) i = Some t \<and> t_cancelled t"
  using assms by (auto simp: finish_def Let_def update_task_def task_name_def fun_eq_iff)

lemma sys_inv_finish:
  assumes "tid \<in> set (sy_workers y)" "sys_inv y"
  shows "sys_inv (y\<lparr>sy_engine := finish tid (sy_engine y), sy_workers := remove1 tid (sy_workers y)\<rparr>)"
proof -
  obtain t where t: "se_tasks (sy_engine y) tid = Some t"
    using assms by (auto simp: sys_inv_def)
  have sub: "set (remove1 tid (sy_workers y)) \<subseteq> set (sy_workers y)" by (rule set_remove1_subset)
  show ?thesis
    using assms(2) adm_inv_finish [OF _ assms(1)] sub finish_fields(6) [OF t]
    unfolding sys_inv_def by (simp add: finish_fields(1-5) [OF t]) blast
qed

lemma update_task_fields:
  "se_running (update_task i f e) = se_running e" "se_active (update_task i f e) = se_active e"
  "se_busy (update_task i f e) = se_busy e"
  "se_tasks (update_task i f e) = (se_tasks e)(i := map_option f (se_tasks e i))"
  by (simp_all add: update_task_def)

lemma fold_cancel:
  "se_running (fold (\<lambda>i. update_task i task_cancel) is e) = se_running e \<and>
   se_active (fold (\<lambda>i. update_task i task_cancel) is e) = se_active e \<and>
   se_busy (fold (\<lambda>i. update_task i task_cancel) is e) = se_busy e \<and>
   se_tasks (fold (\<lambda>i. update_task i task_cancel) is e) =
     (\<lambda>i. if i \<in> set is then map_option task_cancel (se_tasks e i) else se_tasks e i)"
proof (induction "is" arbitrary: e)
  case (Cons j js)
  have "task_cancel (task_cancel t) = task_cancel t" for t by (simp add: task_cancel_def)
  then show ?case
    by (simp add: Cons update_task_fields fun_eq_iff option.map_comp comp_def)
qed simp

lemma fold_store: "se_store (fold (\<lambda>i. update_task i f) is e) = se_store e"
  by (induction "is" arbitrary: e) (simp_all add: update_task_def)

lemma harvest_fields:
  "se_active (stop_harvest e) = []" "se_busy (stop_harvest e) = {}"
  "se_running (stop_harvest e) = se_running e" "task_name (stop_harvest e) = task_name e"
  "dom (se_tasks (stop_harvest e)) = dom (se_tasks e)"
  "i \<in> set (se_active e) \<Longrightarrow> i \<in> dom (se_tasks e) \<Longrightarrow> \<exists>t. se_tasks (stop_harvest e) i = Some t \<and> t_cancelled t"
  "(\<exists>t. se_tasks e i = Some t \<and> t_cancelled t) \<Longrightarrow> \<exists>t. se_tasks (stop_harvest e) i = Some t \<and> t_cancelled t"
  by (auto simp: stop_harvest_def fold_cancel task_name_def task_cancel_def fun_eq_iff
      split: option.split if_splits)

lemma sys_inv_harvest:
  assumes "sy_stopped y" "sys_inv y"
  shows "sys_inv (y\<lparr>sy_engine := stop_harvest (sy_engine y), sy_harvested := True\<rparr>)"
proof -
  have "\<exists>t. se_tasks (stop_harvest (sy_engine y)) i = Some t \<and> t_cancelled t"
    if "i \<in> set (sy_workers y)" for i
  proof (cases "sy_harvested y")
    case True
    with that assms(2) show ?thesis by (intro harvest_fields(7)) (simp add: sys_inv_def)
  next
    case False
    with that assms(2) show ?thesis
      by (intro harvest_fields(6)) (auto simp: sys_inv_def adm_inv_def)
  qed
  with assms show ?thesis
    by (auto simp: sys_inv_def harvest_fields(1-5) intro: adm_inv_harvest)
qed

lemma task_name_tasks: "se_tasks e' = se_tasks e \<Longrightarrow> task_name e' = task_name e"
  by (simp add: task_name_def fun_eq_iff)

lemma sys_inv_stop_signal:
  "sys_inv y \<Longrightarrow> sys_inv (y\<lparr>sy_engine := stop_signal (sy_engine y), sy_stopped := True\<rparr>)"
  using task_name_tasks [of "stop_signal (sy_engine y)" "sy_engine y"]
  by (simp add: sys_inv_def stop_signal_def)

lemma sys_inv_start:
  assumes "engine_start ck now (sy_engine y) = Returns e" "\<not> sy_stopped y" "sys_inv y"
  shows "sys_inv (y\<lparr>sy_engine := e\<rparr>)"
proof (cases "se_running (sy_engine y)")
  case True
  with assms(1) have "y\<lparr>sy_engine := e\<rparr> = y" by (simp add: engine_start_def)
  with assms(3) show ?thesis by simp
next
  case False
  let ?e1 = "(sy_engine y)\<lparr>se_running := True, se_cron := cron_start (se_cron (sy_engine y))\<rparr>"
  have "sys_inv (y\<lparr>sy_engine := ?e1\<rparr>)" 
    using assms(2,3) task_name_tasks [of ?e1 "sy_engine y"] by (auto simp: sys_inv_def)
  moreover have "same_admission ?e1 e"
    using assms(1) False same_admission_load by (auto simp: engine_start_def Let_def split: if_splits)
  ultimately show ?thesis using sys_inv_same [of "y\<lparr>sy_engine := ?e1\<rparr>" e] by simp
qed

lemma sys_inv_step: "sys_step y y' \<Longrightarrow> sys_inv y \<Longrightarrow> sys_inv y'"
proof (induction rule: sys_step.induct)
  case (SyStart ck now y e)
  then show ?case by (simp add: sys_inv_start)
next
  case (SyAdmit key y tid now action r e)
  then show ?case by (rule sys_inv_admit)
next
  case (SyFinish tid y)
  then show ?case by (rule sys_inv_finish)
next
  case (SyReserve key y u e)
  then show ?case by (rule sys_inv_reserve)
next
  case (SyStopHarvest y)
  then show ?case by (rule sys_inv_harvest)
qed (auto intro!: sys_inv_same sys_inv_stop_signal intro: same_admission_attach same_admission_detach
    same_admission_register same_admission_flow same_admission_run_begin same_admission_run_progress
    same_admission_run_end same_admission_wait same_admission_stop_sync)

lemma sys_inv_reach: "sys_reach y \<Longrightarrow> sys_inv y"
proof (induction rule: sys_reach.induct)
  case sys_init
  then show ?case
    by (simp add: sys_inv_def adm_inv_def system_new_def engine_new_def)
qed (rule sys_inv_step)

section \<open>Exclusion\<close>

text \<open>
  C5: one run per key. Whatever threads start, stop, wait for and finish tasks, attach and
  detach the data plane and change schedules, in any interleaving of an engine that is started
  once, no two live workers run for the same profile or flow operation.
\<close>

theorem one_worker_per_key:
  assumes "sys_reach y"
  shows "distinct (sy_workers y) \<and> distinct (map (task_name (sy_engine y)) (sy_workers y))"
  using sys_inv_reach [OF assms] by (simp add: sys_inv_def adm_inv_def)

definition demo_store :: engine_store where
  "demo_store = \<lparr> es_get_profile = (\<lambda>_. Err NotFound), es_list_schedules = Ok [], es_list_flows = Ok [] \<rparr>"

definition demo_engine :: sync_engine where
  "demo_engine = engine_new\<lparr>se_running := True, se_cron := runner_new\<lparr>cr_running := True\<rparr>\<rparr>"

definition demo_system :: sync_system where
  "demo_system =
     (let e1 = snd (reserve ''p'' demo_engine); e2 = snd (admit 7 ''T'' ''push'' ''p'' e1) in
      system_new\<lparr>sy_engine := e2, sy_workers := [''T'']\<rparr>)"

lemma demo_started: "sys_reach (system_new\<lparr>sy_engine := demo_engine\<rparr>)"
proof (rule sys_next [OF sys_init])
  have "engine_start ck now (sy_engine system_new) = Returns demo_engine" for ck now
    by (simp add: engine_start_def system_new_def engine_new_def demo_engine_def runner_new_def cron_start_def)
  then show "sys_step system_new (system_new\<lparr>sy_engine := demo_engine\<rparr>)"
    by (rule SyStart) (simp add: system_new_def)
qed

lemma demo_reached: "sys_reach demo_system"
proof -
  let ?y0 = "system_new\<lparr>sy_engine := demo_engine\<rparr>"
  let ?e1 = "snd (reserve ''p'' demo_engine)"
  let ?y1 = "?y0\<lparr>sy_engine := ?e1, sy_reserved := [''p'']\<rparr>"
  have "reserve ''p'' (sy_engine ?y0) = (Ok (), ?e1)"
    by (simp add: reserve_def demo_engine_def engine_new_def)
  from SyReserve [OF this] have "sys_step ?y0 ?y1" by (simp add: system_new_def)
  with demo_started have y1: "sys_reach ?y1" by (rule sys_next)
  have a: "admit 7 ''T'' ''push'' ''p'' (sy_engine ?y1) = (Ok ''T'', snd (admit 7 ''T'' ''push'' ''p'' ?e1))"
    by (simp add: admit_def reserve_def demo_engine_def engine_new_def)
  have "sys_step ?y1 demo_system"
    using SyAdmit [OF _ _ a]
    by (simp add: demo_system_def system_new_def reserve_def demo_engine_def engine_new_def Let_def)
  with y1 show ?thesis by (rule sys_next)
qed

theorem one_worker_per_key_witness:
  "sy_workers demo_system = [''T''] \<and> distinct (map (task_name (sy_engine demo_system)) (sy_workers demo_system))"
  using one_worker_per_key [OF demo_reached] by (simp add: demo_system_def Let_def)

text \<open>The abstract lock table: a set of held keys; a step takes a free key, gives one back, or neither.\<close>

definition lock_step :: "string set \<Rightarrow> string set \<Rightarrow> bool" where
  "lock_step held held' \<longleftrightarrow> held' = held \<or> (\<exists>k. k \<notin> held \<and> held' = insert k held) \<or>
     (\<exists>k \<in> held. held' = held - {k})"

definition held_keys :: "sync_system \<Rightarrow> string set" where
  "held_keys y = task_name (sy_engine y) ` set (sy_workers y) \<union> set (sy_reserved y)"

lemma held_busy: "sys_inv y \<Longrightarrow> \<not> sy_harvested y \<Longrightarrow> held_keys y = se_busy (sy_engine y)"
  by (simp add: sys_inv_def adm_inv_def held_keys_def)

lemma lock_step_same: "same_admission a b \<Longrightarrow> lock_step (se_busy a) (se_busy b)"
  by (simp add: lock_step_def same_admission_def)

lemma busy_start: "engine_start ck now e = Returns e' \<Longrightarrow> se_busy e' = se_busy e"
proof -
  assume a: "engine_start ck now e = Returns e'"
  let ?e1 = "e\<lparr>se_running := True, se_cron := cron_start (se_cron e)\<rparr>"
  have "e' = e \<or> same_admission ?e1 e'"
    using a same_admission_load by (auto simp: engine_start_def Let_def split: if_splits)
  then show ?thesis by (auto simp: same_admission_def)
qed

lemma busy_step:
  assumes "sys_step y y'" "sys_inv y" "\<not> sy_harvested y'"
  shows "lock_step (se_busy (sy_engine y)) (se_busy (sy_engine y'))"
  using assms
proof (induction rule: sys_step.induct)
  case (SyReserve key y u e)
  then show ?case by (auto simp: reserve_def lock_step_def split: if_splits)
next
  case (SyAdmit key y tid now action r e)
  then have key: "key \<in> se_busy (sy_engine y)" by (auto simp: sys_inv_def adm_inv_def)
  from SyAdmit(3) show ?case
    by (cases rule: admit_cases) (use key in \<open>auto simp: lock_step_def insert_absorb\<close>)
next
  case (SyFinish tid y)
  then obtain t where t: "se_tasks (sy_engine y) tid = Some t" by (auto simp: sys_inv_def)
  have "task_name (sy_engine y) tid \<in> se_busy (sy_engine y)"
    using SyFinish by (auto simp: sys_inv_def adm_inv_def)
  then show ?case by (auto simp: lock_step_def finish_fields(5) [OF t])
next
  case (SyStart ck now y e)
  then show ?case by (simp add: lock_step_def busy_start)
next
  case (SyStopSignal y)
  then show ?case by (simp add: lock_step_def stop_signal_def)
next
  case (SyStopHarvest y)
  then show ?case by simp
qed (auto intro: lock_step_same same_admission_attach same_admission_detach
    same_admission_register same_admission_flow same_admission_run_begin same_admission_run_progress
    same_admission_run_end same_admission_wait same_admission_stop_sync)

lemma reach_not_harvested: "sys_step y y' \<Longrightarrow> \<not> sy_harvested y' \<Longrightarrow> \<not> sy_harvested y"
  by (induction rule: sys_step.induct) simp_all



text \<open>
  C26: a stopped engine leaves no run going. Once stop has drained the active tasks, in every
  interleaving every worker still alive has been told to cancel, the engine is not running, no
  task is active, and a request that had reserved its key before the stop is refused as not
  running instead of being started.
\<close>

theorem stop_cancels_workers:
  assumes "sys_reach y" "sy_harvested y"
  shows "\<not> se_running (sy_engine y) \<and>
    list_all (\<lambda>i. case se_tasks (sy_engine y) i of Some t \<Rightarrow> t_cancelled t | None \<Rightarrow> False) (sy_workers y) \<and>
    fst (admit now tid action key (sy_engine y)) = Err NotRunning \<and>
    active_tasks (stop_harvest (sy_engine y)) = []"
proof -
  have i: "sys_inv y" using assms(1) by (rule sys_inv_reach)
  have "\<forall>i \<in> set (sy_workers y). \<exists>t. se_tasks (sy_engine y) i = Some t \<and> t_cancelled t"
    and r: "\<not> se_running (sy_engine y)"
    using i assms(2) by (auto simp: sys_inv_def)
  then have "list_all (\<lambda>i. case se_tasks (sy_engine y) i of Some t \<Rightarrow> t_cancelled t | None \<Rightarrow> False) (sy_workers y)"
    by (fastforce simp: list_all_iff)
  with r show ?thesis by (simp add: admit_def active_tasks_def harvest_fields(1) map_filter_simps)
qed

theorem stop_cancels_workers_witness:
  "\<exists>y. sys_reach y \<and> sy_workers y = [''T''] \<and> \<not> se_running (sy_engine y) \<and>
     list_all (\<lambda>i. case se_tasks (sy_engine y) i of Some t \<Rightarrow> t_cancelled t | None \<Rightarrow> False) (sy_workers y)"
proof -
  let ?y1 = "demo_system\<lparr>sy_engine := stop_signal (sy_engine demo_system), sy_stopped := True\<rparr>"
  let ?y2 = "?y1\<lparr>sy_engine := stop_harvest (sy_engine ?y1), sy_harvested := True\<rparr>"
  have "sys_reach ?y1" using demo_reached SyStopSignal by (rule sys_next)
  then have "sys_reach ?y2" using SyStopHarvest [of ?y1] by (rule sys_next) simp
  moreover have "sy_harvested ?y2" "sy_workers ?y2 = [''T'']"
    by (simp_all add: demo_system_def system_new_def Let_def)
  ultimately show ?thesis using stop_cancels_workers [of ?y2] by blast
qed

section \<open>The outcome of a run\<close>

text \<open>What the caller of \<open>wait_task\<close> and the history row say of an answer of the client.\<close>

definition run_cancelled :: "sync_task \<Rightarrow> client_answer \<Rightarrow> bool" where
  "run_cancelled t ans \<longleftrightarrow>
     (case ans of Some (Inl err) \<Rightarrow> t_cancelled t \<or> t_status t = ''cancelled'' \<or> sf_cancelled err | _ \<Rightarrow> False)"

definition run_state :: "sync_task \<Rightarrow> client_answer \<Rightarrow> string" where
  "run_state t ans =
     (case ans of Some (Inl err) \<Rightarrow> if run_cancelled t ans then ''cancelled'' else ''failed''
      | _ \<Rightarrow> ''completed'')"

definition run_answer :: "sync_task \<Rightarrow> client_answer \<Rightarrow> (sync_engine_error, unit) result" where
  "run_answer t ans =
     (case ans of
        Some (Inl err) \<Rightarrow>
          if run_cancelled t ans then Err TaskCancelled
          else Err (TaskFailed (truncate_string (sanitize_rclone_err (sf_message err)) 240))
      | _ \<Rightarrow> Ok ())"

lemma save_history_fields [simp]:
  "se_tasks (save_history h e) = se_tasks e" "se_events (save_history h e) = se_events e"
  "se_store (save_history h e) = se_store e" "se_active (save_history h e) = se_active e"
  "se_busy (save_history h e) = se_busy e" "se_outcomes (save_history h e) = se_outcomes e"
  "se_history (save_history h e) = (if se_store e = None then se_history e else se_history e @ [h])"
  by (simp_all add: save_history_def split: option.split)

lemma publish_event_fields [simp]:
  "se_tasks (publish_event ev e) = se_tasks e" "se_events (publish_event ev e) = se_events e @ [ev]"
  "se_store (publish_event ev e) = se_store e" "se_active (publish_event ev e) = se_active e"
  "se_busy (publish_event ev e) = se_busy e" "se_outcomes (publish_event ev e) = se_outcomes e"
  "se_history (publish_event ev e) = se_history e"
  by (simp_all add: publish_event_def)

lemma update_task_more [simp]:
  "se_events (update_task i f e) = se_events e" "se_store (update_task i f e) = se_store e"
  "se_history (update_task i f e) = se_history e" "se_outcomes (update_task i f e) = se_outcomes e"
  by (simp_all add: update_task_def)

definition run_error :: "sync_task \<Rightarrow> client_answer \<Rightarrow> string" where
  "run_error t ans =
     (case ans of
        Some (Inl err) \<Rightarrow> if run_cancelled t ans then []
                          else truncate_string (sanitize_rclone_err (sf_message err)) 240
      | _ \<Rightarrow> t_error t)"

lemma run_end_task:
  assumes "se_tasks e tid = Some t"
  obtains t' where "se_tasks (run_end rfc3339 now tid p action ans e) tid = Some t'"
    "t_status t' = run_state t ans" "t_name t' = t_name t" "t_error t' = run_error t ans"
proof -
  have "\<exists>t'. se_tasks (run_end rfc3339 now tid p action ans e) tid = Some t' \<and>
    t_status t' = run_state t ans \<and> t_name t' = t_name t \<and> t_error t' = run_error t ans"
    using assms
    by (auto simp: run_end_def run_failed_def run_completed_def Let_def update_task_fields
        run_state_def run_error_def run_cancelled_def split: option.split sum.split)
  then show ?thesis using that by (elim exE conjE)
qed

lemma run_end_history:
  assumes "se_tasks e tid = Some t" "se_store e = Some s"
  shows "\<exists>h. se_history (run_end rfc3339 now tid p action ans e) = se_history e @ [h] \<and>
    h_id h = tid \<and> h_state h = run_state t ans"
  using assms
  by (auto simp: run_end_def run_failed_def run_completed_def Let_def history_done_def
      run_state_def run_cancelled_def split: option.split sum.split)

text \<open>The last event of a run and whether it reports success.\<close>

definition event_success :: "bus_event \<Rightarrow> bool" where
  "event_success ev \<longleftrightarrow> (case ev of SyncCompleted _ \<Rightarrow> True | _ \<Rightarrow> False)"

lemma run_end_event:
  assumes "se_tasks e tid = Some t"
  shows "se_events (run_end rfc3339 now tid p action ans e) \<noteq> [] \<and>
    (event_success (last (se_events (run_end rfc3339 now tid p action ans e))) \<longleftrightarrow> run_state t ans = ''completed'')"
  using assms
  by (auto simp: run_end_def run_failed_def run_completed_def Let_def event_success_def
      run_state_def ev_sync_completed_def split: option.split sum.split)

lemma finish_outcome:
  assumes "se_tasks e tid = Some t" "t_status t \<noteq> []" "t_status t \<noteq> ''running''"
  shows "se_outcomes (finish tid e) tid = Some \<lparr> to_status = t_status t, to_err_msg = t_error t \<rparr>"
  using assms by (simp add: finish_def Let_def)

lemma outcome_of_state:
  "outcome_result \<lparr> to_status = run_state t ans, to_err_msg = run_error t ans \<rparr> = run_answer t ans"
  by (auto simp: run_state_def run_error_def run_answer_def outcome_result_def split: option.split sum.split)

lemma run_outcome:
  assumes "se_tasks e tid = Some t"
  shows "\<exists>out. se_outcomes (finish tid (run_end rfc3339 now tid p action ans e)) tid = Some out \<and>
    outcome_result out = run_answer t ans"
proof -
  obtain t' where t': "se_tasks (run_end rfc3339 now tid p action ans e) tid = Some t'"
    "t_status t' = run_state t ans" "t_error t' = run_error t ans"
    by (rule run_end_task [OF assms])
  have "t_status t' \<noteq> []" "t_status t' \<noteq> ''running''"
    unfolding t'(2) by (auto simp: run_state_def split: option.splits sum.splits)
  from finish_outcome [OF t'(1) this] show ?thesis
    unfolding t'(2,3) using outcome_of_state by blast
qed

text \<open>A worker that panics never reaches \<open>run_end\<close>; its guard still reports a failure.\<close>

lemma panicked_run:
  assumes "se_tasks e tid = Some t" "t_status t = ''running''"
  shows "fst (wait_poll tid False (finish tid e)) = Some (Err (TaskFailed (t_error t)))"
  using assms by (simp add: finish_def wait_poll_def Let_def outcome_result_def)



section \<open>Where the guarantees stop\<close>

text \<open>
  A stop of the task after its result was decided and before its guard ran: the history says
  completed, the waiter is told cancelled.
\<close>

lemma late_cancel_disagrees:
  assumes "se_tasks e tid = Some t" "tid \<in> set (se_active e)" "se_store e = Some s"
    "e' = finish tid (snd (stop_sync tid (run_end rfc3339 now tid p action None e)))"
  shows "fst (wait_poll tid False e') = Some (Err TaskCancelled) \<and>
    h_state (last (se_history e')) = ''completed''"
proof -
  let ?r = "run_end rfc3339 now tid p action None e"
  obtain t' where t': "se_tasks ?r tid = Some t'" by (rule run_end_task [OF assms(1)])
  have a: "tid \<in> set (se_active ?r)"
    using same_admission_run_end [of e rfc3339 now tid p action None] assms(2)
    by (simp add: same_admission_def)
  obtain h where h: "se_history ?r = se_history e @ [h]" "h_state h = ''completed''"
    using run_end_history [OF assms(1,3), of rfc3339 now p action None] by (auto simp: run_state_def)
  have "se_outcomes e' tid = Some \<lparr> to_status = ''cancelled'', to_err_msg = t_error t' \<rparr>"
    "se_history e' = se_history ?r"
    using t' a by (simp_all add: assms(4) finish_def stop_sync_def Let_def update_task_fields task_cancel_def)
  then show ?thesis by (simp add: wait_poll_def outcome_result_def h)
qed

text \<open>
  A restart while a request is between its reservation and its admission: \<open>stop\<close> clears the
  busy keys, the restarted engine reserves the same key again, and both requests are admitted.
\<close>

lemma stop_start_race:
  assumes "se_running e" "key \<notin> se_busy e" "se_store e = None" "i \<noteq> j"
    "snd (reserve key e) = e1" "stop_harvest (stop_signal e1) = e2" "engine_start ck now e2 = Returns e3"
    "snd (reserve key e3) = e4" "snd (admit now i action key e4) = e5" "snd (admit now j action key e5) = e6"
  shows "fst (reserve key e3) = Ok () \<and> {i, j} \<subseteq> set (se_active e6) \<and> task_name e6 i = key \<and> task_name e6 j = key"
proof -
  have e2: "\<not> se_running e2" "se_busy e2 = {}" "se_active e2 = []" "se_store e2 = None"
    using assms(3,5) by (auto simp: assms(6) [symmetric] harvest_fields stop_signal_def stop_harvest_def reserve_def
        fold_cancel fold_store split: if_splits)
  have e3: "se_running e3" "se_busy e3 = {}" "se_active e3 = []"
    using assms(7) e2 by (auto simp: engine_start_def Let_def)
  have e4: "fst (reserve key e3) = Ok ()" "se_running e4"
    using e3 by (auto simp: assms(8) [symmetric] reserve_def)
  have e5: "se_running e5" "i \<in> set (se_active e5)" "task_name e5 i = key"
    using e4 by (auto simp: assms(9) [symmetric] admit_def publish_event_def task_name_def task_new_def)
  then have "{i, j} \<subseteq> set (se_active e6)" "task_name e6 i = key" "task_name e6 j = key"
    using assms(4) by (auto simp: assms(10) [symmetric] admit_def publish_event_def task_name_def task_new_def)
  with e4 show ?thesis by simp
qed

end
