(* ===== verification/FlowEngine.thy ===== *)
theory FlowEngine
  imports SyncEngine
begin

text \<open>
  \<open>crates/gn-drive-core/src/flow_engine.rs\<close>: a flow's operations run one after another through
  the sync engine. \<open>flow_begin\<close>, \<open>flow_stop\<close>, \<open>flow_status\<close> and \<open>flow_statuses\<close> are the calls of
  other threads; the thread of a run is a \<open>flow_worker\<close> with a program counter, one step per
  place where it takes a lock or publishes. \<open>profile_from_sync_config\<close> reads an operation's
  settings. The stored flow is asked through a function; \<open>\<open>U+2026\<close>\<close>, which the code appends to a
  shortened message, is outside the character range and is the argument \<open>ellipsis\<close>.
\<close>

section \<open>Reading a settings bag\<close>

definition find_key :: "(json \<Rightarrow> 'a option) \<Rightarrow> json_dict \<Rightarrow> string list \<Rightarrow> 'a option" where
  "find_key read m keys =
     (case List.map_filter (\<lambda>k. Option.bind (map_of m k) read) keys of [] \<Rightarrow> None | v # _ \<Rightarrow> Some v)"

definition bool_v :: "json_dict \<Rightarrow> string list \<Rightarrow> bool option" where
  "bool_v m keys = find_key as_bool m keys"

fun read_int :: "json \<Rightarrow> int option" where
  "read_int (JInt i) = (case as_i64 (JInt i) of Some n \<Rightarrow> Some n
                        | None \<Rightarrow> map_option f64_as_i64 (as_f64 (JInt i)))"
| "read_int (JFloat r) = Some (f64_as_i64 (Fin r))"
| "read_int (JString s) = parse_i64 (trim_ws s)"
| "read_int _ = None"

definition int_v :: "json_dict \<Rightarrow> string list \<Rightarrow> int option" where
  "int_v m keys = find_key read_int m keys"

fun read_double :: "json \<Rightarrow> f64 option" where
  "read_double (JString s) = parse_f64 (trim_ws s)"
| "read_double v = as_f64 v"

definition double_v :: "json_dict \<Rightarrow> string list \<Rightarrow> f64 option" where
  "double_v m keys = find_key read_double m keys"

fun read_string :: "json \<Rightarrow> string option" where
  "read_string (JString s) = (if trim_ws s \<noteq> [] then Some (trim_ws s) else None)"
| "read_string _ = None"

definition string_v :: "json_dict \<Rightarrow> string list \<Rightarrow> string option" where
  "string_v m keys = find_key read_string m keys"

fun read_strings :: "json \<Rightarrow> string list option" where
  "read_strings (JArray a) = Some (filter (\<lambda>s. s \<noteq> []) (map trim_ws (List.map_filter as_str a)))"
| "read_strings _ = None"

definition strings_v :: "json_dict \<Rightarrow> string list \<Rightarrow> string list option" where
  "strings_v m keys = find_key read_strings m keys"

definition positive :: "int option \<Rightarrow> int option" where
  "positive v = (case v of Some n \<Rightarrow> if n > 0 then Some n else None | None \<Rightarrow> None)"

definition positive_f64 :: "f64 option \<Rightarrow> f64 option" where
  "positive_f64 v = (case v of Some x \<Rightarrow> if f64_pos x then Some x else None | None \<Rightarrow> None)"

text \<open>\<open>if let Some(v) = ... { p.field = v; }\<close>: keep the old value when the key is absent.\<close>

definition keep :: "'a option \<Rightarrow> 'a \<Rightarrow> 'a" where
  "keep v d = (case v of Some x \<Rightarrow> x | None \<Rightarrow> d)"

definition keep_some :: "'a option \<Rightarrow> 'a option \<Rightarrow> 'a option" where
  "keep_some v d = (case v of Some x \<Rightarrow> Some x | None \<Rightarrow> d)"

definition profile_from_sync_config :: "json_dict \<Rightarrow> profile" where
  "profile_from_sync_config m =
     (let p = profile_default\<lparr>p_parallel := 4\<rparr> in p\<lparr>
        p_dry_run := keep (bool_v m [''dry_run'', ''dryRun'']) (p_dry_run p),
        p_parallel := keep (positive (int_v m [''parallel''])) (p_parallel p),
        p_bandwidth := keep (positive (int_v m [''bandwidth''])) (p_bandwidth p),
        p_multi_thread_streams := keep_some (positive (int_v m [''multi_thread_streams'', ''multiThreadStreams'']))
          (p_multi_thread_streams p),
        p_buffer_size := keep (string_v m [''buffer_size'', ''bufferSize'']) (p_buffer_size p),
        p_retries := keep_some (positive (int_v m [''retries''])) (p_retries p),
        p_low_level_retries := keep_some (positive (int_v m [''low_level_retries'', ''lowLevelRetries'']))
          (p_low_level_retries p),
        p_max_duration := keep (string_v m [''max_duration'', ''maxDuration'']) (p_max_duration p),
        p_check_first := keep (bool_v m [''check_first'', ''checkFirst'']) (p_check_first p),
        p_order_by := keep (string_v m [''order_by'', ''orderBy'']) (p_order_by p),
        p_retries_sleep := keep (string_v m [''retries_sleep'', ''retriesSleep'']) (p_retries_sleep p),
        p_tps_limit := keep_some (positive_f64 (double_v m [''tps_limit'', ''tpsLimit''])) (p_tps_limit p),
        p_conn_timeout := keep (string_v m [''conn_timeout'', ''connTimeout'']) (p_conn_timeout p),
        p_io_timeout := keep (string_v m [''io_timeout'', ''ioTimeout'']) (p_io_timeout p),
        p_included_paths := keep (strings_v m [''included_paths'', ''includedPaths'']) (p_included_paths p),
        p_excluded_paths := keep (strings_v m [''excluded_paths'', ''excludedPaths'']) (p_excluded_paths p),
        p_min_size := keep (string_v m [''min_size'', ''minSize'']) (p_min_size p),
        p_max_size := keep (string_v m [''max_size'', ''maxSize'']) (p_max_size p),
        p_max_age := keep (string_v m [''max_age'', ''maxAge'']) (p_max_age p),
        p_min_age := keep (string_v m [''min_age'', ''minAge'']) (p_min_age p),
        p_max_depth := keep_some (positive (int_v m [''max_depth'', ''maxDepth''])) (p_max_depth p),
        p_filter_from_file := keep (string_v m [''filter_from_file'', ''filterFromFile'']) (p_filter_from_file p),
        p_exclude_if_present := keep (string_v m [''exclude_if_present'', ''excludeIfPresent''])
          (p_exclude_if_present p),
        p_use_regex := keep (bool_v m [''use_regex'', ''useRegex'']) (p_use_regex p),
        p_delete_excluded := keep (bool_v m [''delete_excluded'', ''deleteExcluded'']) (p_delete_excluded p),
        p_max_delete := keep_some (positive (int_v m [''max_delete'', ''maxDelete''])) (p_max_delete p),
        p_immutable := keep (bool_v m [''immutable'']) (p_immutable p),
        p_max_transfer := keep (string_v m [''max_transfer'', ''maxTransfer'']) (p_max_transfer p),
        p_max_delete_size := keep (string_v m [''max_delete_size'', ''maxDeleteSize'']) (p_max_delete_size p),
        p_suffix := keep (string_v m [''suffix'']) (p_suffix p),
        p_suffix_keep_extension := keep (bool_v m [''suffix_keep_extension'', ''suffixKeepExtension''])
          (p_suffix_keep_extension p),
        p_backup_path := keep (string_v m [''backup_path'', ''backupPath'']) (p_backup_path p),
        p_size_only := keep (bool_v m [''size_only'', ''sizeOnly'']) (p_size_only p),
        p_update_mode := keep (bool_v m [''update_mode'', ''updateMode'']) (p_update_mode p),
        p_ignore_existing := keep (bool_v m [''ignore_existing'', ''ignoreExisting'']) (p_ignore_existing p),
        p_delete_timing := keep (string_v m [''delete_timing'', ''deleteTiming'']) (p_delete_timing p),
        p_conflict_resolution := keep (string_v m [''conflict_resolution'', ''conflictResolution''])
          (p_conflict_resolution p),
        p_resilient := keep (bool_v m [''resilient'']) (p_resilient p),
        p_max_lock := keep (string_v m [''max_lock'', ''maxLock'']) (p_max_lock p),
        p_check_access := keep (bool_v m [''check_access'', ''checkAccess'']) (p_check_access p),
        p_conflict_loser := keep (string_v m [''conflict_loser'', ''conflictLoser'']) (p_conflict_loser p),
        p_conflict_suffix := keep (string_v m [''conflict_suffix'', ''conflictSuffix'']) (p_conflict_suffix p)\<rparr>)"

section \<open>Messages\<close>

text \<open>\<open>str::replace\<close> with the empty string: the occurrences of a non-empty pattern removed, left to right.\<close>

function remove_all :: "string \<Rightarrow> string \<Rightarrow> string" where
  "remove_all p s =
     (if p = [] then s
      else case find_sub p s of None \<Rightarrow> s | Some i \<Rightarrow> take i s @ remove_all p (drop (i + length p) s))"
  by pat_completeness auto

termination
proof (relation "measure (\<lambda>(p, s). length s)", goal_cases)
  case (2 p s i)
  have "i + length p \<le> length s" using 2(2) by (rule find_sub_bound)
  with 2(1) show ?case by (cases p) auto
qed simp

declare remove_all.simps [simp del]

definition friendly_task_err :: "string \<Rightarrow> sync_engine_error \<Rightarrow> string" where
  "friendly_task_err ellipsis err =
     (let s = (case err of TaskFailed m \<Rightarrow> m | e \<Rightarrow> sync_engine_error_display e);
          s = remove_all (''syncengine: task failed'' @ [CHR 0x0A]) s;
          s = remove_all ''syncengine: task failed: '' s;
          s = trim_by (\<lambda>c. c \<in> {CHR ''('', CHR '')'', CHR 0x22, CHR 0x27, CHR '' ''}) s;
          s = (case find_sub ''(stderr:'' s of Some i \<Rightarrow> trim_ws (take i s) | None \<Rightarrow> s)
      in if length s > 200 then take 200 s @ ellipsis else s)"

section \<open>Engine state and its calls\<close>

datatype flow_engine_error = FlowAlreadyRunning | FlowNotRunning | EmptyFlow | FlowEngineNotReady | FlowStore store_error

fun flow_engine_error_display :: "flow_engine_error \<Rightarrow> string" where
  "flow_engine_error_display FlowAlreadyRunning = ''flow is already running''"
| "flow_engine_error_display FlowNotRunning = ''flow is not running''"
| "flow_engine_error_display EmptyFlow = ''flow has no operations''"
| "flow_engine_error_display FlowEngineNotReady = ''flow engine is not ready''"
| "flow_engine_error_display (FlowStore e) = store_error_display e"

record flow_run =
  fr_cancelled :: bool
  fr_status :: string

type_synonym get_flow_fn = "string \<Rightarrow> (store_error, flow) result"

record flow_engine =
  fe_source :: "get_flow_fn option" \<comment> \<open>attached store and sync engine\<close>
  fe_runs :: "(string \<times> flow_run) list"
  fe_last :: "(string \<times> string) list"
  fe_events :: "bus_event list"

definition flow_engine_new :: flow_engine where
  "flow_engine_new = \<lparr> fe_source = None, fe_runs = [], fe_last = [], fe_events = [] \<rparr>"

definition flow_attach :: "get_flow_fn \<Rightarrow> flow_engine \<Rightarrow> flow_engine" where
  "flow_attach g fe = fe\<lparr>fe_source := Some g\<rparr>"

definition flow_detach :: "flow_engine \<Rightarrow> flow_engine" where
  "flow_detach fe = fe\<lparr>fe_source := None\<rparr>"

definition flow_publish :: "int \<Rightarrow> string \<Rightarrow> string \<Rightarrow> string \<Rightarrow> string \<Rightarrow> flow_engine \<Rightarrow> flow_engine" where
  "flow_publish now flow_id oid status msg fe =
     fe\<lparr>fe_events := fe_events fe @ [ev_flow_execution now flow_id oid status msg,
                                     ev_board_execution now flow_id oid [] status msg]\<rparr>"

definition flow_is_running :: "string \<Rightarrow> flow_engine \<Rightarrow> bool" where
  "flow_is_running flow_id fe \<longleftrightarrow> map_of (fe_runs fe) flow_id \<noteq> None"

definition flow_status :: "string \<Rightarrow> flow_engine \<Rightarrow> string" where
  "flow_status flow_id fe =
     (case map_of (fe_runs fe) flow_id of
        Some r \<Rightarrow> fr_status r
      | None \<Rightarrow> (case map_of (fe_last fe) flow_id of Some s \<Rightarrow> s | None \<Rightarrow> ''idle''))"

definition flow_statuses :: "flow_engine \<Rightarrow> (string \<times> string) list" where
  "flow_statuses fe =
     fold (\<lambda>(i, r) out. if fr_status r \<noteq> [] then AList.update i (fr_status r) out else out)
       (fe_runs fe) (filter (\<lambda>(i, s). s \<noteq> []) (fe_last fe))"

text \<open>\<open>begin\<close>: the checks, then registration under the state lock, then the \<open>running\<close> event.\<close>

definition flow_begin :: "int \<Rightarrow> string \<Rightarrow> flow_engine \<Rightarrow> (flow_engine_error, flow) result \<times> flow_engine" where
  "flow_begin now flow_id fe =
     (case fe_source fe of
        None \<Rightarrow> (Err FlowEngineNotReady, fe)
      | Some get \<Rightarrow>
          (case get flow_id of
             Err e \<Rightarrow> (Err (FlowStore e), fe)
           | Ok f \<Rightarrow>
               if f_operations f = [] then (Err EmptyFlow, fe)
               else if map_of (fe_runs fe) flow_id \<noteq> None then (Err FlowAlreadyRunning, fe)
               else (Ok f, flow_publish now flow_id [] ''running'' []
                      (fe\<lparr>fe_runs := AList.update flow_id \<lparr> fr_cancelled = False, fr_status = ''running'' \<rparr>
                              (fe_runs fe),
                          fe_last := AList.delete flow_id (fe_last fe)\<rparr>))))"

definition flow_stop :: "int \<Rightarrow> string \<Rightarrow> flow_engine \<Rightarrow> (flow_engine_error, unit) result \<times> flow_engine" where
  "flow_stop now flow_id fe =
     (case map_of (fe_runs fe) flow_id of
        None \<Rightarrow> (Err FlowNotRunning, fe)
      | Some r \<Rightarrow> (Ok (), flow_publish now flow_id [] ''cancelling'' []
          (fe\<lparr>fe_runs := AList.update flow_id \<lparr> fr_cancelled = True, fr_status = ''cancelling'' \<rparr> (fe_runs fe)\<rparr>)))"

definition flow_is_cancelled :: "string \<Rightarrow> flow_engine \<Rightarrow> bool" where
  "flow_is_cancelled flow_id fe =
     (case map_of (fe_runs fe) flow_id of Some r \<Rightarrow> fr_cancelled r | None \<Rightarrow> False)"

section \<open>The thread of a run\<close>

text \<open>
  Where \<open>run_ops\<close> is: before the cancellation check of the next operation, before it starts,
  in the loop of \<open>wait_task\<close>, with the answer of \<open>wait_task\<close>, or returned with a final status.
  \<open>fw_log\<close> lists what the run has published about its operations.
\<close>

datatype flow_pc =
    FpCheck "flow_operation list"
  | FpStart flow_operation "flow_operation list"
  | FpWait string flow_operation "flow_operation list"
  | FpWaited "(sync_engine_error, unit) result" string flow_operation "flow_operation list"
  | FpEnd string

record flow_worker =
  fw_flow :: flow
  fw_pc :: flow_pc
  fw_log :: "(string \<times> string) list"

definition flow_worker_new :: "flow \<Rightarrow> flow_worker" where
  "flow_worker_new f = \<lparr> fw_flow = f, fw_pc = FpCheck (f_operations f), fw_log = [] \<rparr>"

definition op_busy_key :: "flow \<Rightarrow> flow_operation \<Rightarrow> string" where
  "op_busy_key f op = f_id f @ '':'' @ op_id op"

definition op_from :: "flow_operation \<Rightarrow> string" where
  "op_from op = compose_path (op_source_remote op) (op_source_path op)"

definition op_to :: "flow_operation \<Rightarrow> string" where
  "op_to op = compose_path (op_target_remote op) (op_target_path op)"

text \<open>One stage: the new place, what it published about the operation, and both engines.\<close>

type_synonym flow_stage = "flow_pc \<times> (string \<times> string) list \<times> flow_engine \<times> sync_engine"

definition report :: "int \<Rightarrow> flow \<Rightarrow> flow_operation \<Rightarrow> string \<Rightarrow> string \<Rightarrow> flow_pc \<Rightarrow> flow_engine \<Rightarrow> sync_engine \<Rightarrow> flow_stage" where
  "report now f op status msg pc fe se =
     (pc, [(op_id op, status)], flow_publish now (f_id f) (op_id op) status msg fe, se)"

definition op_start :: "int \<Rightarrow> string \<Rightarrow> flow \<Rightarrow> flow_operation \<Rightarrow> flow_operation list \<Rightarrow>
    flow_engine \<Rightarrow> sync_engine \<Rightarrow> flow_stage" where
  "op_start now tid f op ops fe se =
     (let fe1 = flow_publish now (f_id f) (op_id op) ''running'' [] fe in
      case start_path_sync now tid (resolved_action op) (op_busy_key f op) (op_from op) (op_to op)
             (Some (profile_from_sync_config (op_sync_config op))) se of
        (Ok (t, p), se1) \<Rightarrow> (FpWait t op ops, [(op_id op, ''running'')], fe1, se1)
      | (Err e, se1) \<Rightarrow>
          (case report now f op ''failed'' (sync_engine_error_display e) (FpEnd ''failed'') fe1 se1 of
             (pc, l, fe2, se2) \<Rightarrow> (pc, (op_id op, ''running'') # l, fe2, se2)))"

definition op_waited :: "int \<Rightarrow> string \<Rightarrow> flow \<Rightarrow> (sync_engine_error, unit) result \<Rightarrow> string \<Rightarrow>
    flow_operation \<Rightarrow> flow_operation list \<Rightarrow> flow_engine \<Rightarrow> sync_engine \<Rightarrow> flow_stage" where
  "op_waited now ellipsis f r tid op ops fe se =
     (case r of
        Ok _ \<Rightarrow> report now f op ''completed'' [] (FpCheck ops) fe se
      | Err err \<Rightarrow>
          if flow_is_cancelled (f_id f) fe \<or> err = TaskCancelled
          then report now f op ''cancelled'' [] (FpEnd ''cancelled'') fe (snd (stop_sync tid se))
          else report now f op ''failed'' (friendly_task_err ellipsis err) (FpEnd ''failed'') fe se)"

definition run_ops_step :: "int \<Rightarrow> string \<Rightarrow> string \<Rightarrow> flow \<Rightarrow> flow_pc \<Rightarrow> flow_engine \<Rightarrow> sync_engine \<Rightarrow> flow_stage" where
  "run_ops_step now tid ellipsis f pc fe se =
     (case pc of
        FpCheck [] \<Rightarrow> (FpEnd ''completed'', [], fe, se)
      | FpCheck (op # ops) \<Rightarrow>
          (if flow_is_cancelled (f_id f) fe then FpEnd ''cancelled'' else FpStart op ops, [], fe, se)
      | FpStart op ops \<Rightarrow> op_start now tid f op ops fe se
      | FpWait t op ops \<Rightarrow>
          (case wait_poll t (flow_is_cancelled (f_id f) fe) se of
             (Some r, se1) \<Rightarrow> (FpWaited r t op ops, [], fe, se1)
           | (None, se1) \<Rightarrow> (FpWait t op ops, [], fe, se1))
      | FpWaited r t op ops \<Rightarrow> op_waited now ellipsis f r t op ops fe se
      | FpEnd st \<Rightarrow> (FpEnd st, [], fe, se))"

definition worker_step :: "int \<Rightarrow> string \<Rightarrow> string \<Rightarrow> flow_worker \<Rightarrow> flow_engine \<Rightarrow> sync_engine \<Rightarrow>
    flow_worker \<times> flow_engine \<times> sync_engine" where
  "worker_step now tid ellipsis w fe se =
     (case run_ops_step now tid ellipsis (fw_flow w) (fw_pc w) fe se of
        (pc, l, fe1, se1) \<Rightarrow> (w\<lparr>fw_pc := pc, fw_log := fw_log w @ l\<rparr>, fe1, se1))"

text \<open>The rest of \<open>run\<close> once \<open>run_ops\<close> has returned.\<close>

definition flow_finish :: "int \<Rightarrow> flow \<Rightarrow> string \<Rightarrow> flow_engine \<Rightarrow> flow_engine" where
  "flow_finish now f final fe =
     flow_publish now (f_id f) [] final []
       (fe\<lparr>fe_runs := AList.delete (f_id f) (fe_runs fe), fe_last := AList.update (f_id f) final (fe_last fe)\<rparr>)"

section \<open>Runs of the engine\<close>

record flow_system =
  fs_engine :: flow_engine
  fs_sync :: sync_engine
  fs_workers :: "flow_worker list"

definition flow_system_new :: flow_system where
  "flow_system_new = \<lparr> fs_engine = flow_engine_new, fs_sync = engine_new, fs_workers = [] \<rparr>"

text \<open>A store answers a lookup with the flow that was asked for.\<close>

definition flow_source_ok :: "get_flow_fn \<Rightarrow> bool" where
  "flow_source_ok g \<longleftrightarrow> (\<forall>i f. g i = Ok f \<longrightarrow> f_id f = i)"

text \<open>
  \<open>FsSync\<close> lets the rest of the program change the sync engine in any way between two steps;
  \<open>FsWork\<close> is one stage of one run, \<open>FsFinish\<close> its end.
\<close>

inductive flow_step :: "flow_system \<Rightarrow> flow_system \<Rightarrow> bool" where
  FsAttach: "flow_source_ok g \<Longrightarrow> flow_step y (y\<lparr>fs_engine := flow_attach g (fs_engine y)\<rparr>)"
| FsDetach: "flow_step y (y\<lparr>fs_engine := flow_detach (fs_engine y)\<rparr>)"
| FsBegin: "flow_begin now i (fs_engine y) = (Ok f, fe) \<Longrightarrow>
     flow_step y (y\<lparr>fs_engine := fe, fs_workers := flow_worker_new f # fs_workers y\<rparr>)"
| FsStop: "flow_stop now i (fs_engine y) = (r, fe) \<Longrightarrow> flow_step y (y\<lparr>fs_engine := fe\<rparr>)"
| FsSync: "flow_step y (y\<lparr>fs_sync := se\<rparr>)"
| FsWork: "k < length (fs_workers y) \<Longrightarrow>
     worker_step now tid ellipsis (fs_workers y ! k) (fs_engine y) (fs_sync y) = (w, fe, se) \<Longrightarrow>
     flow_step y \<lparr> fs_engine = fe, fs_sync = se, fs_workers = (fs_workers y)[k := w] \<rparr>"
| FsFinish: "fs_workers y = ws @ w # ws' \<Longrightarrow> fw_pc w = FpEnd st \<Longrightarrow>
     flow_step y (y\<lparr>fs_engine := flow_finish now (fw_flow w) st (fs_engine y), fs_workers := ws @ ws'\<rparr>)"

inductive flow_reach :: "flow_system \<Rightarrow> bool" where
  flow_init: "flow_reach flow_system_new"
| flow_next: "flow_reach y \<Longrightarrow> flow_step y y' \<Longrightarrow> flow_reach y'"

text \<open>
  The log of a sequential run over a list of operations: each operation is announced running
  and then completed before the next one; the first one that fails or is cancelled is the last.
\<close>

fun sequential_log :: "string list \<Rightarrow> (string \<times> string) list \<Rightarrow> bool" where
  "sequential_log ops [] \<longleftrightarrow> True"
| "sequential_log (i # ops) [(j, s)] \<longleftrightarrow> j = i \<and> s = ''running''"
| "sequential_log (i # ops) ((j, s) # (k, t) # l) \<longleftrightarrow> j = i \<and> s = ''running'' \<and> k = i \<and>
     (if t = ''completed'' then sequential_log ops l else t \<in> {''failed'', ''cancelled''} \<and> l = [])"
| "sequential_log [] (e # l) \<longleftrightarrow> False"

definition completed_log :: "flow_operation list \<Rightarrow> (string \<times> string) list" where
  "completed_log ops = concat (map (\<lambda>op. [(op_id op, ''running''), (op_id op, ''completed'')]) ops)"

lemma completed_log_simps [simp]:
  "completed_log [] = []"
  "completed_log (ops @ [op]) = completed_log ops @ [(op_id op, ''running''), (op_id op, ''completed'')]"
  by (simp_all add: completed_log_def)

lemma sequential_log_completed:
  "sequential_log (map op_id ds @ os) (completed_log ds @ l) \<longleftrightarrow> sequential_log os l"
  by (induction ds) (simp_all add: completed_log_def)

text \<open>Where a run is, and what it has therefore published.\<close>

definition worker_at :: "flow_worker \<Rightarrow> flow_operation list \<Rightarrow> flow_operation list \<Rightarrow> bool" where
  "worker_at w ds rest \<longleftrightarrow> f_operations (fw_flow w) = ds @ rest \<and>
     (case fw_pc w of
        FpCheck ops \<Rightarrow> rest = ops \<and> fw_log w = completed_log ds
      | FpStart op ops \<Rightarrow> rest = op # ops \<and> fw_log w = completed_log ds
      | FpWait t op ops \<Rightarrow> rest = op # ops \<and> fw_log w = completed_log ds @ [(op_id op, ''running'')]
      | FpWaited r t op ops \<Rightarrow> rest = op # ops \<and> fw_log w = completed_log ds @ [(op_id op, ''running'')]
      | FpEnd st \<Rightarrow> (st = ''completed'' \<and> rest = [] \<and> fw_log w = completed_log ds) \<or>
          (st = ''cancelled'' \<and> rest \<noteq> [] \<and> fw_log w = completed_log ds) \<or>
          (\<exists>op ops. st \<in> {''failed'', ''cancelled''} \<and> rest = op # ops \<and>
             fw_log w = completed_log ds @ [(op_id op, ''running''), (op_id op, st)]))"

lemma worker_at_new: "worker_at (flow_worker_new f) [] (f_operations f)"
  by (simp add: worker_at_def flow_worker_new_def)

lemma worker_step_flow: "worker_step now tid ellipsis w fe se = (w', fe', se') \<Longrightarrow> fw_flow w' = fw_flow w"
  by (auto simp: worker_step_def split: prod.splits)

lemmas stage_defs = worker_at_def worker_step_def run_ops_step_def op_start_def op_waited_def report_def Let_def

lemma worker_at_step:
  assumes "worker_at w ds rest" "worker_step now tid ellipsis w fe se = (w', fe', se')"
  shows "\<exists>ds' rest'. worker_at w' ds' rest'"
proof (cases "fw_pc w")
  case (FpCheck os)
  then have "worker_at w' ds rest"
    using assms by (cases os) (auto simp: stage_defs split: if_splits)
  then show ?thesis by blast
next
  case (FpStart op ops)
  then have "worker_at w' ds rest"
    using assms by (auto simp: stage_defs split: prod.splits sum.splits)
  then show ?thesis by blast
next
  case (FpWait t op ops)
  then have "worker_at w' ds rest"
    using assms by (auto simp: stage_defs split: prod.splits option.splits)
  then show ?thesis by blast
next
  case (FpWaited r t op ops)
  then have "worker_at w' (case r of Inr _ \<Rightarrow> ds @ [op] | Inl _ \<Rightarrow> ds) (case r of Inr _ \<Rightarrow> ops | Inl _ \<Rightarrow> rest)"
    using assms by (cases r) (auto simp: stage_defs split: if_splits)
  then show ?thesis by blast
next
  case (FpEnd st)
  then have "worker_at w' ds rest" using assms by (auto simp: stage_defs)
  then show ?thesis by blast
qed

lemma worker_at_sequential:
  assumes "worker_at w ds rest"
  shows "sequential_log (map op_id (f_operations (fw_flow w))) (fw_log w)"
proof -
  have "sequential_log (map op_id ds @ os) (completed_log ds)" for os
    using sequential_log_completed [of ds os "[]"] by simp
  from this this [of "[]"] have "sequential_log (map op_id ds @ map op_id rest) (fw_log w)"
    using assms by (auto simp: worker_at_def sequential_log_completed split: flow_pc.splits)
  with assms show ?thesis by (simp add: worker_at_def)
qed

lemma length_completed_log [simp]: "length (completed_log ops) = 2 * length ops"
  by (induction ops) (simp_all add: completed_log_def)

lemma completed_log_append: "completed_log (xs @ ys) = completed_log xs @ completed_log ys"
  by (simp add: completed_log_def)

lemma worker_at_end:
  assumes "worker_at w ds rest" "fw_pc w = FpEnd st"
  shows "st = ''completed'' \<longleftrightarrow> fw_log w = completed_log (f_operations (fw_flow w))"
proof (cases "\<exists>op ops. rest = op # ops")
  case True
  then obtain op ops where r: "rest = op # ops" by blast
  have "completed_log (op # ops) = (op_id op, ''running'') # (op_id op, ''completed'') # completed_log ops"
    by (simp add: completed_log_def)
  then have "fw_log w \<noteq> completed_log (ds @ rest)"
    using assms r by (auto simp: worker_at_def completed_log_append)
  with assms r show ?thesis by (auto simp: worker_at_def)
next
  case False
  then have "rest = []" by (cases rest) auto
  with assms show ?thesis by (auto simp: worker_at_def)
qed

section \<open>One run per flow\<close>

definition flow_inv :: "flow_system \<Rightarrow> bool" where
  "flow_inv y \<longleftrightarrow> distinct (map (f_id \<circ> fw_flow) (fs_workers y)) \<and>
     set (map (f_id \<circ> fw_flow) (fs_workers y)) = dom (map_of (fe_runs (fs_engine y))) \<and>
     keys_distinct (fe_runs (fs_engine y)) \<and>
     (\<forall>w \<in> set (fs_workers y). \<exists>ds rest. worker_at w ds rest) \<and>
     (\<forall>g. fe_source (fs_engine y) = Some g \<longrightarrow> flow_source_ok g)"

lemma flow_publish_fields [simp]:
  "fe_runs (flow_publish now i oid s m fe) = fe_runs fe" "fe_last (flow_publish now i oid s m fe) = fe_last fe"
  "fe_source (flow_publish now i oid s m fe) = fe_source fe"
  by (simp_all add: flow_publish_def)

lemma worker_step_engine:
  "worker_step now tid ellipsis w fe se = (w', fe', se') \<Longrightarrow>
     fe_runs fe' = fe_runs fe \<and> fe_source fe' = fe_source fe"
  by (auto simp: stage_defs split: prod.splits sum.splits option.splits flow_pc.splits list.splits if_splits)

lemma flow_begin_Ok:
  assumes "flow_begin now i fe = (Ok f, fe')"
  obtains g where "fe_source fe = Some g" "g i = Ok f" "f_operations f \<noteq> []" "map_of (fe_runs fe) i = None"
    "fe_runs fe' = AList.update i \<lparr> fr_cancelled = False, fr_status = ''running'' \<rparr> (fe_runs fe)"
    "fe_source fe' = fe_source fe"
  using assms by (auto simp: flow_begin_def split: option.splits sum.splits if_splits)

lemma flow_stop_fields:
  assumes "flow_stop now i fe = (r, fe')" "keys_distinct (fe_runs fe)"
  shows "dom (map_of (fe_runs fe')) = dom (map_of (fe_runs fe))" "keys_distinct (fe_runs fe')"
    "fe_source fe' = fe_source fe"
  using assms by (auto simp: flow_stop_def split: option.splits if_splits)

lemma map_update_same: "k < length xs \<Longrightarrow> f x = f (xs ! k) \<Longrightarrow> map f (xs[k := x]) = map f xs"
  by (metis list_update_id map_update)

lemma flow_inv_step:
  assumes "flow_step y y'" "flow_inv y"
  shows "flow_inv y'"
  using assms
proof (induction rule: flow_step.induct)
  case (FsBegin now i y f fe)
  from FsBegin(1) obtain g where g: "fe_source (fs_engine y) = Some g" "g i = Ok f"
    "map_of (fe_runs (fs_engine y)) i = None"
    "fe_runs fe = AList.update i \<lparr> fr_cancelled = False, fr_status = ''running'' \<rparr> (fe_runs (fs_engine y))"
    "fe_source fe = fe_source (fs_engine y)" by (rule flow_begin_Ok)
  then have "f_id f = i" using FsBegin(2) by (auto simp: flow_inv_def flow_source_ok_def)
  moreover have "i \<notin> dom (map_of (fe_runs (fs_engine y)))" using g(3) by auto
  moreover have "\<exists>ds rest. worker_at (flow_worker_new f) ds rest" using worker_at_new by blast
  ultimately show ?case using FsBegin(2) g(4,5) by (simp add: flow_inv_def flow_worker_new_def)
next
  case (FsStop now i y r fe)
  from FsStop(2) have "keys_distinct (fe_runs (fs_engine y))" by (simp add: flow_inv_def)
  note flow_stop_fields [OF FsStop(1) this]
  with FsStop(2) show ?case by (simp add: flow_inv_def)
next
  case (FsWork k y now tid ellipsis w fe se)
  let ?v = "fs_workers y ! k"
  have v: "?v \<in> set (fs_workers y)" using FsWork(1) by simp
  obtain ds rest where "worker_at ?v ds rest" using FsWork(3) v by (auto simp: flow_inv_def)
  then have "\<exists>ds rest. worker_at w ds rest" by (rule worker_at_step [OF _ FsWork(2)])
  moreover have "map (f_id \<circ> fw_flow) ((fs_workers y)[k := w]) = map (f_id \<circ> fw_flow) (fs_workers y)"
    using FsWork(1) worker_step_flow [OF FsWork(2)] by (intro map_update_same) simp_all
  moreover have "\<exists>ds rest. worker_at v ds rest" if "v \<in> set ((fs_workers y)[k := w])" for v
    using that calculation(1) FsWork(3) set_update_subset_insert [of "fs_workers y" k w]
    unfolding flow_inv_def by blast
  ultimately show ?case
    using FsWork(3) worker_step_engine [OF FsWork(2)] unfolding flow_inv_def by simp
next
  case (FsFinish y ws w ws' st now)
  then show ?case by (auto simp: flow_inv_def flow_finish_def)
qed (auto simp: flow_inv_def flow_attach_def flow_detach_def)

lemma flow_inv_reach: "flow_reach y \<Longrightarrow> flow_inv y"
proof (induction rule: flow_reach.induct)
  case flow_init
  show ?case by (simp add: flow_inv_def flow_system_new_def flow_engine_new_def)
qed (rule flow_inv_step)

text \<open>
  C12: a flow runs once at a time and in order. In every interleaving of starts, stops, runs,
  attach and detach, and whatever the sync engine answers: no two runs of the same flow are
  alive and the registry holds exactly the live runs; what a run has published about its
  operations is a sequential log - each operation running, then completed, before the next one,
  ending at the first that failed or was cancelled; and a run ends as completed exactly when
  every operation was completed.
\<close>

theorem flow_runs_in_order:
  assumes "flow_reach y"
  shows "distinct (map (f_id \<circ> fw_flow) (fs_workers y)) \<and>
    set (map (f_id \<circ> fw_flow) (fs_workers y)) = fst ` set (fe_runs (fs_engine y)) \<and>
    list_all (\<lambda>w. sequential_log (map op_id (f_operations (fw_flow w))) (fw_log w) \<and>
      (case fw_pc w of FpEnd st \<Rightarrow> (st = ''completed'' \<longleftrightarrow> fw_log w = completed_log (f_operations (fw_flow w)))
                     | _ \<Rightarrow> True)) (fs_workers y)"
proof -
  have i: "flow_inv y" using assms by (rule flow_inv_reach)
  have "sequential_log (map op_id (f_operations (fw_flow w))) (fw_log w) \<and>
      (case fw_pc w of FpEnd st \<Rightarrow> (st = ''completed'' \<longleftrightarrow> fw_log w = completed_log (f_operations (fw_flow w)))
                     | _ \<Rightarrow> True)" if w: "w \<in> set (fs_workers y)" for w
  proof -
    obtain ds rest where "worker_at w ds rest" using i w unfolding flow_inv_def by blast
    then show ?thesis using worker_at_sequential worker_at_end by (auto split: flow_pc.split)
  qed
  with i show ?thesis by (simp add: flow_inv_def list_all_iff dom_map_of_conv_image_fst)
qed

definition demo_op :: flow_operation where
  "demo_op = flow_operation_default\<lparr>op_id := ''o'', op_source_path := ''/a'', op_target_remote := ''r''\<rparr>"

definition demo_flow :: flow where
  "demo_flow = \<lparr> f_id = ''f'', f_name = [], f_is_collapsed = False, f_schedule_enabled = False,
     f_schedule_cron = [], f_sort_order = 0, f_operations = [demo_op], f_canvas_json = [],
     f_created_at = [], f_updated_at = [] \<rparr>"

definition demo_source :: get_flow_fn where
  "demo_source i = (if i = ''f'' then Ok demo_flow else Err NotFound)"

definition demo_begun :: flow_system where
  "demo_begun = \<lparr> fs_engine = snd (flow_begin 1 ''f'' (flow_attach demo_source flow_engine_new)),
     fs_sync = engine_new, fs_workers = [flow_worker_new demo_flow] \<rparr>"

lemma demo_begun_reached: "flow_reach demo_begun"
proof -
  have "flow_source_ok demo_source" by (simp add: flow_source_ok_def demo_source_def demo_flow_def)
  then have a: "flow_reach (flow_system_new\<lparr>fs_engine := flow_attach demo_source (fs_engine flow_system_new)\<rparr>)"
    (is "flow_reach ?y") by (intro flow_next [OF flow_init] FsAttach)
  have "flow_begin 1 ''f'' (fs_engine ?y) = (Ok demo_flow, fs_engine demo_begun)"
    by (simp add: flow_begin_def flow_system_new_def flow_attach_def flow_engine_new_def demo_source_def
        demo_flow_def demo_begun_def)
  from flow_next [OF a FsBegin [OF this]] show ?thesis
    by (simp add: flow_system_new_def demo_begun_def)
qed

theorem flow_runs_in_order_witness:
  "map (\<lambda>w. map op_id (f_operations (fw_flow w))) (fs_workers demo_begun) = [[''o'']] \<and>
   set (map (f_id \<circ> fw_flow) (fs_workers demo_begun)) = fst ` set (fe_runs (fs_engine demo_begun))"
  using flow_runs_in_order [OF demo_begun_reached]
  by (simp add: demo_begun_def flow_worker_new_def demo_flow_def demo_op_def)

section \<open>Stopping a run\<close>

text \<open>A run's own steps, with the time, fresh task id and engines it meets at each of them.\<close>

definition worker_run :: "(int \<times> string \<times> string \<times> flow_engine \<times> sync_engine) list \<Rightarrow> flow_worker \<Rightarrow> flow_worker" where
  "worker_run inputs w =
     fold (\<lambda>(now, tid, ellipsis, fe, se) w. fst (worker_step now tid ellipsis w fe se)) inputs w"

definition started_ops :: "flow_worker \<Rightarrow> nat" where
  "started_ops w = length (filter (\<lambda>(i, s). s = ''running'') (fw_log w))"

text \<open>How many of its own steps a stopped run still takes, and how many operations it starts.\<close>

fun steps_left :: "flow_pc \<Rightarrow> nat" where
  "steps_left (FpStart _ _) = 3"
| "steps_left (FpWait _ _ _) = 2"
| "steps_left (FpWaited (Inr _) _ _ _) = 2"
| "steps_left (FpWaited (Inl _) _ _ _) = 1"
| "steps_left (FpCheck _) = 1"
| "steps_left (FpEnd _) = 0"

fun starts_left :: "flow_pc \<Rightarrow> nat" where
  "starts_left (FpStart _ _) = 1"
| "starts_left _ = 0"

lemma cancelled_worker_step:
  assumes "flow_is_cancelled (f_id (fw_flow w)) fe"
    "worker_step now tid ellipsis w fe se = (w', fe', se')"
  shows "steps_left (fw_pc w') \<le> steps_left (fw_pc w) - 1 \<and> fw_flow w' = fw_flow w \<and>
    started_ops w' + starts_left (fw_pc w') \<le> started_ops w + starts_left (fw_pc w)"
proof (cases "fw_pc w")
  case (FpCheck ops)
  with assms show ?thesis by (cases ops) (auto simp: stage_defs started_ops_def)
next
  case (FpStart op ops)
  with assms show ?thesis
    by (auto simp: stage_defs started_ops_def split: prod.splits sum.splits)
next
  case (FpWait t op ops)
  with assms show ?thesis by (auto simp: stage_defs started_ops_def wait_poll_def)
next
  case (FpWaited r t op ops)
  with assms show ?thesis by (cases r) (auto simp: stage_defs started_ops_def)
next
  case (FpEnd st)
  with assms(2) show ?thesis by (auto simp: stage_defs started_ops_def)
qed

lemma steps_left_0: "steps_left pc = 0 \<longleftrightarrow> (\<exists>st. pc = FpEnd st)"
  by (cases pc rule: steps_left.cases) simp_all

lemma cancelled_worker_run:
  "list_all (\<lambda>(now, tid, ellipsis, fe, se). flow_is_cancelled (f_id (fw_flow w)) fe) inputs \<Longrightarrow>
     steps_left (fw_pc (worker_run inputs w)) \<le> steps_left (fw_pc w) - length inputs \<and>
     started_ops (worker_run inputs w) + starts_left (fw_pc (worker_run inputs w))
       \<le> started_ops w + starts_left (fw_pc w)"
proof (induction inputs arbitrary: w)
  case (Cons x xs)
  obtain now tid ellipsis fe se where x: "x = (now, tid, ellipsis, fe, se)" by (cases x)
  obtain w' fe' se' where s: "worker_step now tid ellipsis w fe se = (w', fe', se')"
    by (cases "worker_step now tid ellipsis w fe se")
  have c: "flow_is_cancelled (f_id (fw_flow w)) fe" using Cons.prems x by simp
  note st = cancelled_worker_step [OF c s]
  then have "list_all (\<lambda>(now, tid, ellipsis, fe, se). flow_is_cancelled (f_id (fw_flow w')) fe) xs"
    using Cons.prems by simp
  note ih = Cons.IH [OF this]
  have "worker_run (x # xs) w = worker_run xs w'" by (simp add: worker_run_def x s)
  with ih st show ?case by (simp only: list.size) arith
qed (simp add: worker_run_def)

text \<open>The task of a stopped run is told to cancel when the run leaves its wait.\<close>

lemma cancelled_wait_stops_task:
  assumes "flow_is_cancelled (f_id f) fe" "se_tasks se tid = Some t" "tid \<in> set (se_active se)"
    "op_waited now ellipsis f (Err e) tid op ops fe se = (pc, l, fe', se')"
  shows "pc = FpEnd ''cancelled'' \<and> map_option t_cancelled (se_tasks se' tid) = Some True"
  using assms by (auto simp: op_waited_def report_def stop_sync_def update_task_def task_cancel_def)

text \<open>
  C37: stopping a flow ends it. Once a run has been marked cancelled, three of its own steps end
  it, whatever the engines answer meanwhile, and the only operation it can still start is one
  whose cancellation check had already passed.
\<close>

theorem cancelled_flow_ends:
  assumes "list_all (\<lambda>(now, tid, ellipsis, fe, se). flow_is_cancelled (f_id (fw_flow w)) fe) inputs"
    "length inputs = 3"
  shows "(\<exists>st. fw_pc (worker_run inputs w) = FpEnd st) \<and>
    started_ops (worker_run inputs w) \<le> started_ops w + (case fw_pc w of FpStart _ _ \<Rightarrow> 1 | _ \<Rightarrow> 0)"
proof -
  have "steps_left (fw_pc w) \<le> 3" by (cases "fw_pc w" rule: steps_left.cases) simp_all
  then have "steps_left (fw_pc (worker_run inputs w)) = 0" using cancelled_worker_run [OF assms(1)] assms(2) by simp
  moreover have "starts_left (fw_pc w) = (case fw_pc w of FpStart _ _ \<Rightarrow> 1 | _ \<Rightarrow> 0)"
    by (cases "fw_pc w") simp_all
  ultimately show ?thesis using cancelled_worker_run [OF assms(1)] by (simp add: steps_left_0)
qed

theorem cancelled_flow_ends_witness:
  "let fe = snd (flow_stop 2 ''f'' (fs_engine demo_begun)); i = (3, ''T'', [], fe, engine_new) in
   \<exists>st. fw_pc (worker_run [i, i, i] (flow_worker_new demo_flow)) = FpEnd st"
proof -
  let ?fe = "snd (flow_stop 2 ''f'' (fs_engine demo_begun))"
  have "flow_is_cancelled ''f'' ?fe"
    by (simp add: flow_is_cancelled_def flow_stop_def demo_begun_def flow_begin_def flow_attach_def
        flow_engine_new_def demo_source_def demo_flow_def)
  then show ?thesis
    using cancelled_flow_ends [of "flow_worker_new demo_flow" "replicate 3 (3, ''T'', [], ?fe, engine_new)"]
    by (simp add: Let_def flow_worker_new_def demo_flow_def numeral_3_eq_3)
qed

section \<open>What of an operation reaches rclone\<close>

lemma keep_pos: "d > 0 \<Longrightarrow> keep (positive v) d > 0"
  by (auto simp: keep_def positive_def split: option.splits)

lemma keep_some_positive: "keep_some (positive v) None = positive v"
  by (auto simp: keep_some_def positive_def split: option.splits)

lemma positive_Some: "positive v = Some n \<longleftrightarrow> v = Some n \<and> n > 0"
  by (auto simp: positive_def split: option.splits)

lemma ex_positive: "(\<exists>n > 0. positive v = Some n \<and> P n) \<longleftrightarrow> (\<exists>n > 0. v = Some n \<and> P n)"
  by (auto simp: positive_Some)

lemma path_profile_fields:
  "p_from (path_profile key from to (Some p)) = from" "p_to (path_profile key from to (Some p)) = to"
  "p_dry_run (path_profile key from to (Some p)) = p_dry_run p"
  "p_delete_excluded (path_profile key from to (Some p)) = p_delete_excluded p"
  "p_max_delete (path_profile key from to (Some p)) = p_max_delete p"
  "p_backup_path (path_profile key from to (Some p)) = p_backup_path p"
  "p_excluded_paths (path_profile key from to (Some p)) = p_excluded_paths p"
  by (simp_all add: path_profile_def Let_def)

lemma sync_config_fields:
  "p_dry_run (profile_from_sync_config m) = keep (bool_v m [''dry_run'', ''dryRun'']) False"
  "p_delete_excluded (profile_from_sync_config m) = keep (bool_v m [''delete_excluded'', ''deleteExcluded'']) False"
  "p_max_delete (profile_from_sync_config m) = positive (int_v m [''max_delete'', ''maxDelete''])"
  "p_parallel (profile_from_sync_config m) = keep (positive (int_v m [''parallel''])) 4"
  by (simp_all add: profile_from_sync_config_def Let_def profile_default_def keep_some_positive)

text \<open>The run that the sync engine starts for an operation, as \<open>run_sync\<close> configures it.\<close>

definition op_run_config :: "flow \<Rightarrow> flow_operation \<Rightarrow> sync_config" where
  "op_run_config f op =
     run_config (path_profile (op_busy_key f op) (op_from op) (op_to op)
                   (Some (profile_from_sync_config (op_sync_config op)))) (resolved_action op)"

lemma start_op_profile:
  assumes "start_path_sync now tid (resolved_action op) (op_busy_key f op) (op_from op) (op_to op)
      (Some (profile_from_sync_config (op_sync_config op))) se = (Ok (t, p), se')"
  shows "p = path_profile (op_busy_key f op) (op_from op) (op_to op)
      (Some (profile_from_sync_config (op_sync_config op))) \<and> t = tid"
  using assms by (auto simp: start_path_sync_def start_with_profile_def reserve_def admit_def
      split: if_splits prod.splits sum.splits)

text \<open>
  C31: an operation's safety settings reach rclone. When the sync engine starts a run for an
  operation of a flow, the arguments of that run are always built; rclone is told to dry-run and
  to delete excluded files exactly when the operation's settings say so, under either spelling
  of the key, and to cap deletions at exactly the positive number they give.
\<close>

theorem operation_reaches_rclone:
  assumes "start_path_sync now tid (resolved_action op) (op_busy_key f op) (op_from op) (op_to op)
      (Some (profile_from_sync_config (op_sync_config op))) se = (Ok (t, p), se')"
  shows "\<exists>args opts. build_args config_path (run_config p (resolved_action op)) = Ok args \<and>
    walk_flags (drop 3 args) = Some opts \<and>
    ((''--dry-run'', None) \<in> set opts \<longleftrightarrow> bool_v (op_sync_config op) [''dry_run'', ''dryRun''] = Some True) \<and>
    ((''--delete-excluded'', None) \<in> set opts \<longleftrightarrow>
       bool_v (op_sync_config op) [''delete_excluded'', ''deleteExcluded''] = Some True) \<and>
    (\<forall>v. (''--max-delete'', v) \<in> set opts \<longleftrightarrow>
       (\<exists>n > 0. int_v (op_sync_config op) [''max_delete'', ''maxDelete''] = Some n \<and> v = Some (show_int n)))"
proof -
  let ?p = "path_profile (op_busy_key f op) (op_from op) (op_to op)
      (Some (profile_from_sync_config (op_sync_config op)))"
  have p: "p = ?p" using start_op_profile [OF assms] by simp
  have ne: "p_from ?p \<noteq> []" "p_to ?p \<noteq> []"
    by (simp_all add: path_profile_fields op_from_def op_to_def compose_path_not_Nil)
  obtain args opts where
    b: "build_args config_path (run_config ?p (resolved_action op)) = Ok args"
      "walk_flags (drop 3 args) = Some opts" and
    d: "(''--dry-run'', None) \<in> set opts \<longleftrightarrow> p_dry_run ?p \<or> resolved_action op = ''dry-run''" and
    x: "(''--delete-excluded'', None) \<in> set opts \<longleftrightarrow> p_delete_excluded ?p" and
    m: "\<forall>v. (''--max-delete'', v) \<in> set opts \<longleftrightarrow> (\<exists>n > 0. p_max_delete ?p = Some n \<and> v = Some (show_int n))"
    using profile_settings_reach [OF ne, of config_path "resolved_action op"] by blast
  have "resolved_action op \<noteq> ''dry-run''"
    using resolved_action_range [of op] by (auto simp: direction_defs)
  moreover have "keep v False \<longleftrightarrow> v = Some True" for v by (simp add: keep_def split: option.split)
  ultimately show ?thesis
    unfolding p using b d x m
    by (intro exI [of _ args] exI [of _ opts])
      (simp add: path_profile_fields sync_config_fields ex_positive)
qed

theorem operation_reaches_rclone_witness:
  "let op = demo_op\<lparr>op_sync_config := [(''dryRun'', JBool True)]\<rparr>; se = engine_new\<lparr>se_running := True\<rparr> in
   \<exists>p args opts. fst (start_path_sync 1 ''T'' (resolved_action op) (op_busy_key demo_flow op) (op_from op) (op_to op)
      (Some (profile_from_sync_config (op_sync_config op))) se) = Ok (''T'', p) \<and>
    build_args ''c'' (run_config p (resolved_action op)) = Ok args \<and>
    walk_flags (drop 3 args) = Some opts \<and> (''--dry-run'', None) \<in> set opts"
proof -
  let ?op = "demo_op\<lparr>op_sync_config := [(''dryRun'', JBool True)]\<rparr>"
  let ?se = "engine_new\<lparr>se_running := True\<rparr>"
  let ?r = "start_path_sync 1 ''T'' (resolved_action ?op) (op_busy_key demo_flow ?op) (op_from ?op) (op_to ?op)
      (Some (profile_from_sync_config (op_sync_config ?op))) ?se"
  obtain p se' where s: "?r = (Ok (''T'', p), se')"
    by (simp add: start_path_sync_def op_from_def op_to_def compose_path_not_Nil start_with_profile_def
        reserve_def admit_def engine_new_def)
  have "bool_v (op_sync_config ?op) [''dry_run'', ''dryRun''] = Some True"
    by (simp add: bool_v_def find_key_def map_filter_simps)
  then show ?thesis
    using operation_reaches_rclone [OF s, of "''c''"] s by (auto simp: Let_def)
qed

text \<open>
  The numbers an operation's settings give a run are usable: the number of parallel
  transfers is at least one, and every optional limit that is set is positive and inside the
  64-bit range, whatever JSON value (text, fraction, huge number) the settings hold.
\<close>

lemma sync_config_numbers:
  "let p = profile_from_sync_config m;
       limit = (\<lambda>v. case v of Some n \<Rightarrow> 0 < n \<and> n \<le> i64_max | None \<Rightarrow> True)
   in 0 < p_parallel p \<and> p_parallel p \<le> i64_max \<and> 0 \<le> p_bandwidth p \<and> p_bandwidth p \<le> i64_max \<and>
      limit (p_multi_thread_streams p) \<and> limit (p_retries p) \<and> limit (p_low_level_retries p) \<and>
      limit (p_max_depth p) \<and> limit (p_max_delete p) \<and>
      (case p_tps_limit p of Some x \<Rightarrow> f64_pos x | None \<Rightarrow> True)"
proof -
  have read: "n \<le> i64_max" if "read_int j = Some n" for j n
  proof (cases j)
    case (JInt i)
    with that f64_as_i64_bounds show ?thesis by (auto split: if_splits)
  next
    case (JFloat r)
    with that clamp_i64_bounds show ?thesis by auto
  next
    case (JString s)
    with that parse_i64_bounds show ?thesis by auto
  qed (use that in auto)
  have found: "\<exists>j. read j = Some v" if "find_key read m ks = Some v" for read ks and v :: int
  proof -
    have "v \<in> set (List.map_filter (\<lambda>k. Option.bind (map_of m k) read) ks)"
      using that by (auto simp: find_key_def split: list.splits)
    then show ?thesis by (auto simp: List.map_filter_def bind_eq_Some_conv)
  qed
  have num: "0 < n \<and> n \<le> i64_max" if "positive (int_v m ks) = Some n" for ks n
    using that found [of read_int ks n] read by (auto simp: positive_Some int_v_def)
  have tps: "f64_pos x" if "positive_f64 v = Some x" for v x
    using that by (auto simp: positive_f64_def split: option.splits if_splits)
  have "1 \<le> i64_max" "4 \<le> i64_max" "0 \<le> i64_max" by (simp_all add: i64_max_def)
  then show ?thesis
    using num tps
    by (auto simp: Let_def profile_from_sync_config_def profile_default_def keep_def keep_some_def split: option.split
        intro: less_imp_le)
qed

end
