(* ===== verification/RuntimeHub.thy ===== *)
theory RuntimeHub
  imports FlowEngine
begin

text \<open>
  \<open>crates/gn-drive-core/src/runtime_hub.rs\<close>: the projection of flow and sync events that the UI
  is hydrated from. \<open>hub_on_event\<close> folds one bus event into the state under its lock;
  \<open>hub_snapshot\<close> overlays the flow engine's statuses and the sync engine's active tasks and
  sorts. Hash maps are association lists with distinct keys. The capped log is the
  \<open>newest_buffer\<close> of the event bus behind a filter for repeated entries.
\<close>

section \<open>State\<close>

definition MAX_LOG :: nat where "MAX_LOG = 40"

record op_runtime =
  or_status :: string
  or_last_error :: string

definition op_runtime_default :: op_runtime where
  "op_runtime_default = \<lparr> or_status = [], or_last_error = [] \<rparr>"

record flow_runtime =
  frt_status :: string
  frt_last_error :: string
  frt_ops :: "(string \<times> op_runtime) list"
  frt_sync :: "sync_progress_event option"
  frt_log :: "runtime_log_entry list"

definition flow_runtime_default :: flow_runtime where
  "flow_runtime_default = \<lparr> frt_status = [], frt_last_error = [], frt_ops = [], frt_sync = None, frt_log = [] \<rparr>"

type_synonym flow_map = "(string \<times> flow_runtime) list"

record hub_state =
  hub_rev :: int
  hub_flows :: flow_map

definition hub_new :: hub_state where
  "hub_new = \<lparr> hub_rev = 0, hub_flows = [] \<rparr>"

definition hub_reset :: "hub_state \<Rightarrow> hub_state" where
  "hub_reset st = st\<lparr>hub_flows := [], hub_rev := hub_rev st + 1\<rparr>"

definition hub_forget :: "string \<Rightarrow> hub_state \<Rightarrow> hub_state" where
  "hub_forget flow_id st =
     (if flow_id = [] then st
      else st\<lparr>hub_flows := AList.delete flow_id (hub_flows st), hub_rev := hub_rev st + 1\<rparr>)"

definition split_busy_key :: "string \<Rightarrow> (string \<times> string) option" where
  "split_busy_key profile_id =
     (case find_char CHR '':'' profile_id of
        None \<Rightarrow> None
      | Some i \<Rightarrow> if i = 0 \<or> i + 1 = length profile_id then None
                  else Some (take i profile_id, drop (i + 1) profile_id))"

section \<open>The log\<close>

definition same_entry :: "runtime_log_entry \<Rightarrow> runtime_log_entry \<Rightarrow> bool" where
  "same_entry a b \<longleftrightarrow> le_status a = le_status b \<and> le_op_id a = le_op_id b \<and> le_error a = le_error b"

text \<open>\<open>push\<close> and \<open>drain\<close>: what \<open>append_log\<close> does with an entry that is not a repetition.\<close>

definition log_push :: "runtime_log_entry \<Rightarrow> runtime_log_entry list \<Rightarrow> runtime_log_entry list" where
  "log_push e l = (let l' = l @ [e] in if length l' > MAX_LOG then drop (length l' - MAX_LOG) l' else l')"

definition append_log :: "runtime_log_entry \<Rightarrow> runtime_log_entry list \<Rightarrow> runtime_log_entry list" where
  "append_log e l = (if l \<noteq> [] \<and> same_entry (last l) e then l else log_push e l)"

interpretation hub_log: newest_buffer log_push "\<lambda>l. l" MAX_LOG
  by unfold_locales (simp_all add: log_push_def last_n_def MAX_LOG_def Let_def)

section \<open>Events\<close>

definition soft_status :: "string \<Rightarrow> bool" where
  "soft_status s \<longleftrightarrow> s = ''cancelled'' \<or> s = ''cancelling''"

definition log_entry_of :: "int \<Rightarrow> flow_execution_event \<Rightarrow> runtime_log_entry" where
  "log_entry_of now fe = \<lparr> le_at = now div 1000000, le_status = fee_status fe, le_op_id = fee_op_id fe,
     le_error = fee_error fe,
     le_label = (if fee_op_id fe = [] then ''Flow'' else ''Op '' @ take 8 (fee_op_id fe)) \<rparr>"

definition flow_event_op :: "flow_execution_event \<Rightarrow> flow_runtime \<Rightarrow> flow_runtime" where
  "flow_event_op fe fr =
     (let op_new = (\<lambda>op. op\<lparr>or_status := fee_status fe,
                          or_last_error := (if fee_error fe \<noteq> [] then fee_error fe else or_last_error op)\<rparr>)
      in fr\<lparr>frt_ops := entry_update (fee_op_id fe) op_runtime_default op_new (frt_ops fr),
            frt_last_error := (if fee_error fe \<noteq> [] \<and> \<not> soft_status (fee_status fe) then fee_error fe
                               else frt_last_error fr),
            frt_status := (if fee_status fe \<in> {''running'', ''cancelling'', ''failed'', ''cancelled''}
                           then fee_status fe else frt_status fr)\<rparr>)"

definition flow_event_flow :: "flow_execution_event \<Rightarrow> flow_runtime \<Rightarrow> flow_runtime" where
  "flow_event_flow fe fr =
     fr\<lparr>frt_status := fee_status fe,
        frt_last_error := (if soft_status (fee_status fe) then []
                           else if fee_error fe \<noteq> [] then fee_error fe else frt_last_error fr)\<rparr>"

definition flow_event :: "int \<Rightarrow> flow_execution_event \<Rightarrow> flow_runtime \<Rightarrow> flow_runtime" where
  "flow_event now fe fr =
     (let fr1 = (if fee_op_id fe \<noteq> [] then flow_event_op fe fr else flow_event_flow fe fr)
      in fr1\<lparr>frt_log := append_log (log_entry_of now fe) (frt_log fr1)\<rparr>)"

definition apply_flow :: "int \<Rightarrow> flow_execution_event \<Rightarrow> flow_map \<Rightarrow> flow_map" where
  "apply_flow now fe flows = entry_update (fee_flow_id fe) flow_runtime_default (flow_event now fe) flows"

text \<open>The progress event that a sync event stands for, and whether it is a start.\<close>

fun sync_prog :: "int \<Rightarrow> bus_event \<Rightarrow> (bool \<times> sync_progress_event) option" where
  "sync_prog now (SyncStarted st) = Some (True, (sync_progress_event_default now)\<lparr>
     spe_task_id := sse_task_id st, spe_profile_id := sse_profile_id st, spe_action := sse_action st,
     spe_state := ''running''\<rparr>)"
| "sync_prog now (SyncProgress p) = Some (False, p)"
| "sync_prog now (SyncFailed p) = Some (False, p)"
| "sync_prog now (SyncCompleted c) = Some (False, (sync_progress_event_default now)\<lparr>
     spe_task_id := sce_task_id c, spe_profile_id := sce_profile_id c, spe_action := sce_action c,
     spe_state := ''completed'', spe_transferred := sce_bytes c, spe_errors := sce_errors c\<rparr>)"
| "sync_prog now _ = None"

definition sync_event :: "bool \<Rightarrow> sync_progress_event \<Rightarrow> string \<Rightarrow> flow_runtime \<Rightarrow> flow_runtime" where
  "sync_event started prog oid fr =
     (let op_new = (\<lambda>op. op\<lparr>or_status := (if spe_state prog \<noteq> [] then spe_state prog
                                        else if started then ''running'' else or_status op),
                          or_last_error := (if spe_error_message prog \<noteq> [] then spe_error_message prog
                                            else or_last_error op)\<rparr>);
          ops = (if oid \<noteq> [] then entry_update oid op_runtime_default op_new (frt_ops fr) else frt_ops fr);
          status = (if started \<or> spe_state prog = ''running'' then ''running''
                    else if spe_state prog \<in> {''failed'', ''cancelled'', ''completed''} \<and> frt_status fr = []
                    then spe_state prog else frt_status fr);
          err = (if spe_error_message prog \<noteq> [] \<and> spe_state prog \<noteq> ''cancelled''
                 then spe_error_message prog else frt_last_error fr)
      in fr\<lparr>frt_ops := ops, frt_status := status, frt_last_error := err, frt_sync := Some prog\<rparr>)"

definition apply_sync :: "int \<Rightarrow> bus_event \<Rightarrow> flow_map \<Rightarrow> flow_map" where
  "apply_sync now ev flows =
     (case sync_prog now ev of
        None \<Rightarrow> flows
      | Some (started, prog) \<Rightarrow>
          (case split_busy_key (spe_profile_id prog) of
             None \<Rightarrow> flows
           | Some (flow_id, oid) \<Rightarrow>
               entry_update flow_id flow_runtime_default (sync_event started prog oid) flows))"

fun hub_on_event :: "int \<Rightarrow> bus_event \<Rightarrow> hub_state \<Rightarrow> hub_state" where
  "hub_on_event now (FlowExecution fe) st =
     (if fee_flow_id fe = [] then st
      else st\<lparr>hub_flows := apply_flow now fe (hub_flows st), hub_rev := hub_rev st + 1\<rparr>)"
| "hub_on_event now ev st =
     (if sync_prog now ev = None then st
      else st\<lparr>hub_flows := apply_sync now ev (hub_flows st), hub_rev := hub_rev st + 1\<rparr>)"

section \<open>Snapshots\<close>

definition task_progress :: "int \<Rightarrow> task_snapshot \<Rightarrow> string \<Rightarrow> sync_progress_event" where
  "task_progress now t status = progress_event now (ts_id t) (ts_name t) (ts_action t) status (ts_stats t) []"

definition task_status :: "task_snapshot \<Rightarrow> string" where
  "task_status t = (if ts_status t = [] then ''running'' else ts_status t)"

definition apply_task :: "int \<Rightarrow> task_snapshot \<Rightarrow> flow_map \<Rightarrow> flow_map" where
  "apply_task now t dst =
     (case split_busy_key (ts_name t) of
        None \<Rightarrow> dst
      | Some (flow_id, oid) \<Rightarrow>
          entry_update flow_id flow_runtime_default
            (\<lambda>fr. fr\<lparr>frt_status := task_status t,
               frt_ops := (if oid \<noteq> [] then AList.update oid \<lparr> or_status = task_status t, or_last_error = [] \<rparr> (frt_ops fr)
                           else frt_ops fr),
               frt_sync := Some (task_progress now t (task_status t))\<rparr>) dst)"

definition to_flow_state :: "string \<Rightarrow> flow_runtime \<Rightarrow> runtime_flow_state" where
  "to_flow_state i fr = \<lparr> rfs_id = i, rfs_status = (if frt_status fr = [] then ''idle'' else frt_status fr),
     rfs_last_error = frt_last_error fr,
     rfs_ops = sort_key ros_id (map (\<lambda>(i, op). \<lparr> ros_id = i, ros_status = or_status op, ros_last_error = or_last_error op \<rparr>)
                 (frt_ops fr)),
     rfs_sync = frt_sync fr, rfs_log = frt_log fr \<rparr>"

definition apply_status :: "string \<times> string \<Rightarrow> flow_map \<Rightarrow> flow_map" where
  "apply_status = (\<lambda>(i, status) merged.
     entry_update i flow_runtime_default (\<lambda>fr. if status \<noteq> [] then fr\<lparr>frt_status := status\<rparr> else fr) merged)"

definition hub_merged :: "int \<Rightarrow> flow_engine option \<Rightarrow> sync_engine option \<Rightarrow> hub_state \<Rightarrow> flow_map" where
  "hub_merged now fe se st =
     (let m1 = (case fe of Some e \<Rightarrow> fold apply_status (flow_statuses e) (hub_flows st) | None \<Rightarrow> hub_flows st)
      in case se of Some s \<Rightarrow> fold (apply_task now) (active_tasks s) m1 | None \<Rightarrow> m1)"

definition hub_snapshot :: "int \<Rightarrow> flow_engine option \<Rightarrow> sync_engine option \<Rightarrow> hub_state \<Rightarrow> runtime_snapshot_event" where
  "hub_snapshot now fe se st =
     \<lparr> rse_timestamp = now, rse_revision = hub_rev st,
       rse_flows = sort_key rfs_id (map (\<lambda>(i, fr). to_flow_state i fr) (hub_merged now fe se st)) \<rparr>"

section \<open>The log is the newest distinct entries\<close>

text \<open>Reference: the entries without immediate repetitions, the newest \<open>MAX_LOG\<close> of them.\<close>

fun dedup :: "runtime_log_entry option \<Rightarrow> runtime_log_entry list \<Rightarrow> runtime_log_entry list" where
  "dedup prev [] = []"
| "dedup prev (e # es) =
     (case prev of
        Some p \<Rightarrow> if same_entry p e then dedup prev es else e # dedup (Some e) es
      | None \<Rightarrow> e # dedup (Some e) es)"

definition last_opt :: "'a list \<Rightarrow> 'a option" where
  "last_opt xs = (if xs = [] then None else Some (last xs))"

lemma last_last_n: "0 < n \<Longrightarrow> xs \<noteq> [] \<Longrightarrow> last (last_n n xs) = last xs"
  by (simp add: last_n_def)

lemma last_n_Nil_iff: "0 < n \<Longrightarrow> last_n n xs = [] \<longleftrightarrow> xs = []"
proof -
  assume "0 < n"
  then have "length (last_n n xs) = 0 \<longleftrightarrow> length xs = 0" by (auto simp: min_def)
  then show ?thesis unfolding length_0_conv .
qed

lemma append_log_spec:
  "append_log e (last_n MAX_LOG l) =
     (if l \<noteq> [] \<and> same_entry (last l) e then last_n MAX_LOG l else last_n MAX_LOG (l @ [e]))"
proof (cases "l = []")
  case True
  then show ?thesis by (simp add: append_log_def hub_log.content_push last_n_def)
next
  case False
  then have "last (last_n MAX_LOG l) = last l" "last_n MAX_LOG l \<noteq> []"
    by (simp_all add: last_last_n last_n_Nil_iff hub_log.cap_pos)
  with False show ?thesis by (simp add: append_log_def hub_log.content_push last_n_append_last_n)
qed

lemma append_logs:
  "fold append_log es (last_n MAX_LOG l) = last_n MAX_LOG (l @ dedup (last_opt l) es)"
proof (induction es arbitrary: l)
  case (Cons e es)
  have "fold append_log es (append_log e (last_n MAX_LOG l)) =
      last_n MAX_LOG (l @ dedup (last_opt l) (e # es))"
  proof (cases "l \<noteq> [] \<and> same_entry (last l) e")
    case True
    then show ?thesis using Cons.IH [of l] by (simp add: append_log_spec last_opt_def)
  next
    case False
    then show ?thesis using Cons.IH [of "l @ [e]"] by (auto simp: append_log_spec last_opt_def)
  qed
  then show ?case by simp
qed simp

definition hub_log_of :: "hub_state \<Rightarrow> string \<Rightarrow> runtime_log_entry list" where
  "hub_log_of st i = (case map_of (hub_flows st) i of Some fr \<Rightarrow> frt_log fr | None \<Rightarrow> [])"

text \<open>The log entries that a list of timed bus events holds for one flow.\<close>

definition flow_entries :: "string \<Rightarrow> (int \<times> bus_event) list \<Rightarrow> runtime_log_entry list" where
  "flow_entries i evs = List.map_filter (\<lambda>(now, ev). case ev of
     FlowExecution fe \<Rightarrow> if fee_flow_id fe = i \<and> i \<noteq> [] then Some (log_entry_of now fe) else None
   | _ \<Rightarrow> None) evs"

lemma sync_event_log [simp]: "frt_log (sync_event started prog oid fr) = frt_log fr"
  by (simp add: sync_event_def Let_def)

lemma flow_event_log [simp]: "frt_log (flow_event now fe fr) = append_log (log_entry_of now fe) (frt_log fr)"
  by (simp add: flow_event_def flow_event_op_def flow_event_flow_def Let_def)

lemma hub_log_apply_sync:
  "hub_log_of \<lparr> hub_rev = r, hub_flows = apply_sync now ev fl \<rparr> i = hub_log_of \<lparr> hub_rev = r', hub_flows = fl \<rparr> i"
  by (auto simp: hub_log_of_def apply_sync_def flow_runtime_default_def split: option.split prod.split)

lemma hub_log_on_event:
  "hub_log_of (hub_on_event now ev st) i = fold append_log (flow_entries i [(now, ev)]) (hub_log_of st i)"
proof (cases "\<exists>fe. ev = FlowExecution fe")
  case True
  then obtain fe where ev: "ev = FlowExecution fe" by blast
  show ?thesis
    by (auto simp: ev flow_entries_def map_filter_simps hub_log_of_def apply_flow_def flow_runtime_default_def
        split: option.split)
next
  case False
  then have "hub_on_event now ev st = (if sync_prog now ev = None then st
      else st\<lparr>hub_flows := apply_sync now ev (hub_flows st), hub_rev := hub_rev st + 1\<rparr>)"
    by (cases ev) auto
  moreover have "flow_entries i [(now, ev)] = []"
    using False by (cases ev) (auto simp: flow_entries_def map_filter_simps)
  ultimately show ?thesis
    using hub_log_apply_sync [of "hub_rev st + 1" now ev "hub_flows st" i "hub_rev st"]
    by (simp add: hub_log_of_def)
qed

definition hub_run :: "(int \<times> bus_event) list \<Rightarrow> hub_state \<Rightarrow> hub_state" where
  "hub_run evs st = fold (\<lambda>(now, ev). hub_on_event now ev) evs st"

lemma flow_entries_Cons: "flow_entries i (x # xs) = flow_entries i [x] @ flow_entries i xs"
  by (simp add: flow_entries_def map_filter_simps split: option.split prod.split)

lemma hub_log_run: "hub_log_of (hub_run evs st) i = fold append_log (flow_entries i evs) (hub_log_of st i)"
proof (induction evs arbitrary: st)
  case (Cons x evs)
  obtain now ev where x: "x = (now, ev)" by (cases x)
  have "hub_run (x # evs) st = hub_run evs (hub_on_event now ev st)" by (simp add: hub_run_def x)
  then show ?case
    using Cons.IH [of "hub_on_event now ev st"] flow_entries_Cons [of i x evs]
    by (simp add: x hub_log_on_event)
qed (simp add: hub_run_def flow_entries_def map_filter_simps)

text \<open>
  C38: the log shown for a flow is right. After any sequence of bus events, the log of a flow is
  exactly the newest forty of its execution events once immediate repetitions (same status,
  operation and error) are dropped; events of other flows and sync events never touch it.
\<close>

theorem hub_log_newest:
  "hub_log_of (hub_run evs hub_new) i = last_n MAX_LOG (dedup None (flow_entries i evs))"
  using append_logs [of "flow_entries i evs" "[]"]
  unfolding hub_log_run by (simp add: hub_log_of_def hub_new_def last_n_def last_opt_def)

section \<open>Snapshots\<close>

lemma map_of_key_map: "map_of (map (\<lambda>(k, v). (k, f k v)) al) i = map_option (f i) (map_of al i)"
  by (induction al) auto

definition hub_keys :: "hub_state \<Rightarrow> bool" where
  "hub_keys st \<longleftrightarrow> keys_distinct (hub_flows st)"

lemma hub_keys_on_event: "hub_keys st \<Longrightarrow> hub_keys (hub_on_event now ev st)"
  by (cases "(now, ev, st)" rule: hub_on_event.cases)
    (auto simp: hub_keys_def apply_flow_def apply_sync_def split: option.split prod.split)

lemma hub_keys_run: "hub_keys st \<Longrightarrow> hub_keys (hub_run evs st)"
  by (induction evs arbitrary: st) (auto simp: hub_run_def hub_keys_on_event)

lemma keys_distinct_fold:
  "(\<And>x al. keys_distinct al \<Longrightarrow> keys_distinct (f x al)) \<Longrightarrow> keys_distinct al \<Longrightarrow> keys_distinct (fold f xs al)"
  by (induction xs arbitrary: al) auto

lemma keys_distinct_merged: "hub_keys st \<Longrightarrow> keys_distinct (hub_merged now fe se st)"
  unfolding hub_merged_def Let_def hub_keys_def
  by (auto intro!: keys_distinct_fold simp: apply_status_def apply_task_def split: option.split prod.split)

text \<open>The status each flow of a projection has, and what overlaying statuses and tasks does to it.\<close>

definition status_of :: "flow_map \<Rightarrow> string \<Rightarrow> string option" where
  "status_of m i = map_option frt_status (map_of m i)"

definition tasks_of :: "string \<Rightarrow> task_snapshot list \<Rightarrow> task_snapshot list" where
  "tasks_of i ts = filter (\<lambda>t. case split_busy_key (ts_name t) of Some (j, _) \<Rightarrow> j = i | None \<Rightarrow> False) ts"

lemma status_apply_task:
  "status_of (apply_task now t m) i =
     (if tasks_of i [t] \<noteq> [] then Some (task_status t) else status_of m i)"
  by (auto simp: status_of_def apply_task_def tasks_of_def split: option.split prod.split)

lemma tasks_of_Cons: "tasks_of i (t # ts) = tasks_of i [t] @ tasks_of i ts"
  by (simp add: tasks_of_def)

lemma status_apply_tasks:
  "status_of (fold (apply_task now) ts m) i =
     (if tasks_of i ts \<noteq> [] then Some (task_status (last (tasks_of i ts))) else status_of m i)"
proof (induction ts arbitrary: m)
  case (Cons t ts)
  have "tasks_of i [t] = [] \<or> tasks_of i [t] = [t]" by (simp add: tasks_of_def)
  then show ?case using Cons.IH [of "apply_task now t m"] tasks_of_Cons [of i t ts]
    by (auto simp: status_apply_task)
qed (simp add: tasks_of_def)

lemma status_apply_status:
  "status_of (apply_status (j, s) m) i =
     (if i = j then Some (if s \<noteq> [] then s else case status_of m i of Some x \<Rightarrow> x | None \<Rightarrow> []) else status_of m i)"
  by (auto simp: status_of_def apply_status_def flow_runtime_default_def split: option.split)

lemma status_apply_statuses:
  "distinct (map fst ss) \<Longrightarrow> \<forall>(j, s) \<in> set ss. s \<noteq> [] \<Longrightarrow>
     status_of (fold apply_status ss m) i = (case map_of ss i of Some s \<Rightarrow> Some s | None \<Rightarrow> status_of m i)"
proof (induction ss arbitrary: m)
  case (Cons x ss)
  obtain j s where x: "x = (j, s)" by (cases x)
  have "map_of ss j = None" using Cons.prems x by (simp add: map_of_eq_None_iff)
  with Cons x show ?case by (auto simp: status_apply_status split: option.split)
qed simp

lemma map_of_flow_statuses_fold:
  "distinct (map fst rs) \<Longrightarrow>
     map_of (fold (\<lambda>(i, r) out. if fr_status r \<noteq> [] then AList.update i (fr_status r) out else out) rs out) i =
       (case map_of rs i of Some r \<Rightarrow> if fr_status r \<noteq> [] then Some (fr_status r) else map_of out i
        | None \<Rightarrow> map_of out i)"
proof (induction rs arbitrary: out)
  case (Cons x rs)
  obtain j r where x: "x = (j, r)" by (cases x)
  have "map_of rs j = None" using Cons.prems x by (simp add: map_of_eq_None_iff)
  with Cons x show ?case by (auto split: option.split)
qed simp

lemma set_AList_update: "set (AList.update k v al) \<subseteq> insert (k, v) (set al)"
  by (induction al) auto

lemma flow_statuses_ok:
  assumes "keys_distinct (fe_last e)"
  shows "keys_distinct (flow_statuses e)" "\<forall>(j, s) \<in> set (flow_statuses e). s \<noteq> []"
proof -
  let ?f = "\<lambda>(i, r) out. if fr_status r \<noteq> [] then AList.update i (fr_status r) out else out"
  have "keys_distinct (filter (\<lambda>(i, s). s \<noteq> []) (fe_last e))"
    using assms by (simp add: keys_distinct_def distinct_map_filter)
  then show "keys_distinct (flow_statuses e)"
    unfolding flow_statuses_def by (rule keys_distinct_fold [rotated]) (auto split: prod.split)
  have "\<forall>(j, s) \<in> set (fold ?f rs out). s \<noteq> []" if "\<forall>(j, s) \<in> set out. s \<noteq> []"
    for rs :: "(string \<times> flow_run) list" and out :: "(string \<times> string) list"
    using that
  proof (induction rs arbitrary: out)
    case (Cons x rs)
    have "\<forall>(j, s) \<in> set (?f x out). s \<noteq> []"
      using Cons.prems set_AList_update [of "fst x" "fr_status (snd x)" out] by (auto split: prod.split)
    from Cons.IH [OF this] show ?case by simp
  qed simp
  then show "\<forall>(j, s) \<in> set (flow_statuses e). s \<noteq> []"
    unfolding flow_statuses_def by (rule meta_mp) auto
qed

text \<open>What the code promises of a flow's status: an active task of the flow, else the engine, else the events.\<close>

definition shown_status :: "flow_engine \<Rightarrow> sync_engine \<Rightarrow> hub_state \<Rightarrow> string \<Rightarrow> string option" where
  "shown_status e s st i =
     (if tasks_of i (active_tasks s) \<noteq> [] then Some (task_status (last (tasks_of i (active_tasks s))))
      else case map_of (fe_runs e) i of
             Some r \<Rightarrow> if fr_status r \<noteq> [] then Some (fr_status r) else
               (case map_of (fe_last e) i of Some l \<Rightarrow> if l \<noteq> [] then Some l else status_of (hub_flows st) i
                | None \<Rightarrow> status_of (hub_flows st) i)
           | None \<Rightarrow> (case map_of (fe_last e) i of Some l \<Rightarrow> if l \<noteq> [] then Some l else status_of (hub_flows st) i
                | None \<Rightarrow> status_of (hub_flows st) i))"

lemma map_of_filter_snd:
  "distinct (map fst al) \<Longrightarrow>
     map_of (filter (\<lambda>(i, s). s \<noteq> []) al) i = (case map_of al i of Some l \<Rightarrow> if l \<noteq> [] then Some l else None | None \<Rightarrow> None)"
  by (induction al) (auto simp: map_of_eq_None_iff split: option.split)

lemma status_merged:
  assumes "keys_distinct (fe_runs e)" "keys_distinct (fe_last e)"
  shows "status_of (hub_merged now (Some e) (Some s) st) i = shown_status e s st i"
proof -
  have "map_of (flow_statuses e) i =
    (case map_of (fe_runs e) i of Some r \<Rightarrow> if fr_status r \<noteq> [] then Some (fr_status r)
        else map_of (filter (\<lambda>(i, s). s \<noteq> []) (fe_last e)) i
     | None \<Rightarrow> map_of (filter (\<lambda>(i, s). s \<noteq> []) (fe_last e)) i)"
    using assms(1) unfolding flow_statuses_def by (simp add: map_of_flow_statuses_fold keys_distinct_def)
  moreover have "distinct (map fst (flow_statuses e))"
    using flow_statuses_ok(1) [OF assms(2)] by (simp add: keys_distinct_def)
  note status_apply_statuses [OF this flow_statuses_ok(2) [OF assms(2)], of "hub_flows st" i]
  ultimately show ?thesis
    using assms(2)
    by (auto simp: hub_merged_def Let_def status_apply_tasks shown_status_def map_of_filter_snd keys_distinct_def
        split: option.split)
qed

lemma strict_sort_key: "distinct (map f xs) \<Longrightarrow> sorted_wrt (<) (map f (sort_key f xs))"
  by (simp add: strict_sorted_iff distinct_map)

lemma map_of_sort_key_distinct:
  assumes "distinct (map f xs)"
  shows "map_of (map (\<lambda>x. (f x, g x)) (sort_key f xs)) = map_of (map (\<lambda>x. (f x, g x)) xs)"
proof (rule map_of_eqI)
  let ?p = "\<lambda>x. (f x, g x)"
  have "distinct (map f (sort_key f xs))" using assms by (simp add: distinct_map)
  then have "distinct (map fst (map ?p (sort_key f xs)))" by (simp add: comp_def)
  have "distinct (map fst (map ?p xs))" using assms by (simp add: comp_def)
  show "\<forall>k \<in> set (map fst (map ?p (sort_key f xs))). map_of (map ?p (sort_key f xs)) k = map_of (map ?p xs) k"
  proof (intro ballI)
    fix k
    assume "k \<in> set (map fst (map ?p (sort_key f xs)))"
    then obtain x where x: "x \<in> set xs" "k = f x" by auto
    have "map_of (map ?p (sort_key f xs)) k = Some (g x)"
      by (rule map_of_is_SomeI) (use x \<open>distinct (map fst (map ?p (sort_key f xs)))\<close> in auto)
    moreover have "map_of (map ?p xs) k = Some (g x)"
      by (rule map_of_is_SomeI) (use x \<open>distinct (map fst (map ?p xs))\<close> in auto)
    ultimately show "map_of (map ?p (sort_key f xs)) k = map_of (map ?p xs) k" by simp
  qed
qed force

text \<open>
  A snapshot is complete, sorted and current. After any bus events, the flows of a snapshot
  are strictly ordered by id, so none is listed twice; a flow is listed exactly when the events,
  the flow engine or an active task know it; and its status is that of its active task, else the
  flow engine's (live or last), else the one the events left, shown as idle when there is none.
\<close>

lemma hub_snapshot_current:
  assumes "keys_distinct (fe_runs e)" "keys_distinct (fe_last e)"
  shows "let flows = rse_flows (hub_snapshot now (Some e) (Some s) (hub_run evs hub_new)) in
    sorted_wrt (<) (map rfs_id flows) \<and>
    map_of (map (\<lambda>f. (rfs_id f, rfs_status f)) flows) i =
      map_option (\<lambda>x. if x = [] then ''idle'' else x) (shown_status e s (hub_run evs hub_new) i)"
proof -
  let ?st = "hub_run evs hub_new"
  let ?m = "hub_merged now (Some e) (Some s) ?st"
  let ?l = "map (\<lambda>(i, fr). to_flow_state i fr) ?m"
  have "hub_keys ?st" by (rule hub_keys_run) (simp add: hub_keys_def hub_new_def)
  then have k: "keys_distinct ?m" by (rule keys_distinct_merged)
  have ids: "map rfs_id ?l = map fst ?m" by (simp add: to_flow_state_def comp_def case_prod_beta)
  then have d: "distinct (map rfs_id ?l)" using k by (simp only: ids keys_distinct_def)
  then have "sorted_wrt (<) (map rfs_id (sort_key rfs_id ?l))"
    by (rule strict_sort_key)
  moreover have "map_of (map (\<lambda>f. (rfs_id f, rfs_status f)) ?l) i =
      map_option (\<lambda>x. if x = [] then ''idle'' else x) (status_of ?m i)"
  proof -
    have "map (\<lambda>f. (rfs_id f, rfs_status f)) ?l =
        map (\<lambda>(k, v). (k, if frt_status v = [] then ''idle'' else frt_status v)) ?m"
      by (simp add: to_flow_state_def comp_def case_prod_beta)
    then show ?thesis by (simp only: map_of_map) (simp add: status_of_def option.map_comp comp_def)
  qed
  ultimately show ?thesis
    by (simp add: Let_def hub_snapshot_def map_of_sort_key_distinct [OF d] status_merged [OF assms])
qed

section \<open>Busy keys\<close>

text \<open>
  The key a flow operation runs under names it. For a flow id that is not empty and has no
  colon and a non-empty operation id (which may contain colons), the busy key of the operation
  splits back into exactly the two ids; whatever splits was put together from the two parts.
\<close>

lemma busy_key_roundtrip:
  "(f_id f \<noteq> [] \<and> CHR '':'' \<notin> set (f_id f) \<and> op_id op \<noteq> [] \<longrightarrow>
      split_busy_key (op_busy_key f op) = Some (f_id f, op_id op)) \<and>
   (\<forall>a b. split_busy_key k = Some (a, b) \<longrightarrow> k = a @ '':'' @ b \<and> a \<noteq> [] \<and> b \<noteq> [] \<and> CHR '':'' \<notin> set a)"
proof (intro conjI impI allI)
  assume "f_id f \<noteq> [] \<and> CHR '':'' \<notin> set (f_id f) \<and> op_id op \<noteq> []"
  then show "split_busy_key (op_busy_key f op) = Some (f_id f, op_id op)"
    by (simp add: split_busy_key_def op_busy_key_def find_char_append)
next
  fix a b
  assume "split_busy_key k = Some (a, b)"
  then obtain i where i: "find_char CHR '':'' k = Some i" "i \<noteq> 0" "i + 1 \<noteq> length k"
    "a = take i k" "b = drop (i + 1) k"
    by (auto simp: split_busy_key_def split: option.splits if_splits)
  note at = find_char_Some [OF i(1)]
  show "k = a @ '':'' @ b" using id_take_nth_drop [of i k] at i(4,5) by simp
  show "a \<noteq> []" using i(2,4) at by (cases k) auto
  show "b \<noteq> []" using i(3,5) at by simp
  show "CHR '':'' \<notin> set a" using i(4) at by simp
qed

text \<open>A flow id that contains a colon: its operations are shown under another flow.\<close>

lemma colon_flow_id: "split_busy_key (op_busy_key (demo_flow\<lparr>f_id := ''a:b''\<rparr>) demo_op) = Some (''a'', ''b:o'')"
  by (simp add: split_busy_key_def op_busy_key_def demo_op_def)

end
