(* ===== verification/Argon2.thy ===== *)
theory Argon2
  imports Prelude "HOL-Library.Word"
begin

unbundle bit_operations_syntax

text \<open>
  \<open>crates/gn-drive-core/src/argon2id.rs\<close>: the encoded password hash, its verification, and the
  key derivation. The Argon2 function and unpadded base64 are crates: they are the fields of
  \<open>argon_crate\<close>, and \<open>argon_crate_ok\<close> states what their documentation says of them. The
  random salt of \<open>create_hash\<close> is an argument.
\<close>

section \<open>The crates\<close>

type_synonym byte = "8 word"

text \<open>
  \<open>ac_hash m t p n password salt\<close>: \<open>Params::new\<close> and \<open>hash_password_into\<close> with Argon2id version
  0x13 and an output of \<open>n\<close> bytes; an error of either is its message.
\<close>

record argon_crate =
  ac_hash :: "nat \<Rightarrow> nat \<Rightarrow> nat \<Rightarrow> nat \<Rightarrow> string \<Rightarrow> byte list \<Rightarrow> (string, byte list) result"
  ac_encode :: "byte list \<Rightarrow> string"
  ac_decode :: "string \<Rightarrow> byte list option"

definition argon_crate_ok :: "argon_crate \<Rightarrow> bool" where
  "argon_crate_ok ac \<longleftrightarrow>
     (\<forall>m t p n pw salt out. ac_hash ac m t p n pw salt = Ok out \<longrightarrow> length out = n) \<and>
     (\<forall>b. ac_decode ac (ac_encode ac b) = Some b) \<and>
     (\<forall>b. CHR ''$'' \<notin> set (ac_encode ac b) \<and> CHR ''='' \<notin> set (ac_encode ac b))"

section \<open>Hashing\<close>

definition MEMORY :: nat where "MEMORY = 64 * 1024"
definition ITERATIONS :: nat where "ITERATIONS = 3"
definition PARALLELISM :: nat where "PARALLELISM = 4"
definition KEY_LENGTH :: nat where "KEY_LENGTH = 32"
definition SALT_LENGTH :: nat where "SALT_LENGTH = 32"

lemmas argon_params = MEMORY_def ITERATIONS_def PARALLELISM_def KEY_LENGTH_def

datatype argon2_error = HashFailed string | InvalidFormat

fun argon2_error_display :: "argon2_error \<Rightarrow> string" where
  "argon2_error_display (HashFailed m) = ''argon2: hash failed ('' @ m @ '')''"
| "argon2_error_display InvalidFormat = ''argon2: invalid encoded hash format''"

definition hash_raw :: "argon_crate \<Rightarrow> string \<Rightarrow> byte list \<Rightarrow> nat \<Rightarrow> (argon2_error, byte list) result" where
  "hash_raw ac password salt n =
     (case ac_hash ac MEMORY ITERATIONS PARALLELISM n password salt of
        Err e \<Rightarrow> Err (HashFailed e) | Ok out \<Rightarrow> Ok out)"

definition derive_key :: "argon_crate \<Rightarrow> string \<Rightarrow> byte list \<Rightarrow> (argon2_error, byte list) result" where
  "derive_key ac password salt = hash_raw ac password salt KEY_LENGTH"

definition create_hash :: "argon_crate \<Rightarrow> byte list \<Rightarrow> string \<Rightarrow> (argon2_error, string) result" where
  "create_hash ac salt password =
     (case hash_raw ac password salt KEY_LENGTH of
        Err e \<Rightarrow> Err e
      | Ok out \<Rightarrow> Ok (''$argon2id$v=19$m='' @ show_nat MEMORY @ '',t='' @ show_nat ITERATIONS @ '',p='' @
                      show_nat PARALLELISM @ ''$'' @ ac_encode ac salt @ ''$'' @ ac_encode ac out))"

section \<open>Verification\<close>

definition trim_end_matches :: "char \<Rightarrow> string \<Rightarrow> string" where
  "trim_end_matches c s = rev (dropWhile (\<lambda>d. d = c) (rev s))"

definition b64_raw :: "argon_crate \<Rightarrow> string \<Rightarrow> byte list option" where
  "b64_raw ac s = ac_decode ac (trim_end_matches CHR ''='' s)"

definition constant_time_eq :: "byte list \<Rightarrow> byte list \<Rightarrow> bool" where
  "constant_time_eq a b =
     (if length a \<noteq> length b then False
      else fold (\<lambda>(x, y) d. d OR (x XOR y)) (zip a b) 0 = 0)"

definition split_once :: "char \<Rightarrow> string \<Rightarrow> (string \<times> string) option" where
  "split_once c s = (case find_char c s of None \<Rightarrow> None | Some i \<Rightarrow> Some (take i s, drop (Suc i) s))"

type_synonym hash_params = "nat option \<times> nat option \<times> nat option"

fun parse_params_loop :: "string list \<Rightarrow> hash_params \<Rightarrow> hash_params option" where
  "parse_params_loop [] acc = Some acc"
| "parse_params_loop (kv # kvs) (m, t, p) =
     (case split_once CHR ''='' kv of
        None \<Rightarrow> None
      | Some (k, v) \<Rightarrow>
          (case parse_u32 v of
             None \<Rightarrow> None
           | Some n \<Rightarrow>
               if k = ''m'' then parse_params_loop kvs (Some n, t, p)
               else if k = ''t'' then parse_params_loop kvs (m, Some n, p)
               else if k = ''p'' then parse_params_loop kvs (m, t, Some n)
               else None))"

definition parse_params :: "string \<Rightarrow> (nat \<times> nat \<times> nat) option" where
  "parse_params s =
     (case parse_params_loop (split_on CHR '','' s) (None, None, None) of
        Some (Some m, Some t, Some p) \<Rightarrow> Some (m, t, p)
      | _ \<Rightarrow> None)"

definition verify_with :: "argon_crate \<Rightarrow> nat \<times> nat \<times> nat \<Rightarrow> string \<Rightarrow> string \<Rightarrow> string \<Rightarrow> bool" where
  "verify_with ac = (\<lambda>(m, t, p) password salt_text stored_text.
     case (b64_raw ac salt_text, b64_raw ac stored_text) of
       (Some salt, Some stored) \<Rightarrow>
         (case ac_hash ac m t p (length stored) password salt of
            Err _ \<Rightarrow> False | Ok out \<Rightarrow> constant_time_eq stored out)
     | _ \<Rightarrow> False)"

definition verify :: "argon_crate \<Rightarrow> string \<Rightarrow> string \<Rightarrow> bool" where
  "verify ac password encoded =
     (let parts = split_on CHR ''$'' encoded in
      if starts_with ''$argon2id$'' encoded then
        (if length parts \<noteq> 6 \<or> parts ! 2 \<noteq> ''v=19'' then False
         else case parse_params (parts ! 3) of
                None \<Rightarrow> False
              | Some mtp \<Rightarrow> verify_with ac mtp password (parts ! 4) (parts ! 5))
      else if length parts \<noteq> 5 then False
      else verify_with ac (MEMORY, ITERATIONS, PARALLELISM) password (parts ! 3) (parts ! 4))"

definition extract_salt :: "argon_crate \<Rightarrow> string \<Rightarrow> (argon2_error, byte list) result" where
  "extract_salt ac encoded =
     (let parts = split_on CHR ''$'' encoded; new = starts_with ''$argon2id$'' encoded in
      if length parts \<noteq> (if new then 6 else 5) then Err InvalidFormat
      else case b64_raw ac (parts ! (if new then 4 else 3)) of
             Some salt \<Rightarrow> Ok salt | None \<Rightarrow> Err InvalidFormat)"

section \<open>Lemmas\<close>

lemma or_fold_zero:
  "fold (\<lambda>(x, y) d. d OR (x XOR y)) ps (d :: byte) = 0 \<longleftrightarrow> d = 0 \<and> (\<forall>(x, y) \<in> set ps. x = y)"
proof (induction ps arbitrary: d)
  case (Cons p ps)
  obtain x y where p: "p = (x, y)" by (cases p)
  have "d OR (x XOR y) = 0 \<longleftrightarrow> d = 0 \<and> x = y"
    by (auto simp: bit_eq_iff bit_simps)
  then show ?case by (auto simp: Cons p)
qed simp

lemma constant_time_eq: "constant_time_eq a b \<longleftrightarrow> a = b"
proof (cases "length a = length b")
  case True
  then have "(\<forall>(x, y) \<in> set (zip a b). x = y) \<longleftrightarrow> a = b"
    by (metis (mono_tags, lifting) case_prodD case_prodI2 in_set_zip list_eq_iff_zip_eq)
  with True show ?thesis by (simp add: constant_time_eq_def or_fold_zero)
qed (auto simp: constant_time_eq_def)

lemma trim_end_noop: "c \<notin> set s \<Longrightarrow> trim_end_matches c s = s"
proof -
  assume "c \<notin> set s"
  moreover have "dropWhile (\<lambda>d. d = c) xs = xs" if "c \<notin> set xs" for xs using that by (cases xs) auto
  ultimately have "dropWhile (\<lambda>d. d = c) (rev s) = rev s" by simp
  then show ?thesis by (simp add: trim_end_matches_def)
qed

lemma b64_raw_encode: "argon_crate_ok ac \<Longrightarrow> b64_raw ac (ac_encode ac b) = Some b"
  by (simp add: b64_raw_def argon_crate_ok_def trim_end_noop)

definition fixed_params :: string where
  "fixed_params = ''m='' @ show_nat MEMORY @ '',t='' @ show_nat ITERATIONS @ '',p='' @ show_nat PARALLELISM"

lemma fixed_params_eval: "fixed_params = ''m=65536,t=3,p=4''"
  by (simp add: fixed_params_def argon_params show_nat.simps digit_char_def char_of_def bit_Suc_0_iff)

lemma parse_fixed_params: "parse_params fixed_params = Some (MEMORY, ITERATIONS, PARALLELISM)"
  by (simp add: fixed_params_eval parse_params_def split_once_def parse_u32_def parse_digits_def
      is_ascii_digit_def digits_value_def char_digit_def u32_max_def argon_params)

text \<open>The parts of a hash that \<open>create_hash\<close> made.\<close>

definition hash_parts :: "argon_crate \<Rightarrow> byte list \<Rightarrow> byte list \<Rightarrow> string list" where
  "hash_parts ac salt out = [[], ''argon2id'', ''v=19'', fixed_params, ac_encode ac salt, ac_encode ac out]"

lemma create_hash_parts:
  assumes "argon_crate_ok ac" "create_hash ac salt password = Ok h"
  obtains out where "hash_raw ac password salt KEY_LENGTH = Ok out" "length out = KEY_LENGTH"
    "starts_with ''$argon2id$'' h" "split_on CHR ''$'' h = hash_parts ac salt out"
proof -
  obtain out where out: "hash_raw ac password salt KEY_LENGTH = Ok out"
    and h: "h = join ''$'' (hash_parts ac salt out)"
    using assms(2) by (auto simp: create_hash_def fixed_params_def hash_parts_def split: sum.splits)
  have "length out = KEY_LENGTH"
    using out assms(1) by (auto simp: hash_raw_def argon_crate_ok_def split: sum.splits)
  moreover have "starts_with ''$argon2id$'' h" by (simp add: h starts_with_def hash_parts_def)
  moreover have "split_on CHR ''$'' h = hash_parts ac salt out"
    unfolding h using assms(1)
    by (intro split_on_join) (simp_all add: argon_crate_ok_def fixed_params_eval hash_parts_def)
  ultimately show ?thesis using out that by blast
qed

lemma verify_hash_key:
  assumes "argon_crate_ok ac" "create_hash ac salt password = Ok h" "derive_key ac password salt = Ok k"
  shows "extract_salt ac h = Ok salt \<and> (\<forall>pw. verify ac pw h \<longleftrightarrow> derive_key ac pw salt = Ok k)"
proof -
  obtain out where out: "hash_raw ac password salt KEY_LENGTH = Ok out" "length out = KEY_LENGTH"
    "starts_with ''$argon2id$'' h" "split_on CHR ''$'' h = hash_parts ac salt out"
    by (rule create_hash_parts [OF assms(1,2)])
  have "verify ac pw h \<longleftrightarrow> hash_raw ac pw salt KEY_LENGTH = Ok out" for pw
    using out assms(1)
    by (auto simp: verify_def Let_def hash_parts_def parse_fixed_params verify_with_def b64_raw_encode
        constant_time_eq hash_raw_def split: sum.split)
  moreover have "extract_salt ac h = Ok salt"
    using out(3,4) assms(1) by (simp add: extract_salt_def hash_parts_def Let_def b64_raw_encode)
  ultimately show ?thesis using out(1) assms(3) by (simp add: derive_key_def)
qed

text \<open>
  C39: hashing and verifying agree. A hash made by \<open>create_hash\<close> carries its salt, and verifies a
  password exactly when that password derives the same 32 bytes from the salt; in particular it
  verifies the password it was made from.
\<close>

theorem verify_create_hash:
  assumes "argon_crate_ok ac" "create_hash ac salt password = Ok h"
  shows "extract_salt ac h = Ok salt \<and> verify ac password h \<and>
    (verify ac other h \<longleftrightarrow> derive_key ac other salt = derive_key ac password salt)"
proof -
  obtain k where k: "derive_key ac password salt = Ok k"
    using assms(2) by (auto simp: create_hash_def derive_key_def split: sum.splits)
  from verify_hash_key [OF assms this] k show ?thesis by simp
qed

text \<open>
  The stored hash is the encryption key: both are the same Argon2 output of the same password,
  salt and length, so the last part of \<open>password_hash\<close> in \<open>auth.json\<close> decodes to the key.
\<close>

lemma stored_hash_is_key:
  assumes "argon_crate_ok ac" "create_hash ac salt password = Ok h" "derive_key ac password salt = Ok key"
  shows "b64_raw ac (last (split_on CHR ''$'' h)) = Some key"
proof -
  obtain out where "hash_raw ac password salt KEY_LENGTH = Ok out" "split_on CHR ''$'' h = hash_parts ac salt out"
    by (rule create_hash_parts [OF assms(1,2)])
  with assms(1,3) show ?thesis by (simp add: derive_key_def b64_raw_encode hash_parts_def)
qed

text \<open>A crate that meets the documented laws: a toy hash and two letters per byte.\<close>

definition nibble_chars :: "byte \<Rightarrow> string" where
  "nibble_chars b = [char_of (97 + unat b div 16), char_of (97 + unat b mod 16)]"

fun nibble_decode :: "string \<Rightarrow> byte list option" where
  "nibble_decode [] = Some []"
| "nibble_decode [c] = None"
| "nibble_decode (c # d # s) =
     map_option ((#) (of_nat ((of_char c - 97) * 16 + (of_char d - 97)))) (nibble_decode s)"

definition demo_crate :: argon_crate where
  "demo_crate = \<lparr> ac_hash = (\<lambda>m t p n pw salt. Ok (replicate n (of_nat (length pw)))),
     ac_encode = (\<lambda>b. concat (map nibble_chars b)), ac_decode = nibble_decode \<rparr>"

lemma nibble_decode_encode: "nibble_decode (concat (map nibble_chars b)) = Some b"
proof (induction b)
  case (Cons x b)
  have "unat x < 256" using unsigned_less [of x, where ?'a = nat] by simp
  then have "(unat x div 16) * 16 + unat x mod 16 = unat x" "97 + unat x div 16 < 256" "97 + unat x mod 16 < 256"
    by auto
  then show ?case by (simp add: nibble_chars_def Cons [unfolded nibble_chars_def])
qed simp

lemma nibble_chars_plain: "c \<in> set (nibble_chars b) \<Longrightarrow> c \<noteq> CHR ''$'' \<and> c \<noteq> CHR ''=''"
proof -
  have "unat b < 256" using unsigned_less [of b, where ?'a = nat] by simp
  then have "of_char (char_of (97 + unat b div 16) :: char) = 97 + unat b div 16"
    "of_char (char_of (97 + unat b mod 16) :: char) = 97 + unat b mod 16" by simp_all
  moreover assume "c \<in> set (nibble_chars b)"
  ultimately have "(of_char c :: nat) \<ge> 97" by (auto simp: nibble_chars_def)
  then show ?thesis by auto
qed

lemma demo_crate_ok: "argon_crate_ok demo_crate"
  using nibble_chars_plain by (fastforce simp: argon_crate_ok_def demo_crate_def nibble_decode_encode)

theorem verify_create_hash_witness:
  "\<exists>h. create_hash demo_crate [1, 2] ''pass'' = Ok h \<and> extract_salt demo_crate h = Ok [1, 2] \<and>
     verify demo_crate ''pass'' h \<and> \<not> verify demo_crate ''other'' h"
proof -
  obtain h where h: "create_hash demo_crate [1, 2] ''pass'' = Ok h"
    by (simp add: create_hash_def hash_raw_def demo_crate_def)
  have "derive_key demo_crate ''other'' [1, 2] \<noteq> derive_key demo_crate ''pass'' [1, 2]"
    by (simp add: derive_key_def hash_raw_def demo_crate_def KEY_LENGTH_def)
  with h verify_create_hash [OF demo_crate_ok h, of "''other''"] show ?thesis by blast
qed

end
