(* ===== verification/SecureStore.thy ===== *)
theory SecureStore
  imports Argon2
begin

text \<open>
  \<open>crates/gn-drive-core/src/keychain.rs\<close>: the interface to the operating system's secret store,
  the in-memory store and the store of platforms without a keychain. The interface is the
  locale \<open>secure_store\<close>: what a client may rely on after a \<open>set\<close> or a \<open>delete\<close>, whether it
  succeeded or not. The macOS keychain itself is a system service and has no definition here.
\<close>

datatype secure_store_error = SsNotFound | SsOs int | SsOther string

fun secure_store_error_display :: "secure_store_error \<Rightarrow> string" where
  "secure_store_error_display SsNotFound = ''secure store: item not found''"
| "secure_store_error_display (SsOs n) = ''secure store: OSStatus '' @ show_int n"
| "secure_store_error_display (SsOther m) = ''secure store: '' @ m"

text \<open>The trait \<open>SecureStore\<close> over a store with state \<open>'k\<close>.\<close>

record 'k secure_ops =
  so_get :: "string \<Rightarrow> 'k \<Rightarrow> (secure_store_error, byte list) result"
  so_set :: "string \<Rightarrow> byte list \<Rightarrow> 'k \<Rightarrow> (secure_store_error, unit) result \<times> 'k"
  so_delete :: "string \<Rightarrow> 'k \<Rightarrow> (secure_store_error, unit) result \<times> 'k"

locale secure_store =
  fixes ops :: "'k secure_ops"
  assumes set_get: "so_set ops a v s = (Ok u, s') \<Longrightarrow> so_get ops a s' = Ok v"
    and set_old_or_new: "so_set ops a v s = (r, s') \<Longrightarrow> so_get ops a s' \<in> {Ok v, so_get ops a s}"
    and delete_get: "so_delete ops a s = (Ok u, s') \<Longrightarrow> so_get ops a s' \<noteq> Ok v"
    and delete_old_or_gone: "so_delete ops a s = (r, s') \<Longrightarrow>
       so_get ops a s' = so_get ops a s \<or> (\<forall>v. so_get ops a s' \<noteq> Ok v)"
begin

text \<open>A value that only ever is set to \<open>k\<close> reads back as \<open>k\<close> or not at all.\<close>

definition holds_only :: "string \<Rightarrow> byte list \<Rightarrow> 'k \<Rightarrow> bool" where
  "holds_only a k s \<longleftrightarrow> (\<forall>v. so_get ops a s = Ok v \<longrightarrow> v = k)"

lemma holds_only_set: "holds_only a k s \<Longrightarrow> holds_only a k (snd (so_set ops a k s))"
  using set_old_or_new [of a k s] by (cases "so_set ops a k s") (auto simp: holds_only_def)

lemma holds_only_delete: "holds_only a k s \<Longrightarrow> holds_only a k (snd (so_delete ops a s))"
  using delete_old_or_gone [of a s] by (cases "so_delete ops a s") (auto simp: holds_only_def)

lemma deleted_value_gone: "fst (so_delete ops a s) = Ok u \<Longrightarrow> so_get ops a (snd (so_delete ops a s)) \<noteq> Ok v"
  using delete_get [of a s u] by (cases "so_delete ops a s") auto

end

section \<open>The in-memory store\<close>

type_synonym memory_store = "string \<rightharpoonup> byte list"

definition memory_get :: "string \<Rightarrow> memory_store \<Rightarrow> (secure_store_error, byte list) result" where
  "memory_get a m = (case m a of Some v \<Rightarrow> Ok v | None \<Rightarrow> Err SsNotFound)"

definition memory_set :: "string \<Rightarrow> byte list \<Rightarrow> memory_store \<Rightarrow> (secure_store_error, unit) result \<times> memory_store" where
  "memory_set a v m = (Ok (), m(a \<mapsto> v))"

definition memory_delete :: "string \<Rightarrow> memory_store \<Rightarrow> (secure_store_error, unit) result \<times> memory_store" where
  "memory_delete a m = (Ok (), m(a := None))"

definition memory_ops :: "memory_store secure_ops" where
  "memory_ops = \<lparr> so_get = memory_get, so_set = memory_set, so_delete = memory_delete \<rparr>"

lemmas memory_defs = memory_ops_def memory_get_def memory_set_def memory_delete_def

interpretation memory: secure_store memory_ops
  by unfold_locales (auto simp: memory_defs)

section \<open>No keychain\<close>

definition no_keychain_error :: secure_store_error where
  "no_keychain_error = SsOther ''keychain is only available on macOS''"

definition no_keychain_ops :: "unit secure_ops" where
  "no_keychain_ops = \<lparr> so_get = (\<lambda>_ _. Err no_keychain_error), so_set = (\<lambda>_ _ s. (Err no_keychain_error, s)),
     so_delete = (\<lambda>_ s. (Err no_keychain_error, s)) \<rparr>"

interpretation no_keychain: secure_store no_keychain_ops
  by unfold_locales (auto simp: no_keychain_ops_def)

end
