(* ===== verification/Crypto.thy ===== *)
theory Crypto
  imports SecureStore
begin

text \<open>
  \<open>crates/gn-drive-core/src/crypto.rs\<close>: file encryption over a model of the config directory.
  The directory is a map from file names to contents together with the fate of each further
  file operation: it works, fails without effect, or the process dies there, after which nothing
  has an effect any more. A crash at any point of a call is thus a script of fates, and the
  files it leaves are the files of the final state. AES-256-GCM is a crate: the fields of
  \<open>aead\<close>, with its documented law \<open>aead_ok\<close>. The random nonce is an argument. The temporary
  file of an atomic write has a random name that is never read, and is not kept.
\<close>

section \<open>The config directory\<close>

datatype fate = Works | Fails | Crashes

record dir_state =
  ds_files :: "string \<rightharpoonup> byte list"
  ds_fates :: "fate list"
  ds_dead :: bool

text \<open>Whether the next operation takes effect.\<close>

definition dir_next :: "dir_state \<Rightarrow> bool \<times> dir_state" where
  "dir_next d =
     (if ds_dead d then (False, d)
      else case ds_fates d of
             [] \<Rightarrow> (True, d)
           | Works # fs \<Rightarrow> (True, d\<lparr>ds_fates := fs\<rparr>)
           | Fails # fs \<Rightarrow> (False, d\<lparr>ds_fates := fs\<rparr>)
           | Crashes # fs \<Rightarrow> (False, d\<lparr>ds_fates := fs, ds_dead := True\<rparr>))"

definition dir_exists :: "string \<Rightarrow> dir_state \<Rightarrow> bool" where
  "dir_exists n d \<longleftrightarrow> ds_files d n \<noteq> None"

definition dir_read :: "string \<Rightarrow> dir_state \<Rightarrow> byte list option \<times> dir_state" where
  "dir_read n d = (case dir_next d of (ok, d') \<Rightarrow> (if ok then ds_files d n else None, d'))"

definition dir_remove :: "string \<Rightarrow> dir_state \<Rightarrow> dir_state" where
  "dir_remove n d = (case dir_next d of
     (ok, d') \<Rightarrow> if ok then d'\<lparr>ds_files := (ds_files d)(n := None)\<rparr> else d')"

text \<open>\<open>write_atomic_0600\<close>: the new content is there completely or not at all.\<close>

definition write_atomic :: "string \<Rightarrow> byte list \<Rightarrow> dir_state \<Rightarrow> bool \<times> dir_state" where
  "write_atomic n b d = (case dir_next d of
     (ok, d') \<Rightarrow> (ok, if ok then d'\<lparr>ds_files := (ds_files d)(n \<mapsto> b)\<rparr> else d'))"

section \<open>File encryption\<close>

definition NONCE_LEN :: nat where "NONCE_LEN = 12"
definition TAG_LEN :: nat where "TAG_LEN = 16"

text \<open>Encryption and decryption by key, nonce and text; \<open>None\<close> for a bad key or tag.\<close>

record aead =
  ad_encrypt :: "byte list \<Rightarrow> byte list \<Rightarrow> byte list \<Rightarrow> byte list option"
  ad_decrypt :: "byte list \<Rightarrow> byte list \<Rightarrow> byte list \<Rightarrow> byte list option"

definition aead_ok :: "aead \<Rightarrow> bool" where
  "aead_ok a \<longleftrightarrow> (\<forall>k n p c. ad_encrypt a k n p = Some c \<longrightarrow>
     ad_decrypt a k n c = Some p \<and> length c = length p + TAG_LEN)"

datatype crypto_error = DecryptionFailed | CryptoIo

fun crypto_error_display :: "crypto_error \<Rightarrow> string \<Rightarrow> string" where
  "crypto_error_display DecryptionFailed m = ''decryption failed''"
| "crypto_error_display CryptoIo m = ''io: '' @ m"

definition encrypt_file :: "aead \<Rightarrow> byte list \<Rightarrow> string \<Rightarrow> string \<Rightarrow> byte list \<Rightarrow> dir_state \<Rightarrow>
    (crypto_error, unit) result \<times> dir_state" where
  "encrypt_file a nonce src dst key d =
     (case dir_read src d of
        (None, d1) \<Rightarrow> (Err CryptoIo, d1)
      | (Some plain, d1) \<Rightarrow>
          (case ad_encrypt a key nonce plain of
             None \<Rightarrow> (Err DecryptionFailed, d1)
           | Some ct \<Rightarrow>
               (case write_atomic dst (nonce @ ct) d1 of
                  (ok, d2) \<Rightarrow> (if ok then Ok () else Err CryptoIo, d2))))"

text \<open>What \<open>decrypt_file\<close> makes of the bytes it has read.\<close>

definition decrypt_blob :: "aead \<Rightarrow> byte list \<Rightarrow> byte list \<Rightarrow> byte list option" where
  "decrypt_blob a key blob =
     (if length blob \<le> NONCE_LEN + TAG_LEN then None
      else ad_decrypt a key (take NONCE_LEN blob) (drop NONCE_LEN blob))"

definition decrypt_file :: "aead \<Rightarrow> string \<Rightarrow> string \<Rightarrow> byte list \<Rightarrow> dir_state \<Rightarrow>
    (crypto_error, unit) result \<times> dir_state" where
  "decrypt_file a src dst key d =
     (case dir_read src d of
        (None, d1) \<Rightarrow> (Err CryptoIo, d1)
      | (Some blob, d1) \<Rightarrow>
          (case decrypt_blob a key blob of
             None \<Rightarrow> (Err DecryptionFailed, d1)
           | Some plain \<Rightarrow>
               (case write_atomic dst plain d1 of
                  (ok, d2) \<Rightarrow> (if ok then Ok () else Err CryptoIo, d2))))"

definition zero_bytes :: "byte list \<Rightarrow> byte list" where
  "zero_bytes key = []"

section \<open>Lemmas\<close>

lemma dir_next_files: "dir_next d = (ok, d') \<Longrightarrow> ds_files d' = ds_files d"
  by (auto simp: dir_next_def split: if_splits list.splits fate.splits)

lemma dir_read_cases:
  assumes "dir_read n d = (r, d')"
  shows "ds_files d' = ds_files d \<and> (r = None \<or> r = ds_files d n)"
  using assms dir_next_files by (auto simp: dir_read_def split: prod.splits if_splits)

lemma dir_remove_cases: "ds_files (dir_remove n d) = ds_files d \<or> ds_files (dir_remove n d) = (ds_files d)(n := None)"
  using dir_next_files by (auto simp: dir_remove_def split: prod.splits)

lemma write_atomic_cases:
  assumes "write_atomic n b d = (ok, d')"
  shows "ds_files d' = (if ok then (ds_files d)(n \<mapsto> b) else ds_files d)"
  using assms dir_next_files by (auto simp: write_atomic_def split: prod.splits if_splits)

lemma decrypt_blob_encrypted:
  assumes "aead_ok a" "ad_encrypt a key nonce plain = Some ct" "length nonce = NONCE_LEN" "plain \<noteq> []"
  shows "decrypt_blob a key (nonce @ ct) = Some plain"
proof -
  have "length ct = length plain + TAG_LEN" "ad_decrypt a key nonce ct = Some plain"
    using assms by (auto simp: aead_ok_def)
  moreover have "length plain > 0" using assms(4) by simp
  ultimately show ?thesis using assms(3) by (simp add: decrypt_blob_def)
qed

text \<open>
  An empty file is encrypted to a blob of exactly nonce and tag, which \<open>decrypt_file\<close> refuses as
  too short.
\<close>

lemma empty_file_not_decrypted:
  assumes "aead_ok a" "ad_encrypt a key nonce [] = Some ct" "length nonce = NONCE_LEN"
  shows "decrypt_blob a key (nonce @ ct) = None"
  using assms by (auto simp: aead_ok_def decrypt_blob_def)

lemma encrypt_file_cases:
  assumes "encrypt_file a nonce src dst key d = (r, d')"
  shows "ds_files d' = ds_files d \<and> r \<noteq> Ok () \<or>
    (\<exists>plain ct. ds_files d src = Some plain \<and> ad_encrypt a key nonce plain = Some ct \<and>
       ds_files d' = (ds_files d)(dst \<mapsto> nonce @ ct) \<and> r = Ok ())"
proof -
  obtain v d1 where rd: "dir_read src d = (v, d1)" by (cases "dir_read src d")
  note r = dir_read_cases [OF rd]
  show ?thesis
  proof (cases v)
    case None
    with assms rd r show ?thesis by (auto simp: encrypt_file_def)
  next
    case (Some plain)
    then have src: "ds_files d src = Some plain" using r by auto
    show ?thesis
    proof (cases "ad_encrypt a key nonce plain")
      case None
      with assms rd r Some show ?thesis by (auto simp: encrypt_file_def)
    next
      case x: (Some x)
      obtain ok d2 where w: "write_atomic dst (nonce @ x) d1 = (ok, d2)" by (cases "write_atomic dst (nonce @ x) d1")
      from write_atomic_cases [OF w] assms rd r Some x w src show ?thesis
        by (cases ok) (auto simp: encrypt_file_def)
    qed
  qed
qed

lemma decrypt_file_cases:
  assumes "decrypt_file a src dst key d = (r, d')"
  shows "ds_files d' = ds_files d \<and> r \<noteq> Ok () \<or>
    (\<exists>blob plain. ds_files d src = Some blob \<and> decrypt_blob a key blob = Some plain \<and>
       ds_files d' = (ds_files d)(dst \<mapsto> plain) \<and> r = Ok ())"
proof -
  obtain v d1 where rd: "dir_read src d = (v, d1)" by (cases "dir_read src d")
  note r = dir_read_cases [OF rd]
  show ?thesis
  proof (cases v)
    case None
    with assms rd r show ?thesis by (auto simp: decrypt_file_def)
  next
    case (Some plain)
    then have src: "ds_files d src = Some plain" using r by auto
    show ?thesis
    proof (cases "decrypt_blob a key plain")
      case None
      with assms rd r Some show ?thesis by (auto simp: decrypt_file_def)
    next
      case x: (Some x)
      obtain ok d2 where w: "write_atomic dst (x) d1 = (ok, d2)" by (cases "write_atomic dst (x) d1")
      from write_atomic_cases [OF w] assms rd r Some x w src show ?thesis
        by (cases ok) (auto simp: decrypt_file_def)
    qed
  qed
qed

end
