(* ===== verification/Auth.thy ===== *)
theory Auth
  imports Crypto "HOL-Library.Countable"
begin

text \<open>
  \<open>crates/gn-drive-core/src/auth.rs\<close>: the master password. The service's state, the config
  directory and the secret store are one \<open>auth_world\<close>, threaded through every operation; the
  directory's fates make each file operation fail, or the process die, at will. \<open>unlock\<close> is
  split where it drops its lock to sleep: \<open>unlock_check\<close>, \<open>unlock_resume\<close>, \<open>unlock_verify\<close>.
  Times are nanoseconds. \<open>auth_env\<close> holds what is not under \<open>src\<close>: the crates for hashing and
  encryption, JSON, RFC 3339, and the secret store with its laws \<open>secure_store\<close>.
\<close>

section \<open>Data\<close>

definition MAX_ATTEMPTS_BEFORE_DELAY :: int where "MAX_ATTEMPTS_BEFORE_DELAY = 3"
definition MAX_ATTEMPTS_BEFORE_LOCK :: int where "MAX_ATTEMPTS_BEFORE_LOCK = 10"
definition LOCKOUT_DURATION_SECS :: int where "LOCKOUT_DURATION_SECS = 5 * 60"
lemmas attempt_limits = MAX_ATTEMPTS_BEFORE_DELAY_def MAX_ATTEMPTS_BEFORE_LOCK_def LOCKOUT_DURATION_SECS_def

definition CONFIG_FILES :: "string list" where "CONFIG_FILES = [''rclone.conf'', ''gn-drive.db'']"
definition ENC_FILES :: "string list" where "ENC_FILES = [''rclone.conf.enc'', ''gn-drive.db.enc'']"

datatype auth_error =
    NotSetup | AlreadyUnlocked | NotUnlocked | InvalidPassword | AuthLockedOut int | AlreadySetup
  | PasswordTooShort | AuthCrypto crypto_error | AuthArgon2 argon2_error
  | AuthKeyStore secure_store_error | AuthIo

record app_settings =
  as_debug_mode :: bool
  as_minimize_to_tray :: bool
  as_notifications_enabled :: bool
  as_start_at_login :: bool

definition app_settings_default :: app_settings where
  "app_settings_default = \<lparr> as_debug_mode = False, as_minimize_to_tray = False,
     as_notifications_enabled = False, as_start_at_login = False \<rparr>"

record auth_data =
  ad_app_settings :: app_settings
  ad_enabled :: bool
  ad_failed_attempts :: int
  ad_lockout_until :: string
  ad_password_hash :: string

definition auth_data_default :: auth_data where
  "auth_data_default = \<lparr> ad_app_settings = app_settings_default, ad_enabled = False,
     ad_failed_attempts = 0, ad_lockout_until = [], ad_password_hash = [] \<rparr>"

record lockout_status =
  ls_failed_attempts :: int
  ls_locked_until :: string
  ls_is_locked :: bool
  ls_retry_after_secs :: int

record auth_status =
  au_setup :: bool
  au_is_unlocked :: bool
  au_status_locked_at :: "int option"
  au_enabled :: bool
  au_lockout :: lockout_status

record auth_state =
  st_unlocked :: bool
  st_enc_key :: "byte list option"
  st_data :: auth_data
  st_locked_at :: "int option"

record 'k auth_env =
  ae_argon :: argon_crate
  ae_aead :: aead
  ae_store :: "'k secure_ops option"
  ae_account :: string
  ae_format :: "int \<Rightarrow> string" \<comment> \<open>\<open>to_rfc3339_opts(Secs, true)\<close>\<close>
  ae_parse :: "string \<Rightarrow> int option" \<comment> \<open>\<open>parse_from_rfc3339\<close>\<close>
  ae_to_json :: "auth_data \<Rightarrow> byte list"
  ae_of_json :: "byte list \<Rightarrow> auth_data option"

record 'k auth_world =
  aw_state :: auth_state
  aw_dir :: dir_state
  aw_store :: 'k

abbreviation aw_data :: "'k auth_world \<Rightarrow> auth_data" where "aw_data w \<equiv> st_data (aw_state w)"

definition set_state :: "(auth_state \<Rightarrow> auth_state) \<Rightarrow> 'k auth_world \<Rightarrow> 'k auth_world" where
  "set_state f w = w\<lparr>aw_state := f (aw_state w)\<rparr>"

definition set_data :: "(auth_data \<Rightarrow> auth_data) \<Rightarrow> 'k auth_world \<Rightarrow> 'k auth_world" where
  "set_data f w = set_state (\<lambda>s. s\<lparr>st_data := f (st_data s)\<rparr>) w"

definition set_dir :: "(dir_state \<Rightarrow> dir_state) \<Rightarrow> 'k auth_world \<Rightarrow> 'k auth_world" where
  "set_dir f w = w\<lparr>aw_dir := f (aw_dir w)\<rparr>"

section \<open>Files\<close>

definition enc_name :: "string \<Rightarrow> string" where "enc_name n = n @ ''.enc''"

definition AUTH_FILE :: string where "AUTH_FILE = ''auth.json''"

definition save_auth_data :: "'k auth_env \<Rightarrow> 'k auth_world \<Rightarrow> (auth_error, unit) result \<times> 'k auth_world" where
  "save_auth_data env w =
     (case write_atomic AUTH_FILE (ae_to_json env (aw_data w)) (aw_dir w) of
        (ok, d) \<Rightarrow> (if ok then Ok () else Err AuthIo, w\<lparr>aw_dir := d\<rparr>))"

text \<open>\<open>remove_file\<close> of a file with its \<open>-wal\<close> and \<open>-shm\<close> companions; errors are ignored.\<close>

definition remove_plain :: "string \<Rightarrow> dir_state \<Rightarrow> dir_state" where
  "remove_plain n d = dir_remove (n @ ''-shm'') (dir_remove (n @ ''-wal'') (dir_remove n d))"

fun encrypt_files :: "aead \<Rightarrow> (string \<Rightarrow> byte list) \<Rightarrow> byte list \<Rightarrow> string list \<Rightarrow> dir_state \<Rightarrow>
    (auth_error, unit) result \<times> dir_state" where
  "encrypt_files a nonce key [] d = (Ok (), d)"
| "encrypt_files a nonce key (n # ns) d =
     (if \<not> dir_exists n d then encrypt_files a nonce key ns d
      else case encrypt_file a (nonce n) n (enc_name n) key d of
             (Err e, d1) \<Rightarrow> (Err (AuthCrypto e), d1)
           | (Ok _, d1) \<Rightarrow> encrypt_files a nonce key ns (remove_plain n d1))"

definition encrypt_config_files :: "'k auth_env \<Rightarrow> (string \<Rightarrow> byte list) \<Rightarrow> byte list \<Rightarrow> dir_state \<Rightarrow>
    (auth_error, unit) result \<times> dir_state" where
  "encrypt_config_files env nonce key d = encrypt_files (ae_aead env) nonce key CONFIG_FILES d"

fun decrypt_files :: "aead \<Rightarrow> byte list \<Rightarrow> string list \<Rightarrow> dir_state \<Rightarrow>
    (auth_error, unit) result \<times> dir_state" where
  "decrypt_files a key [] d = (Ok (), d)"
| "decrypt_files a key (n # ns) d =
     (if \<not> dir_exists (enc_name n) d then decrypt_files a key ns d
      else case decrypt_file a (enc_name n) n key d of
             (Err e, d1) \<Rightarrow> (Err (AuthCrypto e), d1)
           | (Ok _, d1) \<Rightarrow> decrypt_files a key ns (dir_remove (enc_name n) d1))"

definition decrypt_config_files :: "'k auth_env \<Rightarrow> byte list \<Rightarrow> dir_state \<Rightarrow>
    (auth_error, unit) result \<times> dir_state" where
  "decrypt_config_files env key d = decrypt_files (ae_aead env) key CONFIG_FILES d"

definition cleanup_encrypted_files :: "dir_state \<Rightarrow> dir_state" where
  "cleanup_encrypted_files d = fold dir_remove ENC_FILES d"

definition has_encrypted_config :: "dir_state \<Rightarrow> bool" where
  "has_encrypted_config d \<longleftrightarrow> list_ex (\<lambda>n. dir_exists n d) ENC_FILES"

definition recover_file :: "bool \<Rightarrow> string \<Rightarrow> dir_state \<Rightarrow> dir_state" where
  "recover_file enabled n d =
     (if \<not> (dir_exists n d \<and> dir_exists (enc_name n) d) then d
      else if enabled then remove_plain n d else dir_remove (enc_name n) d)"

definition recover_from_crash :: "bool \<Rightarrow> dir_state \<Rightarrow> dir_state" where
  "recover_from_crash enabled d = fold (recover_file enabled) CONFIG_FILES d"

section \<open>The remembered key\<close>

definition remember_key :: "'k auth_env \<Rightarrow> byte list \<Rightarrow> 'k auth_world \<Rightarrow> 'k auth_world" where
  "remember_key env key w =
     (case ae_store env of None \<Rightarrow> w
      | Some ops \<Rightarrow> w\<lparr>aw_store := snd (so_set ops (ae_account env) key (aw_store w))\<rparr>)"

definition forget_remembered_key :: "'k auth_env \<Rightarrow> 'k auth_world \<Rightarrow> (auth_error, unit) result \<times> 'k auth_world" where
  "forget_remembered_key env w =
     (case ae_store env of None \<Rightarrow> (Ok (), w)
      | Some ops \<Rightarrow> (case so_delete ops (ae_account env) (aw_store w) of
                      (Err e, s) \<Rightarrow> (Err (AuthKeyStore e), w\<lparr>aw_store := s\<rparr>)
                    | (Ok _, s) \<Rightarrow> (Ok (), w\<lparr>aw_store := s\<rparr>)))"

definition drop_remembered :: "'k secure_ops \<Rightarrow> 'k auth_env \<Rightarrow> 'k auth_world \<Rightarrow> 'k auth_world" where
  "drop_remembered ops env w = w\<lparr>aw_store := snd (so_delete ops (ae_account env) (aw_store w))\<rparr>"

definition resume_remembered_key :: "'k auth_env \<Rightarrow> 'k auth_world \<Rightarrow> 'k auth_world" where
  "resume_remembered_key env w =
     (case ae_store env of
        None \<Rightarrow> w
      | Some ops \<Rightarrow>
          if \<not> has_encrypted_config (aw_dir w) then w
          else case so_get ops (ae_account env) (aw_store w) of
                 Err _ \<Rightarrow> w
               | Ok key \<Rightarrow>
                   if length key \<noteq> KEY_LENGTH then drop_remembered ops env w
                   else case decrypt_config_files env key (aw_dir w) of
                          (Err _, d) \<Rightarrow> drop_remembered ops env (w\<lparr>aw_dir := d\<rparr>)
                        | (Ok _, d) \<Rightarrow> set_state (\<lambda>s. s\<lparr>st_enc_key := Some key, st_unlocked := True, st_locked_at := None\<rparr>)
                                        (w\<lparr>aw_dir := d\<rparr>))"

section \<open>Start\<close>

text \<open>\<open>AuthService::new\<close> of a new process on the directory and the secret store it finds.\<close>

definition auth_load :: "'k auth_env \<Rightarrow> dir_state \<Rightarrow> auth_data \<times> dir_state" where
  "auth_load env d =
     (case dir_read AUTH_FILE d of
        (Some b, d1) \<Rightarrow> (case ae_of_json env b of Some a \<Rightarrow> (a, d1) | None \<Rightarrow> (auth_data_default, d1))
      | (None, d1) \<Rightarrow> (auth_data_default, d1))"

definition auth_new :: "'k auth_env \<Rightarrow> dir_state \<Rightarrow> 'k \<Rightarrow> 'k auth_world" where
  "auth_new env d ks =
     (case auth_load env d of
        (a, d1) \<Rightarrow>
          (let w = \<lparr> aw_state = \<lparr> st_unlocked = False, st_enc_key = None, st_data = a, st_locked_at = None \<rparr>,
                     aw_dir = recover_from_crash (ad_enabled a) d1, aw_store = ks \<rparr>
           in if \<not> ad_enabled a then set_state (\<lambda>s. s\<lparr>st_unlocked := True\<rparr>) w
              else resume_remembered_key env w))"

section \<open>Lockout\<close>

text \<open>\<open>num_milliseconds\<close> rounds towards zero.\<close>

definition active_lockout_remaining :: "'k auth_env \<Rightarrow> int \<Rightarrow> auth_data \<Rightarrow> int option" where
  "active_lockout_remaining env now a =
     (if ad_lockout_until a = [] then None
      else case ae_parse env (ad_lockout_until a) of
             None \<Rightarrow> None
           | Some t \<Rightarrow> (let ms = (if t \<ge> now then (t - now) div 1000000 else - ((now - t) div 1000000))
                        in if ms \<le> 0 then None else Some ((ms + 999) div 1000)))"

text \<open>\<open>2i64.pow(n as u32)\<close> in a release build.\<close>

definition i64_pow2 :: "int \<Rightarrow> int" where
  "i64_pow2 n = (let k = nat (n mod 2 ^ 32) in if k < 63 then 2 ^ k else if k = 63 then i64_min else 0)"

definition lockout_status_of :: "'k auth_env \<Rightarrow> int \<Rightarrow> auth_data \<Rightarrow> lockout_status" where
  "lockout_status_of env now a =
     (case active_lockout_remaining env now a of
        Some r \<Rightarrow> \<lparr> ls_failed_attempts = ad_failed_attempts a, ls_locked_until = ad_lockout_until a,
                    ls_is_locked = True, ls_retry_after_secs = r \<rparr>
      | None \<Rightarrow> \<lparr> ls_failed_attempts = ad_failed_attempts a, ls_locked_until = ad_lockout_until a,
                  ls_is_locked = False,
                  ls_retry_after_secs = (if ad_failed_attempts a \<ge> MAX_ATTEMPTS_BEFORE_DELAY
                     then i64_pow2 (ad_failed_attempts a - MAX_ATTEMPTS_BEFORE_DELAY) else 0) \<rparr>)"

definition auth_status_of :: "'k auth_env \<Rightarrow> int \<Rightarrow> 'k auth_world \<Rightarrow> auth_status" where
  "auth_status_of env now w =
     \<lparr> au_setup = ad_enabled (aw_data w), au_is_unlocked = st_unlocked (aw_state w),
       au_status_locked_at = st_locked_at (aw_state w), au_enabled = ad_enabled (aw_data w),
       au_lockout = lockout_status_of env now (aw_data w) \<rparr>"

section \<open>Setting up and unlocking\<close>

definition open_plaintext_session :: "'k auth_world \<Rightarrow> (auth_error, unit) result \<times> 'k auth_world" where
  "open_plaintext_session w =
     (if \<not> ad_enabled (aw_data w) \<or> st_unlocked (aw_state w) then (Ok (), set_state (\<lambda>s. s\<lparr>st_unlocked := True\<rparr>) w)
      else if has_encrypted_config (aw_dir w) then (Err NotUnlocked, w)
      else (Ok (), set_state (\<lambda>s. s\<lparr>st_unlocked := True\<rparr>) w))"

definition setup_password :: "'k auth_env \<Rightarrow> byte list \<Rightarrow> string \<Rightarrow> 'k auth_world \<Rightarrow>
    (auth_error, unit) result \<times> 'k auth_world" where
  "setup_password env salt password w =
     (if ad_enabled (aw_data w) then (Err AlreadySetup, w)
      else if length password < 4 then (Err PasswordTooShort, w)
      else case create_hash (ae_argon env) salt password of
             Err e \<Rightarrow> (Err (AuthArgon2 e), w)
           | Ok hash \<Rightarrow>
               (case extract_salt (ae_argon env) hash of
                  Err e \<Rightarrow> (Err (AuthArgon2 e), w)
                | Ok salt' \<Rightarrow>
                    (case derive_key (ae_argon env) password salt' of
                       Err e \<Rightarrow> (Err (AuthArgon2 e), w)
                     | Ok key \<Rightarrow>
                         (case save_auth_data env (set_data (\<lambda>a. \<lparr> ad_app_settings = ad_app_settings a, ad_enabled = True,
                                  ad_failed_attempts = 0, ad_lockout_until = [], ad_password_hash = hash \<rparr>) w) of
                            (Err e, w1) \<Rightarrow> (Err e, w1)
                          | (Ok _, w1) \<Rightarrow>
                              (Ok (), set_state (\<lambda>s. s\<lparr>st_enc_key := Some key, st_unlocked := True\<rparr>)
                                        (remember_key env key w1))))))"

datatype unlock_step = UnlockDone "(auth_error, unit) result" | UnlockSleep nat | UnlockVerify

definition unlock_check :: "'k auth_env \<Rightarrow> int \<Rightarrow> 'k auth_world \<Rightarrow> unlock_step \<times> 'k auth_world" where
  "unlock_check env now w =
     (if \<not> ad_enabled (aw_data w) then (UnlockDone (Err NotSetup), w)
      else if st_unlocked (aw_state w) then (UnlockDone (Ok ()), w)
      else case active_lockout_remaining env now (aw_data w) of
             Some r \<Rightarrow> (UnlockDone (Err (AuthLockedOut r)), w)
           | None \<Rightarrow>
               (let w1 = set_data (\<lambda>a. a\<lparr>ad_lockout_until := []\<rparr>) w; n = ad_failed_attempts (aw_data w)
                in if n \<ge> MAX_ATTEMPTS_BEFORE_DELAY \<and> n < MAX_ATTEMPTS_BEFORE_LOCK
                   then (UnlockSleep (2 ^ nat (n - MAX_ATTEMPTS_BEFORE_DELAY)), w1)
                   else (UnlockVerify, w1)))"

text \<open>After the sleep, with the lock taken again.\<close>

definition unlock_resume :: "'k auth_world \<Rightarrow> unlock_step" where
  "unlock_resume w = (if st_unlocked (aw_state w) then UnlockDone (Ok ()) else UnlockVerify)"

definition unlock_wrong :: "'k auth_env \<Rightarrow> int \<Rightarrow> 'k auth_world \<Rightarrow> 'k auth_world" where
  "unlock_wrong env now w =
     snd (save_auth_data env (set_data (\<lambda>a.
       let n = ad_failed_attempts a + 1
       in if n \<ge> MAX_ATTEMPTS_BEFORE_LOCK
          then a\<lparr>ad_lockout_until := ae_format env (now + LOCKOUT_DURATION_SECS * 1000000000),
                 ad_failed_attempts := 0\<rparr>
          else a\<lparr>ad_failed_attempts := n\<rparr>) w))"

definition unlock_right :: "'k auth_env \<Rightarrow> string \<Rightarrow> 'k auth_world \<Rightarrow> (auth_error, unit) result \<times> 'k auth_world" where
  "unlock_right env password w =
     (case extract_salt (ae_argon env) (ad_password_hash (aw_data w)) of
        Err e \<Rightarrow> (Err (AuthArgon2 e), w)
      | Ok salt \<Rightarrow>
          (case derive_key (ae_argon env) password salt of
             Err e \<Rightarrow> (Err (AuthArgon2 e), w)
           | Ok key \<Rightarrow>
               (case decrypt_config_files env key (aw_dir w) of
                  (Err e, d) \<Rightarrow> (Err e, w\<lparr>aw_dir := d\<rparr>)
                | (Ok _, d) \<Rightarrow>
                    (let w1 = set_data (\<lambda>a. a\<lparr>ad_failed_attempts := 0, ad_lockout_until := []\<rparr>) (w\<lparr>aw_dir := d\<rparr>);
                         w2 = snd (save_auth_data env w1)
                     in (Ok (), set_state (\<lambda>s. s\<lparr>st_enc_key := Some key, st_unlocked := True, st_locked_at := None\<rparr>)
                                  (remember_key env key w2))))))"

definition unlock_verify :: "'k auth_env \<Rightarrow> int \<Rightarrow> string \<Rightarrow> 'k auth_world \<Rightarrow>
    (auth_error, unit) result \<times> 'k auth_world" where
  "unlock_verify env now password w =
     (if \<not> verify (ae_argon env) password (ad_password_hash (aw_data w))
      then (Err InvalidPassword, unlock_wrong env now w)
      else unlock_right env password w)"

text \<open>An unlock that no other thread interrupts: \<open>now'\<close> is the time after the sleep, if any.\<close>

definition unlock :: "'k auth_env \<Rightarrow> int \<Rightarrow> int \<Rightarrow> string \<Rightarrow> 'k auth_world \<Rightarrow>
    (auth_error, unit) result \<times> 'k auth_world" where
  "unlock env now now' password w =
     (case unlock_check env now w of
        (UnlockDone r, w1) \<Rightarrow> (r, w1)
      | (UnlockVerify, w1) \<Rightarrow> unlock_verify env now password w1
      | (UnlockSleep _, w1) \<Rightarrow>
          (case unlock_resume w1 of
             UnlockDone r \<Rightarrow> (r, w1)
           | _ \<Rightarrow> unlock_verify env now' password w1))"

section \<open>Locking\<close>

definition lock_internal :: "'k auth_env \<Rightarrow> (string \<Rightarrow> byte list) \<Rightarrow> int \<Rightarrow> 'k auth_world \<Rightarrow> 'k auth_world" where
  "lock_internal env nonce now w =
     (case st_enc_key (aw_state w) of
        None \<Rightarrow> w
      | Some key \<Rightarrow>
          set_state (\<lambda>s. s\<lparr>st_enc_key := None, st_unlocked := False, st_locked_at := Some now\<rparr>)
            (set_dir (\<lambda>d. snd (encrypt_config_files env nonce key d)) w))"

definition auth_suspend :: "'k auth_env \<Rightarrow> (string \<Rightarrow> byte list) \<Rightarrow> int \<Rightarrow> 'k auth_world \<Rightarrow> 'k auth_world" where
  "auth_suspend env nonce now w = (if st_unlocked (aw_state w) then lock_internal env nonce now w else w)"

definition auth_lock :: "'k auth_env \<Rightarrow> (string \<Rightarrow> byte list) \<Rightarrow> int \<Rightarrow> 'k auth_world \<Rightarrow>
    (auth_error, unit) result \<times> 'k auth_world" where
  "auth_lock env nonce now w = forget_remembered_key env (auth_suspend env nonce now w)"

section \<open>Changing and removing the password\<close>

text \<open>The rest of \<open>change_password\<close> once the new key is derived.\<close>

definition change_key :: "'k auth_env \<Rightarrow> (string \<Rightarrow> byte list) \<Rightarrow> string \<Rightarrow> byte list \<Rightarrow> 'k auth_world \<Rightarrow>
    (auth_error, unit) result \<times> 'k auth_world" where
  "change_key env nonce new_hash new_key w =
     (case encrypt_config_files env nonce new_key (aw_dir w) of
        (Err e, d) \<Rightarrow>
          (case decrypt_config_files env new_key d of
             (Ok _, d1) \<Rightarrow> (Err e, w\<lparr>aw_dir := d1\<rparr>)
           | (Err _, d1) \<Rightarrow> (Err e, set_state (\<lambda>s. s\<lparr>st_enc_key := None, st_unlocked := False\<rparr>) (w\<lparr>aw_dir := d1\<rparr>)))
      | (Ok _, d) \<Rightarrow>
          (let old_hash = ad_password_hash (aw_data w) in
           case save_auth_data env (set_data (\<lambda>a. a\<lparr>ad_password_hash := new_hash\<rparr>) (w\<lparr>aw_dir := d\<rparr>)) of
             (Err e, w1) \<Rightarrow> (Err e, set_dir (\<lambda>d. snd (decrypt_config_files env new_key d))
                                     (set_data (\<lambda>a. a\<lparr>ad_password_hash := old_hash\<rparr>) w1))
           | (Ok _, w1) \<Rightarrow>
               (case decrypt_config_files env new_key (aw_dir w1) of
                  (Err e, d1) \<Rightarrow> (Err e, w1\<lparr>aw_dir := d1\<rparr>)
                | (Ok _, d1) \<Rightarrow> (Ok (), set_state (\<lambda>s. s\<lparr>st_enc_key := Some new_key\<rparr>) (w1\<lparr>aw_dir := d1\<rparr>)))))"

definition change_password :: "'k auth_env \<Rightarrow> (string \<Rightarrow> byte list) \<Rightarrow> byte list \<Rightarrow> string \<Rightarrow> string \<Rightarrow>
    'k auth_world \<Rightarrow> (auth_error, unit) result \<times> 'k auth_world" where
  "change_password env nonce salt old new w =
     (if \<not> ad_enabled (aw_data w) then (Err NotSetup, w)
      else if \<not> st_unlocked (aw_state w) then (Err NotUnlocked, w)
      else if \<not> verify (ae_argon env) old (ad_password_hash (aw_data w)) then (Err InvalidPassword, w)
      else if length new < 4 then (Err PasswordTooShort, w)
      else case forget_remembered_key env w of
             (Err e, w1) \<Rightarrow> (Err e, w1)
           | (Ok _, w1) \<Rightarrow>
               (case create_hash (ae_argon env) salt new of
                  Err e \<Rightarrow> (Err (AuthArgon2 e), w1)
                | Ok new_hash \<Rightarrow>
                    (case extract_salt (ae_argon env) new_hash of
                       Err e \<Rightarrow> (Err (AuthArgon2 e), w1)
                     | Ok new_salt \<Rightarrow>
                         (case derive_key (ae_argon env) new new_salt of
                            Err e \<Rightarrow> (Err (AuthArgon2 e), w1)
                          | Ok new_key \<Rightarrow> change_key env nonce new_hash new_key w1))))"

definition remove_password :: "'k auth_env \<Rightarrow> string \<Rightarrow> 'k auth_world \<Rightarrow>
    (auth_error, unit) result \<times> 'k auth_world" where
  "remove_password env password w =
     (if \<not> ad_enabled (aw_data w) then (Err NotSetup, w)
      else if \<not> st_unlocked (aw_state w) then (Err NotUnlocked, w)
      else if \<not> verify (ae_argon env) password (ad_password_hash (aw_data w)) then (Err InvalidPassword, w)
      else (Ok (), set_state (\<lambda>s. s\<lparr>st_enc_key := None, st_data := auth_data_default, st_unlocked := True\<rparr>)
                     (set_dir (\<lambda>d. dir_remove AUTH_FILE (cleanup_encrypted_files d)) w)))"

definition set_app_settings :: "'k auth_env \<Rightarrow> app_settings \<Rightarrow> 'k auth_world \<Rightarrow>
    (auth_error, unit) result \<times> 'k auth_world" where
  "set_app_settings env s w = save_auth_data env (set_data (\<lambda>a. a\<lparr>ad_app_settings := s\<rparr>) w)"

section \<open>The account of a config directory\<close>

text \<open>\<open>standardizing_path\<close> off macOS, with the value of \<open>HOME\<close>.\<close>

definition path_push :: "bool \<Rightarrow> string \<Rightarrow> string list \<Rightarrow> string list" where
  "path_push absolute c out =
     (if c = [] \<or> c = ''.'' then out
      else if c = ''..'' \<and> absolute then butlast out
      else out @ [c])"

definition standardizing_path :: "string \<Rightarrow> string \<Rightarrow> string" where
  "standardizing_path home path =
     (if path = [] then []
      else let p = (if path = ''~'' \<or> starts_with ''~/'' path then home @ drop 1 path else path);
               absolute = starts_with ''/'' p;
               out = fold (path_push absolute) (split_on CHR ''/'' p) []
           in if absolute then ''/'' @ join ''/'' out else join ''/'' out)"

definition remembered_key_account :: "(string \<Rightarrow> string) \<Rightarrow> string \<Rightarrow> string \<Rightarrow> string" where
  "remembered_key_account sha256_hex home config_dir =
     ''remember-unlock/v1/'' @ sha256_hex (standardizing_path home config_dir)"

section \<open>Every config file survives\<close>

text \<open>
  What must be true of the two forms of a config file for its content to be safe under a key:
  the plaintext, if there, is the content; the encrypted form, if there, decrypts to it; one of
  them is there. \<open>None\<close> is a file that does not exist in either form.
\<close>

definition file_held :: "aead \<Rightarrow> byte list \<Rightarrow> (string \<rightharpoonup> byte list) \<Rightarrow> string \<Rightarrow> byte list option \<Rightarrow> bool" where
  "file_held a k fs n co \<longleftrightarrow>
     (case co of
        None \<Rightarrow> fs n = None \<and> fs (enc_name n) = None
      | Some c \<Rightarrow> (fs n = None \<or> fs n = Some c) \<and>
          (fs (enc_name n) = None \<or> (\<exists>b. fs (enc_name n) = Some b \<and> decrypt_blob a k b = Some c)) \<and>
          (fs n \<noteq> None \<or> fs (enc_name n) \<noteq> None))"

definition files_held :: "aead \<Rightarrow> byte list \<Rightarrow> (string \<rightharpoonup> byte list) \<Rightarrow> dir_state \<Rightarrow> bool" where
  "files_held a k cs d \<longleftrightarrow> (\<forall>n \<in> set CONFIG_FILES. file_held a k (ds_files d) n (cs n))"

lemma config_names:
  assumes "n \<in> set CONFIG_FILES" "m \<in> set CONFIG_FILES"
  shows "enc_name m \<noteq> n" "m @ ''-wal'' \<noteq> n" "m @ ''-shm'' \<noteq> n" "m @ ''-wal'' \<noteq> enc_name n" "m @ ''-shm'' \<noteq> enc_name n"
    "AUTH_FILE \<noteq> n" "AUTH_FILE \<noteq> enc_name n" "AUTH_FILE \<noteq> n @ ''-wal''" "AUTH_FILE \<noteq> n @ ''-shm''"
    "enc_name n = enc_name m \<longleftrightarrow> n = m"
  using assms by (auto simp: CONFIG_FILES_def enc_name_def AUTH_FILE_def)

lemma dir_remove_other: "x \<noteq> n \<Longrightarrow> ds_files (dir_remove n d) x = ds_files d x"
  using dir_remove_cases [of n d] by auto

lemma dir_remove_self: "ds_files (dir_remove n d) n = None \<or> ds_files (dir_remove n d) n = ds_files d n"
  using dir_remove_cases [of n d] by auto

lemma remove_plain_other:
  "x \<notin> {n, n @ ''-wal'', n @ ''-shm''} \<Longrightarrow> ds_files (remove_plain n d) x = ds_files d x"
  by (simp add: remove_plain_def dir_remove_other)

lemma remove_plain_self: "ds_files (remove_plain n d) n = None \<or> ds_files (remove_plain n d) n = ds_files d n"
  using dir_remove_self [of n d] by (simp add: remove_plain_def dir_remove_other)

lemma file_held_same:
  "file_held a k fs n co \<Longrightarrow> fs' n = fs n \<Longrightarrow> fs' (enc_name n) = fs (enc_name n) \<Longrightarrow> file_held a k fs' n co"
  by (simp add: file_held_def split: option.splits)

text \<open>Nonces have the length the cipher asks for.\<close>

definition nonces_ok :: "(string \<Rightarrow> byte list) \<Rightarrow> bool" where
  "nonces_ok nonce \<longleftrightarrow> (\<forall>n. length (nonce n) = NONCE_LEN)"

text \<open>Removing one form keeps a file held when the other form is there.\<close>

lemma file_held_remove_plain:
  assumes "n \<in> set CONFIG_FILES" "m \<in> set CONFIG_FILES" "file_held a k (ds_files d) n co"
    "m = n \<Longrightarrow> ds_files d (enc_name n) \<noteq> None"
  shows "file_held a k (ds_files (remove_plain m d)) n co"
proof -
  note nm = config_names [OF assms(1,2)]
  have e: "ds_files (remove_plain m d) (enc_name n) = ds_files d (enc_name n)"
    using nm config_names [OF assms(2,1)] by (intro remove_plain_other) auto
  show ?thesis
  proof (cases "m = n")
    case True
    then show ?thesis using assms(3,4) e remove_plain_self [of n d]
      by (auto simp: file_held_def split: option.splits)
  next
    case False
    then have "ds_files (remove_plain m d) n = ds_files d n" using nm by (intro remove_plain_other) auto
    with file_held_same [OF assms(3)] e show ?thesis by simp
  qed
qed

lemma file_held_remove_enc:
  assumes "n \<in> set CONFIG_FILES" "m \<in> set CONFIG_FILES" "file_held a k (ds_files d) n co"
    "m = n \<Longrightarrow> ds_files d n \<noteq> None"
  shows "file_held a k (ds_files (dir_remove (enc_name m) d)) n co"
proof -
  note nm = config_names [OF assms(1,2)]
  have e: "ds_files (dir_remove (enc_name m) d) n = ds_files d n"
    using nm by (intro dir_remove_other) auto
  show ?thesis
  proof (cases "m = n")
    case True
    then show ?thesis using assms(3,4) e dir_remove_self [of "enc_name n" d]
      by (auto simp: file_held_def split: option.splits)
  next
    case False
    then have "ds_files (dir_remove (enc_name m) d) (enc_name n) = ds_files d (enc_name n)"
      using nm by (intro dir_remove_other) auto
    with file_held_same [OF assms(3)] e show ?thesis by simp
  qed
qed

text \<open>What the two file operations do to a held file.\<close>

lemma encrypt_file_held:
  assumes "aead_ok a" "nonces_ok nonce" "n \<in> set CONFIG_FILES" "m \<in> set CONFIG_FILES"
    "file_held a k (ds_files d) n co" "co \<noteq> Some []" "encrypt_file a (nonce m) m (enc_name m) k d = (r, d')"
  shows "file_held a k (ds_files d') n co \<and> (r = Ok () \<longrightarrow> ds_files d' (enc_name m) \<noteq> None)"
  using encrypt_file_cases [OF assms(7)]
proof (elim disjE exE conjE)
  fix plain ct
  assume e: "ds_files d m = Some plain" "ad_encrypt a k (nonce m) plain = Some ct"
    "ds_files d' = (ds_files d)(enc_name m \<mapsto> nonce m @ ct)" "r = Ok ()"
  note nm = config_names [OF assms(3,4)]
  show ?thesis
  proof (cases "m = n")
    case True
    then have "co = Some plain" using assms(5) e(1) by (auto simp: file_held_def split: option.splits)
    then have "decrypt_blob a k (nonce n @ ct) = Some plain"
      using assms(1,2,6) e(2) True by (intro decrypt_blob_encrypted) (auto simp: nonces_ok_def)
    with e True \<open>co = Some plain\<close> nm show ?thesis by (auto simp: file_held_def)
  next
    case False
    then have "ds_files d' n = ds_files d n" "ds_files d' (enc_name n) = ds_files d (enc_name n)"
      using e(3) nm by auto
    then have "file_held a k (ds_files d') n co" by (intro file_held_same [OF assms(5)])
    with e(3,4) show ?thesis by simp
  qed
qed (use assms(5) in simp)

lemma decrypt_file_held:
  assumes "n \<in> set CONFIG_FILES" "m \<in> set CONFIG_FILES" "file_held a k (ds_files d) n co"
    "decrypt_file a (enc_name m) m k d = (r, d')"
  shows "file_held a k (ds_files d') n co \<and> (r = Ok () \<longrightarrow> ds_files d' m \<noteq> None)"
  using decrypt_file_cases [OF assms(4)]
proof (elim disjE exE conjE)
  fix blob plain
  assume e: "ds_files d (enc_name m) = Some blob" "decrypt_blob a k blob = Some plain"
    "ds_files d' = (ds_files d)(m \<mapsto> plain)" "r = Ok ()"
  note nm = config_names [OF assms(1,2)] config_names [OF assms(2,1)]
  show ?thesis
  proof (cases "m = n")
    case True
    then show ?thesis using assms(3) e nm by (auto simp: file_held_def split: option.splits)
  next
    case False
    then have "ds_files d' n = ds_files d n" "ds_files d' (enc_name n) = ds_files d (enc_name n)"
      using e(3) nm by auto
    then have "file_held a k (ds_files d') n co" by (intro file_held_same [OF assms(3)])
    with e(3,4) show ?thesis by simp
  qed
qed (use assms(3) in simp)

lemma encrypt_files_held:
  assumes "aead_ok a" "nonces_ok nonce" "n \<in> set CONFIG_FILES" "co \<noteq> Some []"
  shows "set ns \<subseteq> set CONFIG_FILES \<Longrightarrow> file_held a k (ds_files d) n co \<Longrightarrow>
    file_held a k (ds_files (snd (encrypt_files a nonce k ns d))) n co"
proof (induction ns arbitrary: d)
  case (Cons m ns)
  obtain r d1 where e: "encrypt_file a (nonce m) m (enc_name m) k d = (r, d1)"
    by (cases "encrypt_file a (nonce m) m (enc_name m) k d")
  have m: "m \<in> set CONFIG_FILES" using Cons.prems by simp
  note h = encrypt_file_held [OF assms(1,2,3) m Cons.prems(2) assms(4) e]
  show ?case
  proof (cases r)
    case (Inr u)
    then have "file_held a k (ds_files (remove_plain m d1)) n co"
      using h by (intro file_held_remove_plain [OF assms(3) m]) auto
    with Cons e Inr show ?thesis by simp
  qed (use Cons e h in simp)
qed simp

lemma decrypt_files_held:
  assumes "n \<in> set CONFIG_FILES"
  shows "set ns \<subseteq> set CONFIG_FILES \<Longrightarrow> file_held a k (ds_files d) n co \<Longrightarrow>
    file_held a k (ds_files (snd (decrypt_files a k ns d))) n co"
proof (induction ns arbitrary: d)
  case (Cons m ns)
  obtain r d1 where e: "decrypt_file a (enc_name m) m k d = (r, d1)"
    by (cases "decrypt_file a (enc_name m) m k d")
  have m: "m \<in> set CONFIG_FILES" using Cons.prems by simp
  note h = decrypt_file_held [OF assms m Cons.prems(2) e]
  show ?case
  proof (cases r)
    case (Inr u)
    then have "file_held a k (ds_files (dir_remove (enc_name m) d1)) n co"
      using h by (intro file_held_remove_enc [OF assms m]) auto
    with Cons e Inr show ?thesis by simp
  qed (use Cons e h in simp)
qed simp

lemma files_held_encrypt:
  assumes "aead_ok a" "nonces_ok nonce" "Some [] \<notin> range cs" "files_held a k cs d"
  shows "files_held a k cs (snd (encrypt_files a nonce k CONFIG_FILES d))"
  unfolding files_held_def
proof
  fix n
  assume n: "n \<in> set CONFIG_FILES"
  have "cs n \<noteq> Some []" using assms(3) by (metis rangeI)
  from encrypt_files_held [OF assms(1,2) n this] assms(4) n
  show "file_held a k (ds_files (snd (encrypt_files a nonce k CONFIG_FILES d))) n (cs n)"
    by (simp add: files_held_def)
qed

lemma files_held_decrypt:
  assumes "files_held a k cs d"
  shows "files_held a k cs (snd (decrypt_files a k CONFIG_FILES d))"
  using assms decrypt_files_held unfolding files_held_def by blast

lemma recover_file_held:
  assumes "n \<in> set CONFIG_FILES" "m \<in> set CONFIG_FILES" "file_held a k (ds_files d) n co"
  shows "file_held a k (ds_files (recover_file enabled m d)) n co"
  using assms file_held_remove_plain [OF assms] file_held_remove_enc [OF assms]
  by (auto simp: recover_file_def dir_exists_def)

lemma files_held_recover:
  assumes "files_held a k cs d"
  shows "files_held a k cs (recover_from_crash enabled d)"
  using assms recover_file_held unfolding files_held_def recover_from_crash_def CONFIG_FILES_def by auto

lemma files_held_cong: "ds_files d = ds_files d' \<Longrightarrow> files_held a k cs d = files_held a k cs d'"
  by (simp add: files_held_def)

section \<open>Calls, failures, crashes and restarts\<close>

text \<open>What the code relies on of the crates and of the secret store.\<close>

definition env_ok :: "'k auth_env \<Rightarrow> bool" where
  "env_ok env \<longleftrightarrow> argon_crate_ok (ae_argon env) \<and> aead_ok (ae_aead env) \<and>
     (\<forall>a. ae_of_json env (ae_to_json env a) = Some a) \<and>
     (\<forall>ops. ae_store env = Some ops \<longrightarrow> secure_store ops)"

text \<open>
  The calls of other code on a service whose password stays: with any passwords, times and
  nonces, any fates of the file operations set before any call, and restarts of the process
  (the new process reads \<open>auth.json\<close>). \<open>unlock\<close> is two calls, so that several can overlap.
\<close>

inductive auth_call :: "'k auth_env \<Rightarrow> 'k auth_world \<Rightarrow> 'k auth_world \<Rightarrow> bool" for env where
  AcFates: "auth_call env w (set_dir (\<lambda>d. d\<lparr>ds_fates := fs\<rparr>) w)"
| AcLock: "nonces_ok nonce \<Longrightarrow> auth_call env w (snd (auth_lock env nonce now w))"
| AcSuspend: "nonces_ok nonce \<Longrightarrow> auth_call env w (auth_suspend env nonce now w)"
| AcCheck: "auth_call env w (snd (unlock_check env now w))"
| AcVerify: "auth_call env w (snd (unlock_verify env now password w))"
| AcPlain: "auth_call env w (snd (open_plaintext_session w))"
| AcSettings: "auth_call env w (snd (set_app_settings env s w))"
| AcRestart: "auth_call env w (auth_new env ((aw_dir w)\<lparr>ds_fates := Works # fs, ds_dead := False\<rparr>) (aw_store w))"

definition store_holds :: "'k auth_env \<Rightarrow> byte list \<Rightarrow> 'k \<Rightarrow> bool" where
  "store_holds env k ks \<longleftrightarrow>
     (\<forall>ops v. ae_store env = Some ops \<longrightarrow> so_get ops (ae_account env) ks = Ok v \<longrightarrow> v = k)"

text \<open>
  A service protected by the password of hash \<open>h\<close> and key \<open>k\<close>, with the config contents \<open>cs\<close>:
  the password is configured in memory and on disk, no other key is in use or remembered, and
  both config files are held.
\<close>

definition protected :: "'k auth_env \<Rightarrow> string \<Rightarrow> byte list \<Rightarrow> (string \<rightharpoonup> byte list) \<Rightarrow> 'k auth_world \<Rightarrow> bool" where
  "protected env h k cs w \<longleftrightarrow>
     ad_enabled (aw_data w) \<and> ad_password_hash (aw_data w) = h \<and> st_enc_key (aw_state w) \<in> {None, Some k} \<and>
     (\<exists>b a. ds_files (aw_dir w) AUTH_FILE = Some b \<and> ae_of_json env b = Some a \<and> ad_enabled a \<and>
        ad_password_hash a = h) \<and>
     store_holds env k (aw_store w) \<and> files_held (ae_aead env) k cs (aw_dir w)"

lemma store_holds_set:
  assumes "env_ok env" "store_holds env k (aw_store w)"
  shows "store_holds env k (aw_store (remember_key env k w))"
proof (cases "ae_store env")
  case (Some ops)
  then have s: "secure_store ops" using assms(1) by (simp add: env_ok_def)
  then have "secure_store.holds_only ops (ae_account env) k (snd (so_set ops (ae_account env) k (aw_store w)))"
    using assms(2) Some
    by (intro secure_store.holds_only_set) (auto simp: store_holds_def secure_store.holds_only_def)
  with Some s show ?thesis
    by (simp add: store_holds_def remember_key_def secure_store.holds_only_def)
qed (simp add: store_holds_def)

lemma store_holds_delete:
  assumes "env_ok env" "store_holds env k ks" "ae_store env = Some ops"
  shows "store_holds env k (snd (so_delete ops (ae_account env) ks))"
proof -
  have s: "secure_store ops" using assms by (simp add: env_ok_def)
  then have "secure_store.holds_only ops (ae_account env) k (snd (so_delete ops (ae_account env) ks))"
    using assms(2,3)
    by (intro secure_store.holds_only_delete) (auto simp: store_holds_def secure_store.holds_only_def)
  with s assms(3) show ?thesis by (simp add: store_holds_def secure_store.holds_only_def)
qed

lemma protected_store: "protected env h k cs w \<Longrightarrow> store_holds env k ks \<Longrightarrow> protected env h k cs (w\<lparr>aw_store := ks\<rparr>)"
  by (simp add: protected_def)

lemma protected_remember: "env_ok env \<Longrightarrow> protected env h k cs w \<Longrightarrow> protected env h k cs (remember_key env k w)"
  using store_holds_set [of env k w]
  by (auto simp: protected_def remember_key_def split: option.splits)

lemma protected_forget: "env_ok env \<Longrightarrow> protected env h k cs w \<Longrightarrow> protected env h k cs (snd (forget_remembered_key env w))"
  using store_holds_delete [of env k "aw_store w"] protected_store [of env h k cs w]
  by (auto simp: protected_def forget_remembered_key_def split: option.split prod.split sum.split) 

lemma protected_drop:
  "env_ok env \<Longrightarrow> ae_store env = Some ops \<Longrightarrow> protected env h k cs w \<Longrightarrow> protected env h k cs (drop_remembered ops env w)"
  using store_holds_delete [of env k "aw_store w" ops]
  by (simp add: protected_def drop_remembered_def)

lemma protected_save:
  assumes "env_ok env" "protected env h k cs w"
  shows "protected env h k cs (snd (save_auth_data env w))"
proof -
  obtain ok d where wr: "write_atomic AUTH_FILE (ae_to_json env (aw_data w)) (aw_dir w) = (ok, d)"
    by (cases "write_atomic AUTH_FILE (ae_to_json env (aw_data w)) (aw_dir w)")
  note f = write_atomic_cases [OF wr]
  have "files_held (ae_aead env) k cs d"
    unfolding files_held_def
  proof
    fix n
    assume n: "n \<in> set CONFIG_FILES"
    have "file_held (ae_aead env) k (ds_files (aw_dir w)) n (cs n)"
      using assms(2) n by (simp add: protected_def files_held_def)
    then show "file_held (ae_aead env) k (ds_files d) n (cs n)"
      by (rule file_held_same) (use f config_names [OF n n] in auto)
  qed
  with assms f show ?thesis
    by (cases ok) (auto simp: protected_def save_auth_data_def wr env_ok_def)
qed

lemma protected_data:
  assumes "protected env h k cs w" "\<And>a. ad_enabled (f a) = ad_enabled a \<and> ad_password_hash (f a) = ad_password_hash a"
  shows "protected env h k cs (set_data f w)"
  using assms by (simp add: protected_def set_data_def set_state_def)

lemma protected_state:
  "protected env h k cs w \<Longrightarrow> (\<And>s. st_data (f s) = st_data s) \<Longrightarrow> st_enc_key (f (aw_state w)) \<in> {None, Some k} \<Longrightarrow>
     protected env h k cs (set_state f w)"
  by (simp add: protected_def set_state_def)

text \<open>The files of \<open>decrypt_config_files\<close> and \<open>encrypt_config_files\<close>; \<open>auth.json\<close> is not one of them.\<close>

lemma dir_remove_auth: "n \<noteq> AUTH_FILE \<Longrightarrow> ds_files (dir_remove n d) AUTH_FILE = ds_files d AUTH_FILE"
  by (rule dir_remove_other) simp

lemma encrypt_files_auth:
  "set ns \<subseteq> set CONFIG_FILES \<Longrightarrow> ds_files (snd (encrypt_files a nonce k ns d)) AUTH_FILE = ds_files d AUTH_FILE"
proof (induction ns arbitrary: d)
  case (Cons m ns)
  then have m: "m \<in> set CONFIG_FILES" by simp
  note nm = config_names [OF m m]
  obtain r d1 where e: "encrypt_file a (nonce m) m (enc_name m) k d = (r, d1)"
    by (cases "encrypt_file a (nonce m) m (enc_name m) k d")
  have "ds_files d1 AUTH_FILE = ds_files d AUTH_FILE" using encrypt_file_cases [OF e] nm by auto
  moreover have "ds_files (remove_plain m d1) AUTH_FILE = ds_files d1 AUTH_FILE"
    using nm by (intro remove_plain_other) auto
  ultimately show ?case using Cons e by (simp split: sum.split)
qed simp

lemma decrypt_files_auth:
  "set ns \<subseteq> set CONFIG_FILES \<Longrightarrow> ds_files (snd (decrypt_files a k ns d)) AUTH_FILE = ds_files d AUTH_FILE"
proof (induction ns arbitrary: d)
  case (Cons m ns)
  then have m: "m \<in> set CONFIG_FILES" by simp
  note nm = config_names [OF m m]
  obtain r d1 where e: "decrypt_file a (enc_name m) m k d = (r, d1)"
    by (cases "decrypt_file a (enc_name m) m k d")
  have "ds_files d1 AUTH_FILE = ds_files d AUTH_FILE" using decrypt_file_cases [OF e] nm by auto
  moreover have "ds_files (dir_remove (enc_name m) d1) AUTH_FILE = ds_files d1 AUTH_FILE"
    using nm by (intro dir_remove_auth) auto
  ultimately show ?case using Cons e by (simp split: sum.split)
qed simp

lemma recover_auth: "ds_files (recover_from_crash enabled d) AUTH_FILE = ds_files d AUTH_FILE"
proof -
  have "ds_files (recover_file enabled m d) AUTH_FILE = ds_files d AUTH_FILE" if "m \<in> set CONFIG_FILES" for m d
    using config_names [OF that that]
    by (auto simp: recover_file_def dir_remove_auth intro!: remove_plain_other)
  then show ?thesis by (simp add: recover_from_crash_def CONFIG_FILES_def)
qed

lemma protected_dir:
  "protected env h k cs w \<Longrightarrow> ds_files d AUTH_FILE = ds_files (aw_dir w) AUTH_FILE \<Longrightarrow>
     files_held (ae_aead env) k cs d \<Longrightarrow> protected env h k cs (w\<lparr>aw_dir := d\<rparr>)"
  by (simp add: protected_def)

lemma protected_decrypt:
  assumes "protected env h k cs w" "decrypt_config_files env k (aw_dir w) = (r, d)"
  shows "protected env h k cs (w\<lparr>aw_dir := d\<rparr>)"
proof -
  have d: "d = snd (decrypt_files (ae_aead env) k CONFIG_FILES (aw_dir w))"
    using assms(2) by (simp add: decrypt_config_files_def)
  show ?thesis
    using assms(1) unfolding d
    by (intro protected_dir files_held_decrypt decrypt_files_auth) (simp_all add: protected_def)
qed

lemma protected_encrypt:
  assumes "env_ok env" "nonces_ok nonce" "Some [] \<notin> range cs" "protected env h k cs w"
  shows "protected env h k cs (set_dir (\<lambda>d. snd (encrypt_config_files env nonce k d)) w)"
proof -
  have "aead_ok (ae_aead env)" using assms(1) by (simp add: env_ok_def)
  from files_held_encrypt [OF this assms(2,3), of k "aw_dir w"] assms(4) show ?thesis
    unfolding set_dir_def encrypt_config_files_def
    by (intro protected_dir encrypt_files_auth) (simp_all add: protected_def)
qed

lemma protected_lock_internal:
  assumes "env_ok env" "nonces_ok nonce" "Some [] \<notin> range cs" "protected env h k cs w"
  shows "protected env h k cs (lock_internal env nonce now w)"
proof (cases "st_enc_key (aw_state w)")
  case (Some key)
  then have "key = k" using assms(4) by (simp add: protected_def)
  with Some show ?thesis
    by (simp add: lock_internal_def protected_state protected_encrypt [OF assms])
qed (simp add: lock_internal_def assms(4))

text \<open>The hash of a password whose derived key is \<open>k\<close>.\<close>

definition hash_of_key :: "'k auth_env \<Rightarrow> string \<Rightarrow> byte list \<Rightarrow> bool" where
  "hash_of_key env h k \<longleftrightarrow>
     (\<exists>salt pw. create_hash (ae_argon env) salt pw = Ok h \<and> derive_key (ae_argon env) pw salt = Ok k)"

lemma verified_key:
  assumes "env_ok env" "hash_of_key env h k"
  shows "\<exists>salt. extract_salt (ae_argon env) h = Ok salt \<and>
    (\<forall>pw. verify (ae_argon env) pw h \<longleftrightarrow> derive_key (ae_argon env) pw salt = Ok k)"
  using assms verify_hash_key unfolding env_ok_def hash_of_key_def by blast

lemma unlock_right_cases:
  assumes "env_ok env" "hash_of_key env h k" "ad_password_hash (aw_data w) = h"
    "verify (ae_argon env) password h"
  obtains e d where "decrypt_config_files env k (aw_dir w) = (Err e, d)"
      "unlock_right env password w = (Err e, w\<lparr>aw_dir := d\<rparr>)"
  | d where "decrypt_config_files env k (aw_dir w) = (Ok (), d)"
      "unlock_right env password w = (Ok (), set_state (\<lambda>s. s\<lparr>st_enc_key := Some k, st_unlocked := True, st_locked_at := None\<rparr>)
         (remember_key env k (snd (save_auth_data env
            (set_data (\<lambda>a. a\<lparr>ad_failed_attempts := 0, ad_lockout_until := []\<rparr>) (w\<lparr>aw_dir := d\<rparr>))))))"
proof -
  obtain salt where s: "extract_salt (ae_argon env) h = Ok salt" "derive_key (ae_argon env) password salt = Ok k"
    using verified_key [OF assms(1,2)] assms(4) by blast
  obtain r d where d: "decrypt_config_files env k (aw_dir w) = (r, d)"
    by (cases "decrypt_config_files env k (aw_dir w)")
  show ?thesis
    using that s d assms(3) by (cases r) (simp_all add: unlock_right_def Let_def)
qed

lemma protected_verify:
  assumes "env_ok env" "hash_of_key env h k" "protected env h k cs w"
  shows "protected env h k cs (snd (unlock_verify env now password w))"
proof (cases "verify (ae_argon env) password h")
  case False
  have "protected env h k cs (unlock_wrong env now w)"
    unfolding unlock_wrong_def
    by (intro protected_save [OF assms(1)] protected_data assms(3)) (simp add: Let_def)
  with False assms(3) show ?thesis by (simp add: unlock_verify_def protected_def)
next
  case True
  have h: "ad_password_hash (aw_data w) = h" using assms(3) by (simp add: protected_def)
  have u: "unlock_verify env now password w = unlock_right env password w"
    using True h by (simp add: unlock_verify_def)
  show ?thesis
  proof (rule unlock_right_cases [OF assms(1,2) h True])
    fix e d
    assume "decrypt_config_files env k (aw_dir w) = (Err e, d)"
      "unlock_right env password w = (Err e, w\<lparr>aw_dir := d\<rparr>)"
    then show ?thesis using protected_decrypt [OF assms(3)] by (simp add: u)
  next
    fix d
    assume d: "decrypt_config_files env k (aw_dir w) = (Ok (), d)"
      "unlock_right env password w = (Ok (), set_state (\<lambda>s. s\<lparr>st_enc_key := Some k, st_unlocked := True, st_locked_at := None\<rparr>)
         (remember_key env k (snd (save_auth_data env
            (set_data (\<lambda>a. a\<lparr>ad_failed_attempts := 0, ad_lockout_until := []\<rparr>) (w\<lparr>aw_dir := d\<rparr>))))))"
    have "protected env h k cs (w\<lparr>aw_dir := d\<rparr>)" using protected_decrypt [OF assms(3) d(1)] .
    then have "protected env h k cs (remember_key env k (snd (save_auth_data env
        (set_data (\<lambda>a. a\<lparr>ad_failed_attempts := 0, ad_lockout_until := []\<rparr>) (w\<lparr>aw_dir := d\<rparr>)))))"
      by (intro protected_remember [OF assms(1)] protected_save [OF assms(1)] protected_data) simp_all
    then show ?thesis by (simp add: u d(2) protected_state)
  qed
qed

lemma protected_check: "protected env h k cs w \<Longrightarrow> protected env h k cs (snd (unlock_check env now w))"
  using protected_data [of env h k cs w "\<lambda>a. a\<lparr>ad_lockout_until := []\<rparr>"]
  by (auto simp: unlock_check_def Let_def split: option.split)

lemma protected_resume:
  assumes "env_ok env" "protected env h k cs w"
  shows "protected env h k cs (resume_remembered_key env w)"
proof (cases "ae_store env")
  case (Some ops)
  show ?thesis
  proof (cases "so_get ops (ae_account env) (aw_store w)")
    case (Inr key)
    then have key: "key = k" using assms(2) Some by (auto simp: protected_def store_holds_def)
    obtain r d where d: "decrypt_config_files env k (aw_dir w) = (r, d)"
      by (cases "decrypt_config_files env k (aw_dir w)")
    have p: "protected env h k cs (w\<lparr>aw_dir := d\<rparr>)" using protected_decrypt [OF assms(2) d] .
    note dr = protected_drop [OF assms(1) Some assms(2)] protected_drop [OF assms(1) Some p]
    show ?thesis
      using Some Inr key d p dr assms(2)
      by (cases r) (auto simp: resume_remembered_key_def protected_state)
  qed (use Some assms(2) in \<open>simp add: resume_remembered_key_def\<close>)
qed (simp add: resume_remembered_key_def assms(2))

lemma protected_restart:
  assumes "env_ok env" "protected env h k cs w"
  shows "protected env h k cs (auth_new env ((aw_dir w)\<lparr>ds_fates := Works # fs, ds_dead := False\<rparr>) (aw_store w))"
proof -
  obtain b a where a: "ds_files (aw_dir w) AUTH_FILE = Some b" "ae_of_json env b = Some a" "ad_enabled a"
    "ad_password_hash a = h" using assms(2) by (auto simp: protected_def)
  let ?d = "(aw_dir w)\<lparr>ds_fates := fs, ds_dead := False\<rparr>"
  let ?w = "\<lparr> aw_state = \<lparr> st_unlocked = False, st_enc_key = None, st_data = a, st_locked_at = None \<rparr>,
      aw_dir = recover_from_crash True ?d, aw_store = aw_store w \<rparr>"
  have l: "auth_load env ((aw_dir w)\<lparr>ds_fates := Works # fs, ds_dead := False\<rparr>) = (a, ?d)"
    using a by (simp add: auth_load_def dir_read_def dir_next_def)
  have "files_held (ae_aead env) k cs ?d"
    using assms(2) files_held_cong [of ?d "aw_dir w"] by (simp add: protected_def)
  then have "files_held (ae_aead env) k cs (recover_from_crash True ?d)" by (rule files_held_recover)
  then have "protected env h k cs ?w"
    using a assms(2) by (simp add: protected_def recover_auth)
  from protected_resume [OF assms(1) this] show ?thesis
    using a(3) by (simp add: auth_new_def l Let_def)
qed

lemma protected_step:
  assumes "auth_call env w w'" "env_ok env" "hash_of_key env h k" "Some [] \<notin> range cs" "protected env h k cs w"
  shows "protected env h k cs w'"
  using assms(1)
proof cases
  case (AcFates fs)
  have "files_held (ae_aead env) k cs ((aw_dir w)\<lparr>ds_fates := fs\<rparr>)"
    using assms(5) files_held_cong [of "(aw_dir w)\<lparr>ds_fates := fs\<rparr>" "aw_dir w"] by (simp add: protected_def)
  then show ?thesis using assms(5) AcFates by (simp add: protected_def set_dir_def)
next
  case (AcLock nonce now)
  then show ?thesis
    using protected_lock_internal [OF assms(2) _ assms(4,5)] assms(5)
    by (auto simp: auth_lock_def auth_suspend_def intro: protected_forget [OF assms(2)])
next
  case (AcSuspend nonce now)
  then show ?thesis using protected_lock_internal [OF assms(2) _ assms(4,5)] assms(5) by (simp add: auth_suspend_def)
next
  case (AcPlain)
  then show ?thesis using assms(5) by (auto simp: open_plaintext_session_def protected_def set_state_def)
next
  case (AcSettings s)
  then show ?thesis
    unfolding set_app_settings_def using assms(5) by (simp add: protected_save [OF assms(2)] protected_data)
qed (simp_all add: assms protected_check protected_verify protected_restart)

lemma protected_calls:
  assumes "(auth_call env)\<^sup>*\<^sup>* w w'" "env_ok env" "hash_of_key env h k" "Some [] \<notin> range cs" "protected env h k cs w"
  shows "protected env h k cs w'"
  using assms(1) by induction (use assms(2-) protected_step in blast)+

lemma held_recoverable:
  assumes "files_held a k cs d" "n \<in> set CONFIG_FILES" "cs n = Some c"
  shows "(ds_files d n = Some c \<and> ds_files d (enc_name n) = None) \<or>
    (\<exists>b. ds_files d (enc_name n) = Some b \<and> decrypt_blob a k b = Some c)"
proof -
  have "file_held a k (ds_files d) n (Some c)" using assms by (metis files_held_def)
  then show ?thesis by (auto simp: file_held_def)
qed


text \<open>A concrete environment: the toy hash, a cipher that appends a tag, a numbering as JSON.\<close>

definition demo_aead :: aead where
  "demo_aead = \<lparr> ad_encrypt = (\<lambda>k n p. Some (p @ replicate TAG_LEN 0)),
     ad_decrypt = (\<lambda>k n c. Some (take (length c - TAG_LEN) c)) \<rparr>"

definition data_code :: "auth_data \<Rightarrow> nat" where
  "data_code a = to_nat ((as_debug_mode (ad_app_settings a), as_minimize_to_tray (ad_app_settings a),
      as_notifications_enabled (ad_app_settings a), as_start_at_login (ad_app_settings a)),
      (ad_enabled a, ad_failed_attempts a, ad_lockout_until a, ad_password_hash a))"

definition data_decode :: "nat \<Rightarrow> auth_data" where
  "data_decode n = (case from_nat n of ((a, b, c, d), (e, f, g, h)) \<Rightarrow>
     \<lparr> ad_app_settings = \<lparr> as_debug_mode = a, as_minimize_to_tray = b, as_notifications_enabled = c,
         as_start_at_login = d \<rparr>, ad_enabled = e, ad_failed_attempts = f, ad_lockout_until = g,
       ad_password_hash = h \<rparr>)"

lemma data_decode_code: "data_decode (data_code a) = a"
  by (simp add: data_decode_def data_code_def)

definition demo_time :: "string \<Rightarrow> int option" where
  "demo_time s = (case s of [] \<Rightarrow> None | _ \<Rightarrow> Some (int (length s) * 1000000000))"

definition demo_format :: "int \<Rightarrow> string" where
  "demo_format t = replicate (nat (t div 1000000000)) CHR ''x''"

definition demo_auth_env :: "memory_store auth_env" where
  "demo_auth_env = \<lparr> ae_argon = demo_crate, ae_aead = demo_aead, ae_store = Some memory_ops, ae_account = ''a'',
     ae_format = demo_format, ae_parse = demo_time,
     ae_to_json = (\<lambda>a. replicate (data_code a) 0), ae_of_json = (\<lambda>b. Some (data_decode (length b))) \<rparr>"

lemma demo_auth_env_ok: "env_ok demo_auth_env"
  using demo_crate_ok memory.secure_store_axioms
  by (simp add: env_ok_def demo_auth_env_def aead_ok_def demo_aead_def TAG_LEN_def data_decode_code)

definition demo_key :: "byte list" where "demo_key = replicate 32 4"

definition demo_hash :: string where
  "demo_hash = (case create_hash demo_crate [1, 2] ''pass'' of Inr h \<Rightarrow> h | Inl _ \<Rightarrow> [])"

lemma demo_hash_key: "hash_of_key demo_auth_env demo_hash demo_key"
  unfolding hash_of_key_def
  by (rule exI [of _ "[1, 2]"], rule exI [of _ "''pass''"])
    (simp add: demo_auth_env_def demo_hash_def create_hash_def derive_key_def hash_raw_def demo_crate_def
      demo_key_def KEY_LENGTH_def)

definition demo_contents :: "string \<rightharpoonup> byte list" where
  "demo_contents = [''rclone.conf'' \<mapsto> [7]]"

definition demo_data :: auth_data where
  "demo_data = auth_data_default\<lparr>ad_enabled := True, ad_password_hash := demo_hash\<rparr>"

definition demo_world :: "memory_store auth_world" where
  "demo_world = \<lparr> aw_state = \<lparr> st_unlocked = True, st_enc_key = Some demo_key, st_data = demo_data,
       st_locked_at = None \<rparr>,
     aw_dir = \<lparr> ds_files = [AUTH_FILE \<mapsto> replicate (data_code demo_data) 0, ''rclone.conf'' \<mapsto> [7]],
       ds_fates = [], ds_dead = False \<rparr>,
     aw_store = Map.empty \<rparr>"

lemma demo_protected: "protected demo_auth_env demo_hash demo_key demo_contents demo_world"
  by (simp add: protected_def demo_world_def demo_data_def demo_auth_env_def data_decode_code store_holds_def
      memory_defs files_held_def file_held_def CONFIG_FILES_def demo_contents_def enc_name_def AUTH_FILE_def)

lemma demo_contents_ok: "Some [] \<notin> range demo_contents"
  by (auto simp: demo_contents_def)


section \<open>Unlocking restores everything\<close>

definition no_faults :: "dir_state \<Rightarrow> bool" where
  "no_faults d \<longleftrightarrow> ds_fates d = [] \<and> \<not> ds_dead d"

lemma no_faults_next: "no_faults d \<Longrightarrow> dir_next d = (True, d)"
  by (simp add: no_faults_def dir_next_def)

lemma no_faults_ops:
  assumes "no_faults d"
  shows "dir_read n d = (ds_files d n, d)" "dir_remove n d = d\<lparr>ds_files := (ds_files d)(n := None)\<rparr>"
    "write_atomic n b d = (True, d\<lparr>ds_files := (ds_files d)(n \<mapsto> b)\<rparr>)"
  using no_faults_next [OF assms] by (simp_all add: dir_read_def dir_remove_def write_atomic_def)

lemma decrypt_one_clean:
  assumes "no_faults d" "m \<in> set CONFIG_FILES" "file_held a k (ds_files d) m co"
  shows "\<exists>d'. decrypt_files a k (m # ns) d = decrypt_files a k ns d' \<and> no_faults d' \<and>
    ds_files d' = (ds_files d)(m := co, enc_name m := None)"
proof (cases "ds_files d (enc_name m)")
  case None
  then have "ds_files d m = co" using assms(3) by (auto simp: file_held_def split: option.splits)
  then have "ds_files d = (ds_files d)(m := co, enc_name m := None)" using None by (simp add: fun_upd_idem)
  then show ?thesis using assms(1) None by (intro exI [of _ d]) (simp add: dir_exists_def)
next
  case (Some b)
  obtain c where c: "co = Some c" "decrypt_blob a k b = Some c"
    using assms(3) Some by (auto simp: file_held_def split: option.splits)
  let ?d = "d\<lparr>ds_files := (ds_files d)(m \<mapsto> c)\<rparr>"
  have n: "no_faults ?d" using assms(1) by (simp add: no_faults_def)
  have "decrypt_file a (enc_name m) m k d = (Ok (), ?d)"
    using assms(1) Some c by (simp add: decrypt_file_def no_faults_ops)
  then have "decrypt_files a k (m # ns) d = decrypt_files a k ns (?d\<lparr>ds_files := (ds_files ?d)(enc_name m := None)\<rparr>)"
    using Some n by (simp add: dir_exists_def no_faults_ops)
  then show ?thesis using c(1) n
    by (intro exI [of _ "?d\<lparr>ds_files := (ds_files ?d)(enc_name m := None)\<rparr>"]) (auto simp: no_faults_def)
qed

lemma decrypt_config_clean:
  assumes "no_faults d" "files_held a k cs d"
  shows "\<exists>d'. decrypt_files a k CONFIG_FILES d = (Ok (), d') \<and> no_faults d' \<and>
    (\<forall>n \<in> set CONFIG_FILES. ds_files d' n = cs n \<and> ds_files d' (enc_name n) = None)"
proof -
  let ?r = "''rclone.conf''" and ?g = "''gn-drive.db''"
  have in_cfg: "?r \<in> set CONFIG_FILES" "?g \<in> set CONFIG_FILES" by (simp_all add: CONFIG_FILES_def)
  note nm = config_names [OF in_cfg] config_names [OF in_cfg(2,1)] config_names [OF in_cfg(1,1)] config_names [OF in_cfg(2,2)]
  obtain d1 where d1: "decrypt_files a k CONFIG_FILES d = decrypt_files a k [?g] d1" "no_faults d1"
    "ds_files d1 = (ds_files d)(?r := cs ?r, enc_name ?r := None)"
    using decrypt_one_clean [OF assms(1) in_cfg(1), of a k "cs ?r" "[?g]"] assms(2) in_cfg
    by (auto simp: files_held_def CONFIG_FILES_def)
  have "file_held a k (ds_files d) ?g (cs ?g)" using assms(2) in_cfg by (simp add: files_held_def)
  then have "file_held a k (ds_files d1) ?g (cs ?g)"
    by (rule file_held_same) (use nm in \<open>simp_all add: d1(3)\<close>)
  from decrypt_one_clean [OF d1(2) in_cfg(2) this, of "[]"]
  obtain d2 where "decrypt_files a k CONFIG_FILES d = (Ok (), d2)" "no_faults d2"
    "ds_files d2 = (ds_files d1)(?g := cs ?g, enc_name ?g := None)" using d1(1) by auto
  moreover from this(3) have "\<forall>n \<in> set CONFIG_FILES. ds_files d2 n = cs n \<and> ds_files d2 (enc_name n) = None"
    using nm by (auto simp: d1(3) CONFIG_FILES_def)
  ultimately show ?thesis by blast
qed

text \<open>
  C35: the password opens what it locked. However a protected service got into its state (failed
  locks, crashes and restarts included), an unlock with the password, when the file operations
  work, succeeds, leaves every config file in the clear with its content and no encrypted copy,
  and keeps the service protected; with any other password it is refused, counted, and changes
  no config file.
\<close>

theorem unlock_restores:
  assumes "env_ok env" "hash_of_key env h k" "protected env h k cs w" "no_faults (aw_dir w)"
    "n \<in> {''rclone.conf'', ''gn-drive.db''}" "unlock_verify env now password w = (r, w')"
  shows "if verify (ae_argon env) password h
    then r = Ok () \<and> st_unlocked (aw_state w') \<and> st_enc_key (aw_state w') = Some k \<and>
      ds_files (aw_dir w') n = cs n \<and> ds_files (aw_dir w') (n @ ''.enc'') = None
    else r = Err InvalidPassword \<and> st_unlocked (aw_state w') = st_unlocked (aw_state w) \<and>
      ds_files (aw_dir w') n = ds_files (aw_dir w) n \<and>
      ds_files (aw_dir w') (n @ ''.enc'') = ds_files (aw_dir w) (n @ ''.enc'')"
proof -
  have h: "ad_password_hash (aw_data w) = h" and fh: "files_held (ae_aead env) k cs (aw_dir w)"
    using assms(3) by (simp_all add: protected_def)
  have n: "n \<in> set CONFIG_FILES" using assms(5) by (auto simp: CONFIG_FILES_def)
  note nm = config_names [OF n n]
  show ?thesis
  proof (cases "verify (ae_argon env) password h")
    case True
    obtain d where d: "decrypt_config_files env k (aw_dir w) = (Ok (), d)" "no_faults d"
      "ds_files d n = cs n" "ds_files d (enc_name n) = None"
      using decrypt_config_clean [OF assms(4) fh] n by (auto simp: decrypt_config_files_def)
    have "unlock_verify env now password w = unlock_right env password w"
      using True h by (simp add: unlock_verify_def)
    then show ?thesis
      using True assms(6) d nm
      by (cases rule: unlock_right_cases [OF assms(1,2) h True])
        (auto simp: set_state_def set_data_def save_auth_data_def no_faults_ops enc_name_def remember_key_def
          split: option.splits)
  next
    case False
    then have "w' = unlock_wrong env now w" "r = Err InvalidPassword"
      using assms(6) h by (simp_all add: unlock_verify_def)
    with False assms(4) nm show ?thesis
      by (auto simp: unlock_wrong_def save_auth_data_def set_data_def set_state_def no_faults_ops enc_name_def)
  qed
qed

theorem unlock_restores_witness:
  "\<exists>r w'. unlock_verify demo_auth_env 9 ''pass'' demo_world = (r, w') \<and> r = Ok () \<and>
     ds_files (aw_dir w') ''rclone.conf'' = Some [7]"
proof -
  obtain r w' where u: "unlock_verify demo_auth_env 9 ''pass'' demo_world = (r, w')"
    by (cases "unlock_verify demo_auth_env 9 ''pass'' demo_world")
  have f: "no_faults (aw_dir demo_world)" by (simp add: demo_world_def no_faults_def)
  have "create_hash demo_crate [1, 2] ''pass'' = Ok demo_hash"
    by (simp add: demo_hash_def create_hash_def hash_raw_def demo_crate_def)
  then have "verify demo_crate ''pass'' demo_hash" "ae_argon demo_auth_env = demo_crate"
    using verify_create_hash [OF demo_crate_ok] by (auto simp: demo_auth_env_def)
  moreover have "''rclone.conf'' \<in> {''rclone.conf'', ''gn-drive.db''}" by simp
  note unlock_restores [OF demo_auth_env_ok demo_hash_key demo_protected f this u]
  ultimately have "r = Ok () \<and> ds_files (aw_dir w') ''rclone.conf'' = Some [7]"
    by (simp add: demo_contents_def)
  with u show ?thesis by blast
qed

section \<open>Rate limiting\<close>

text \<open>Times written to \<open>auth.json\<close> are whole seconds and read back as such.\<close>

definition times_ok :: "'k auth_env \<Rightarrow> bool" where
  "times_ok env \<longleftrightarrow> (\<forall>t. 0 \<le> t \<longrightarrow> ae_format env t \<noteq> [] \<longrightarrow>
     ae_parse env (ae_format env t) = Some (t - t mod 1000000000)) \<and> (\<forall>t \<ge> 1000000000. ae_format env t \<noteq> [])"

text \<open>Unlock attempts one after another, each with its times and password.\<close>

definition attempts :: "'k auth_env \<Rightarrow> (int \<times> int \<times> string) list \<Rightarrow> 'k auth_world \<Rightarrow> 'k auth_world" where
  "attempts env ws w = fold (\<lambda>(now, now', pw) w. snd (unlock env now now' pw w)) ws w"

definition locked_count :: "'k auth_env \<Rightarrow> string \<Rightarrow> int \<Rightarrow> 'k auth_world \<Rightarrow> bool" where
  "locked_count env h n w \<longleftrightarrow> ad_enabled (aw_data w) \<and> \<not> st_unlocked (aw_state w) \<and>
     ad_password_hash (aw_data w) = h \<and> ad_failed_attempts (aw_data w) = n \<and> ad_lockout_until (aw_data w) = []"

lemma wrong_data:
  "aw_data (unlock_wrong env now w) =
     (let n = ad_failed_attempts (aw_data w) + 1 in
      if n \<ge> MAX_ATTEMPTS_BEFORE_LOCK
      then (aw_data w)\<lparr>ad_lockout_until := ae_format env (now + LOCKOUT_DURATION_SECS * 1000000000),
             ad_failed_attempts := 0\<rparr>
      else (aw_data w)\<lparr>ad_failed_attempts := n\<rparr>)"
  "st_unlocked (aw_state (unlock_wrong env now w)) = st_unlocked (aw_state w)"
  by (auto simp: unlock_wrong_def save_auth_data_def set_data_def set_state_def Let_def split: prod.splits)

lemma wrong_attempt:
  assumes "locked_count env h n w" "\<not> verify (ae_argon env) pw h"
  shows "\<exists>t w1. snd (unlock env now now' pw w) = unlock_wrong env t w1 \<and> locked_count env h n w1 \<and>
    (t = (if 3 \<le> n \<and> n < 10 then now' else now)) \<and> fst (unlock env now now' pw w) = Err InvalidPassword"
proof -
  have "active_lockout_remaining env now (aw_data w) = None"
    using assms(1) by (simp add: locked_count_def active_lockout_remaining_def)
  then show ?thesis
    using assms
    by (auto simp: unlock_def unlock_check_def locked_count_def Let_def attempt_limits unlock_verify_def
        unlock_resume_def set_data_def set_state_def)
qed

lemma wrong_attempts_below:
  "list_all (\<lambda>(now, now', pw). \<not> verify (ae_argon env) pw h) ws \<Longrightarrow> locked_count env h n w \<Longrightarrow> 0 \<le> n \<Longrightarrow>
     n + int (length ws) < 10 \<Longrightarrow> locked_count env h (n + int (length ws)) (attempts env ws w)"
proof (induction ws arbitrary: n w)
  case (Cons x ws)
  obtain now now' pw where x: "x = (now, now', pw)" by (cases x)
  obtain t w1 where w: "snd (unlock env now now' pw w) = unlock_wrong env t w1" "locked_count env h n w1"
    using wrong_attempt [OF Cons.prems(2), of pw now now'] Cons.prems(1) x by auto
  have "locked_count env h (n + 1) (unlock_wrong env t w1)"
    using w(2) Cons.prems(4) by (auto simp: locked_count_def wrong_data Let_def attempt_limits)
  from Cons.IH [OF _ this] Cons.prems show ?case
    by (simp add: attempts_def x w(1) add.assoc)
qed (simp add: attempts_def)

lemma attempts_snoc: "attempts env (ws @ [(now, now', pw)]) w = snd (unlock env now now' pw (attempts env ws w))"
  by (simp add: attempts_def)

text \<open>
  C36: ten wrong passwords lock the service. Starting from no failed attempts, the first nine
  wrong passwords only count; the tenth locks. For at least 298 seconds after it every unlock,
  with the right password too, is refused as locked with at most 300 seconds to wait, without
  looking at the password and without changing anything.
\<close>

theorem ten_attempts_lock:
  assumes "times_ok env" "locked_count env h 0 w" "length ws = 9"
    "list_all (\<lambda>(now, now', pw). \<not> verify (ae_argon env) pw h) (ws @ [(now, now', pw)])"
    "1000000000 \<le> now'" "now' \<le> t" "t < now' + 298 * 1000000000"
    "w' = attempts env (ws @ [(now, now', pw)]) w"
  shows "locked_count env h 9 (attempts env ws w) \<and>
    (\<exists>r. unlock env t t' password w' = (Err (AuthLockedOut r), w') \<and> 1 \<le> r \<and> r \<le> 300)"
proof -
  have l: "locked_count env h 9 (attempts env ws w)"
    using wrong_attempts_below [of env h ws 0 w] assms(2,3,4) by simp
  obtain w1 where w1: "w' = unlock_wrong env now' w1" "locked_count env h 9 w1"
    using wrong_attempt [OF l, of pw now now'] assms(4,8) by (auto simp: attempts_snoc)
  let ?u = "now' + LOCKOUT_DURATION_SECS * 1000000000"
  have d: "ad_lockout_until (aw_data w') = ae_format env ?u" "ad_enabled (aw_data w')" "\<not> st_unlocked (aw_state w')"
    using w1 by (auto simp: wrong_data locked_count_def Let_def attempt_limits)
  have f: "ae_format env ?u \<noteq> []" "ae_parse env (ae_format env ?u) = Some (?u - ?u mod 1000000000)"
    using assms(1,5) by (simp_all add: times_ok_def LOCKOUT_DURATION_SECS_def)
  let ?e = "?u - ?u mod 1000000000"
  have "0 \<le> ?u mod 1000000000" "?u mod 1000000000 < 1000000000" by simp_all
  then have e: "?e - t > 0" "?e - t \<le> 300 * 1000000000" "?e - t \<ge> 1000000"
    using assms(6,7) by (simp_all only: LOCKOUT_DURATION_SECS_def)
  let ?ms = "(?e - t) div 1000000"
  have ms: "1 \<le> ?ms" "?ms \<le> 300000" using e by linarith+
  have "active_lockout_remaining env t (aw_data w') = Some ((?ms + 999) div 1000)"
    using f d(1) e ms(1) by (simp add: active_lockout_remaining_def Let_def)
  moreover have "1 \<le> (?ms + 999) div 1000" "(?ms + 999) div 1000 \<le> 300" using ms by linarith+
  ultimately show ?thesis using l d(2,3) by (simp add: unlock_def unlock_check_def)
qed

lemma demo_times_ok: "times_ok demo_auth_env"
proof -
  have "demo_time (demo_format t) = Some (t - t mod 1000000000)" if "0 \<le> t" "demo_format t \<noteq> []" for t
  proof -
    have "int (nat (t div 1000000000)) = t div 1000000000" using that(1) by (simp add: pos_imp_zdiv_nonneg_iff)
    then have "int (length (demo_format t)) * 1000000000 = t - t mod 1000000000"
      by (simp add: demo_format_def minus_mod_eq_div_mult)
    then show ?thesis using that(2) by (cases "demo_format t") (simp_all add: demo_time_def)
  qed
  moreover have "demo_format t \<noteq> []" if "1000000000 \<le> t" for t
  proof -
    have "1 \<le> t div 1000000000" using zdiv_mono1 [OF that, of 1000000000] by simp
    then show ?thesis by (simp add: demo_format_def)
  qed
  ultimately show ?thesis by (simp add: times_ok_def demo_auth_env_def)
qed

definition demo_locked :: "memory_store auth_world" where
  "demo_locked = set_state (\<lambda>s. s\<lparr>st_unlocked := False, st_enc_key := None\<rparr>) demo_world"

theorem ten_attempts_lock_witness:
  "\<exists>w' r. unlock demo_auth_env (6 * 10 ^ 9) 0 ''pass'' w' = (Err (AuthLockedOut r), w') \<and>
     w' = attempts demo_auth_env (replicate 9 (10 ^ 9, 10 ^ 9, ''x'') @ [(10 ^ 9, 5 * 10 ^ 9, ''x'')]) demo_locked"
proof -
  have h: "create_hash demo_crate [1, 2] ''pass'' = Ok demo_hash"
    by (simp add: demo_hash_def create_hash_def hash_raw_def demo_crate_def)
  have "derive_key demo_crate ''x'' [1, 2] \<noteq> derive_key demo_crate ''pass'' [1, 2]"
    by (simp add: derive_key_def hash_raw_def demo_crate_def KEY_LENGTH_def)
  then have v: "\<not> verify (ae_argon demo_auth_env) ''x'' demo_hash"
    using verify_create_hash [OF demo_crate_ok h, of "''x''"] by (simp add: demo_auth_env_def)
  have c: "locked_count demo_auth_env demo_hash 0 demo_locked"
    by (simp add: locked_count_def demo_locked_def demo_world_def set_state_def demo_data_def auth_data_default_def)
  have "list_all (\<lambda>(now, now', pw). \<not> verify (ae_argon demo_auth_env) pw demo_hash)
      (replicate 9 (10 ^ 9, 10 ^ 9, ''x'') @ [(10 ^ 9, 5 * 10 ^ 9, ''x'')])"
    using v by (simp add: list_all_iff)
  from ten_attempts_lock [OF demo_times_ok c _ this _ _ _ refl, of "6 * 10 ^ 9" 0 "''pass''"]
  show ?thesis by auto
qed

section \<open>Where the guarantees stop\<close>

text \<open>The lockout is not looked at again after the sleep: an attempt that passed its check is still verified.\<close>

lemma lockout_not_rechecked:
  assumes "\<not> st_unlocked (aw_state w)" "active_lockout_remaining env now (aw_data w) = Some r"
    "verify (ae_argon env) pw (ad_password_hash (aw_data w))"
  shows "unlock_resume w = UnlockVerify \<and> unlock_verify env now pw w = unlock_right env pw w"
  using assms by (simp add: unlock_resume_def unlock_verify_def)

text \<open>A plaintext session has no key: \<open>lock\<close> reports success and leaves it unlocked, files in the clear.\<close>

lemma lock_plaintext_session:
  assumes "st_unlocked (aw_state w)" "st_enc_key (aw_state w) = None" "ae_store env = None"
  shows "auth_lock env nonce now w = (Ok (), w)"
  using assms by (simp add: auth_lock_def auth_suspend_def lock_internal_def forget_remembered_key_def)

text \<open>Where there is no keychain, \<open>change_password\<close> always fails and \<open>lock\<close> reports an error after locking.\<close>

lemma no_keychain_change_password:
  assumes "ae_store env = Some no_keychain_ops"
  shows "fst (change_password env nonce salt old new w) \<noteq> Ok () \<and>
    fst (auth_lock env nonce now w) = Err (AuthKeyStore no_keychain_error)"
  using assms by (auto simp: change_password_def auth_lock_def forget_remembered_key_def no_keychain_ops_def)

text \<open>The remembered key: \<open>change_password\<close> deletes it and never stores the new one; \<open>remove_password\<close> keeps it.\<close>

lemma remove_password_keeps_key: "aw_store (snd (remove_password env pw w)) = aw_store w"
  by (simp add: remove_password_def set_state_def set_dir_def)

text \<open>
  A crash of \<open>change_password\<close> between the encryption under the new key and the write of
  \<open>auth.json\<close>: the file is left encrypted under a key whose salt is nowhere on disk.
\<close>

lemma change_password_crash:
  assumes "aead_ok (ae_aead env)" "ds_files (aw_dir w) ''rclone.conf'' = Some c"
    "ds_files (aw_dir w) ''gn-drive.db'' = None" "\<not> ds_dead (aw_dir w)"
    "ds_fates (aw_dir w) = [Works, Works, Works, Works, Works, Crashes]"
    "ad_encrypt (ae_aead env) new_key (nonce ''rclone.conf'') c = Some ct"
    "change_key env nonce new_hash new_key w = (r, w')"
  shows "r = Err AuthIo \<and> ds_files (aw_dir w') ''rclone.conf'' = None \<and>
    ds_files (aw_dir w') ''rclone.conf.enc'' = Some (nonce ''rclone.conf'' @ ct) \<and>
    ds_files (aw_dir w') AUTH_FILE = ds_files (aw_dir w) AUTH_FILE \<and> ds_dead (aw_dir w')"
proof -
  let ?d = "aw_dir w"
  have e: "encrypt_config_files env nonce new_key ?d = (Ok (), ?d\<lparr>ds_fates := [Crashes],
      ds_files := (ds_files ?d)(''rclone.conf.enc'' \<mapsto> nonce ''rclone.conf'' @ ct, ''rclone.conf'' := None,
        ''rclone.conf-wal'' := None, ''rclone.conf-shm'' := None)\<rparr>)"
    using assms(2-6)
    by (simp add: encrypt_config_files_def CONFIG_FILES_def dir_exists_def encrypt_file_def dir_read_def
        write_atomic_def dir_next_def remove_plain_def dir_remove_def enc_name_def)
  have "decrypt_config_files env k d = (Err (AuthCrypto CryptoIo), d)"
    if "ds_dead d" "ds_files d ''rclone.conf.enc'' \<noteq> None" for k d
    using that
    by (simp add: decrypt_config_files_def CONFIG_FILES_def dir_exists_def decrypt_file_def dir_read_def
        dir_next_def enc_name_def)
  with assms(4,5,7) show ?thesis
    by (auto simp: change_key_def e save_auth_data_def set_data_def set_state_def set_dir_def write_atomic_def
        dir_next_def AUTH_FILE_def)
qed

end
