(* ===== verification/Database.thy ===== *)
theory Database
  imports Models
begin

text \<open>
  \<open>crates/gn-drive-core/src/database.rs\<close>: SQL values with their lenient views, and the tables
  under the statements of \<open>store.rs\<close>. SQLite executes the SQL texts; a table is the list of its
  rows, a row the list of its columns in the order the statements name them, the key first. The
  statements' effects are written here as the SQL says: an upsert on a conflicting key, a delete
  with its count of changed rows, a sort by columns. Where SQL leaves an order open (equal sort
  keys) rows stay in table order, and no theorem relies on it.
\<close>

section \<open>Errors\<close>

datatype database_error =
    DbOpen string | DbPrepare string | DbStep string | DbBind string | DbNotFound | DbClosed

fun database_error_display :: "database_error \<Rightarrow> string" where
  "database_error_display (DbOpen m) = m"
| "database_error_display (DbPrepare m) = m"
| "database_error_display (DbStep m) = m"
| "database_error_display (DbBind m) = m"
| "database_error_display DbNotFound = ''record not found''"
| "database_error_display DbClosed = ''database is closed''"

text \<open>\<open>From<DatabaseError> for StoreError\<close>.\<close>

definition store_error_of :: "database_error \<Rightarrow> store_error" where
  "store_error_of e = (case e of DbNotFound \<Rightarrow> NotFound | _ \<Rightarrow> Db (database_error_display e))"

section \<open>Values\<close>

datatype sql_value = SqlNull | SqlInt int | SqlDouble f64 | SqlText string | SqlBlob "nat list"

fun sv_text :: "sql_value \<Rightarrow> string" where
  "sv_text (SqlText s) = s"
| "sv_text (SqlInt n) = show_int n"
| "sv_text (SqlDouble d) = show_f64 d"
| "sv_text _ = []"

fun sv_int :: "sql_value \<Rightarrow> int" where
  "sv_int (SqlInt n) = n"
| "sv_int (SqlDouble d) = f64_as_i64 d"
| "sv_int (SqlText s) = (case parse_i64 s of Some n \<Rightarrow> n | None \<Rightarrow> 0)"
| "sv_int _ = 0"

fun sv_double :: "sql_value \<Rightarrow> f64" where
  "sv_double (SqlDouble d) = d"
| "sv_double (SqlInt n) = f64_round (of_int n)"
| "sv_double _ = Fin 0"

fun sv_is_null :: "sql_value \<Rightarrow> bool" where
  "sv_is_null SqlNull \<longleftrightarrow> True"
| "sv_is_null _ \<longleftrightarrow> False"

definition from_opt_int :: "int option \<Rightarrow> sql_value" where
  "from_opt_int v = (case v of Some n \<Rightarrow> SqlInt n | None \<Rightarrow> SqlNull)"

definition from_opt_double :: "f64 option \<Rightarrow> sql_value" where
  "from_opt_double v = (case v of Some x \<Rightarrow> SqlDouble x | None \<Rightarrow> SqlNull)"

definition from_bool :: "bool \<Rightarrow> sql_value" where
  "from_bool b = SqlInt (if b then 1 else 0)"

definition opt_int_col :: "sql_value \<Rightarrow> int option" where
  "opt_int_col v = (if sv_is_null v then None else Some (sv_int v))"

definition text_or_null :: "string \<Rightarrow> sql_value" where
  "text_or_null s = (if s = [] then SqlNull else SqlText s)"

text \<open>SQLite stores a NaN as NULL.\<close>

definition stored :: "sql_value \<Rightarrow> sql_value" where
  "stored v = (case v of SqlDouble NaN \<Rightarrow> SqlNull | _ \<Rightarrow> v)"

lemma sql_views [simp]:
  "opt_int_col (from_opt_int v) = v" "sv_int (from_bool b) = (if b then 1 else 0)"
  "sv_is_null (from_opt_double w) \<longleftrightarrow> w = None" "sv_double (from_opt_double (Some x)) = x"
  "sv_text (text_or_null s) = s" "stored (SqlText s) = SqlText s" "stored (SqlInt n) = SqlInt n"
  "stored SqlNull = SqlNull" "stored (from_bool b) = from_bool b" "stored (from_opt_int v) = from_opt_int v"
  "stored (text_or_null s) = text_or_null s"
  by (auto simp: opt_int_col_def from_opt_int_def from_bool_def from_opt_double_def text_or_null_def stored_def
      split: option.split)

lemma stored_opt_double: "v \<noteq> Some NaN \<Longrightarrow> stored (from_opt_double v) = from_opt_double v"
  by (auto simp: stored_def from_opt_double_def split: option.splits f64.splits)

section \<open>Tables\<close>

type_synonym row = "sql_value list"
type_synonym table = "row list"

definition row_key :: "row \<Rightarrow> sql_value" where "row_key r = hd r"

definition select_key :: "sql_value \<Rightarrow> table \<Rightarrow> row option" where
  "select_key k tbl = find (\<lambda>r. row_key r = k) tbl"

text \<open>\<open>INSERT ... ON CONFLICT(key) DO UPDATE\<close>: \<open>merge old new\<close> is the updated row.\<close>

definition upsert :: "(row \<Rightarrow> row \<Rightarrow> row) \<Rightarrow> row \<Rightarrow> table \<Rightarrow> table" where
  "upsert merge new tbl =
     (if select_key (row_key new) tbl \<noteq> None
      then map (\<lambda>r. if row_key r = row_key new then merge r new else r) tbl
      else tbl @ [new])"

text \<open>\<open>DELETE ... WHERE\<close>: the rows that stay and the number removed.\<close>

definition delete_where :: "(row \<Rightarrow> bool) \<Rightarrow> table \<Rightarrow> nat \<times> table" where
  "delete_where P tbl = (length (filter P tbl), filter (\<lambda>r. \<not> P r) tbl)"

text \<open>\<open>DO UPDATE SET c = excluded.c\<close> for the listed columns.\<close>

definition set_columns :: "string list \<Rightarrow> string list \<Rightarrow> row \<Rightarrow> row \<Rightarrow> row" where
  "set_columns columns updated old new =
     map (\<lambda>(c, o', n). if c \<in> set updated then n else o') (zip columns (zip old new))"

definition keyed :: "table \<Rightarrow> bool" where
  "keyed tbl \<longleftrightarrow> distinct (map row_key tbl)"

lemma select_key_Nil [simp]: "select_key k [] = None"
  by (simp add: select_key_def)

lemma select_key_Cons [simp]:
  "select_key k (r # tbl) = (if row_key r = k then Some r else select_key k tbl)"
  by (simp add: select_key_def)

lemma select_key_append:
  "select_key k (a @ b) = (case select_key k a of Some r \<Rightarrow> Some r | None \<Rightarrow> select_key k b)"
  by (induction a) auto

lemma select_key_row: "select_key k tbl = Some r \<Longrightarrow> row_key r = k \<and> r \<in> set tbl"
  by (induction tbl) (auto split: if_splits)

lemma select_key_None: "select_key k tbl = None \<longleftrightarrow> k \<notin> row_key ` set tbl"
  by (induction tbl) auto

lemma select_map_merge:
  assumes "\<And>r. row_key r = k' \<Longrightarrow> row_key (f r) = k'"
  shows "select_key k (map (\<lambda>r. if row_key r = k' then f r else r) tbl) =
    (if k = k' then map_option f (select_key k tbl) else select_key k tbl)"
  using assms by (induction tbl) auto

lemma select_upsert:
  assumes "\<And>r. row_key r = row_key new \<Longrightarrow> row_key (merge r new) = row_key new"
  shows "select_key k (upsert merge new tbl) =
    (if k = row_key new then Some (case select_key k tbl of Some r \<Rightarrow> merge r new | None \<Rightarrow> new)
     else select_key k tbl)"
proof (cases "select_key (row_key new) tbl")
  case None
  then show ?thesis by (auto simp: upsert_def select_key_append split: option.split)
next
  case (Some r)
  then show ?thesis
    using select_map_merge [of "row_key new" "\<lambda>r. merge r new" k tbl, OF assms]
    by (auto simp: upsert_def)
qed

lemma select_filter_key:
  "select_key k (filter (\<lambda>r. row_key r \<noteq> k') tbl) = (if k = k' then None else select_key k tbl)"
  by (induction tbl) auto

lemma keyed_upsert:
  assumes "\<And>r. row_key r = row_key new \<Longrightarrow> row_key (merge r new) = row_key new" "keyed tbl"
  shows "keyed (upsert merge new tbl)"
proof (cases "select_key (row_key new) tbl")
  case None
  then show ?thesis using assms(2) by (simp add: upsert_def keyed_def select_key_None)
next
  case (Some r)
  define f where "f = (\<lambda>r. if row_key r = row_key new then merge r new else r)"
  have "row_key (f r) = row_key r" for r using assms(1) by (simp add: f_def)
  then have "map row_key (map f tbl) = map row_key tbl" by (induction tbl) simp_all
  moreover have "upsert merge new tbl = map f tbl" using Some by (simp add: upsert_def f_def)
  ultimately show ?thesis using assms(2) unfolding keyed_def by (simp only:)
qed

lemma keyed_filter: "keyed tbl \<Longrightarrow> keyed (filter P tbl)"
  by (simp add: keyed_def distinct_map_filter)

lemma set_columns_all:
  "length old = length columns \<Longrightarrow> length new = length columns \<Longrightarrow> set columns \<subseteq> set updated \<Longrightarrow>
     set_columns columns updated old new = new"
proof -
  assume l: "length old = length columns" "length new = length columns" and s: "set columns \<subseteq> set updated"
  show ?thesis
  proof (rule nth_equalityI)
    show "length (set_columns columns updated old new) = length new" using l by (simp add: set_columns_def)
  next
    fix i
    assume "i < length (set_columns columns updated old new)"
    then show "set_columns columns updated old new ! i = new ! i"
      using l s by (auto simp: set_columns_def dest: nth_mem)
  qed
qed

end
