(* ===== verification/Store.thy ===== *)
theory Store
  imports Database
begin

text \<open>
  \<open>crates/gn-drive-core/src/store.rs\<close>: the repositories over the tables. Every statement may
  fail: \<open>ss_faults\<close> is a script with one entry per statement to come (an exhausted script lets
  statements work), on top of the constraint violations of the tables themselves. A transaction
  is rolled back when its body fails, as \<open>Database::transaction\<close> does; \<open>ss_in_tx\<close> says that the
  connection was left inside one, which happens when COMMIT or ROLLBACK themselves fail.
  \<open>store_env\<close> holds what is not under \<open>src\<close>: JSON, the clock, and SQLite's messages.
\<close>

record store_env =
  sv_list_json :: "string list \<Rightarrow> string" \<comment> \<open>\<open>serde_json::to_string\<close> of a string array\<close>
  sv_list_parse :: "string \<Rightarrow> string list option"
  sv_dict_json :: "json_dict \<Rightarrow> string"
  sv_parse :: "string \<Rightarrow> json option"
  sv_now :: string \<comment> \<open>\<open>datetime('now')\<close>\<close>
  sv_clock :: string \<comment> \<open>\<open>chrono::Utc::now()\<close> in RFC 3339\<close>
  sv_cast :: "string \<Rightarrow> int" \<comment> \<open>SQLite's \<open>CAST(_ AS INTEGER)\<close> of a text\<close>
  sv_message :: string \<comment> \<open>SQLite's message for a failed statement, with the prefix of its text\<close>

record tables =
  tb_settings :: table
  tb_profiles :: table
  tb_schedules :: table
  tb_history :: table
  tb_boards :: table
  tb_nodes :: table
  tb_edges :: table
  tb_flows :: table
  tb_operations :: table
  tb_delta :: table
  tb_user_version :: int

definition tables_empty :: tables where
  "tables_empty = \<lparr> tb_settings = [], tb_profiles = [], tb_schedules = [], tb_history = [], tb_boards = [],
     tb_nodes = [], tb_edges = [], tb_flows = [], tb_operations = [], tb_delta = [],
     tb_user_version = 0 \<rparr>"

record store =
  ss_tables :: "tables option" \<comment> \<open>\<open>None\<close> once closed\<close>
  ss_faults :: "bool list"
  ss_in_tx :: bool

section \<open>Statements and transactions\<close>

definition statement :: "store \<Rightarrow> bool \<times> store" where
  "statement st = (case ss_faults st of [] \<Rightarrow> (True, st) | f # fs \<Rightarrow> (\<not> f, st\<lparr>ss_faults := fs\<rparr>))"

text \<open>\<open>exec\<close> with the effect of the SQL on the tables; \<open>None\<close> is a violated constraint.\<close>

definition exec :: "store_env \<Rightarrow> (tables \<Rightarrow> (nat \<times> tables) option) \<Rightarrow> store \<Rightarrow> (store_error, nat) result \<times> store" where
  "exec env f st =
     (case ss_tables st of
        None \<Rightarrow> (Err (store_error_of DbClosed), st)
      | Some t \<Rightarrow>
          (case statement st of
             (False, st1) \<Rightarrow> (Err (store_error_of (DbStep (sv_message env))), st1)
           | (True, st1) \<Rightarrow>
               (case f t of
                  None \<Rightarrow> (Err (store_error_of (DbStep (sv_message env))), st1)
                | Some (n, t') \<Rightarrow> (Ok n, st1\<lparr>ss_tables := Some t'\<rparr>))))"

definition run_query :: "store_env \<Rightarrow> (tables \<Rightarrow> 'a) \<Rightarrow> store \<Rightarrow> (store_error, 'a) result \<times> store" where
  "run_query env q st =
     (case ss_tables st of
        None \<Rightarrow> (Err (store_error_of DbClosed), st)
      | Some t \<Rightarrow> (case statement st of
                    (False, st1) \<Rightarrow> (Err (store_error_of (DbStep (sv_message env))), st1)
                  | (True, st1) \<Rightarrow> (Ok (q t), st1)))"

definition transaction :: "store_env \<Rightarrow> (store \<Rightarrow> (store_error, 'a) result \<times> store) \<Rightarrow> store \<Rightarrow>
    (store_error, 'a) result \<times> store" where
  "transaction env body st =
     (case ss_tables st of
        None \<Rightarrow> (Err (store_error_of DbClosed), st)
      | Some t0 \<Rightarrow>
          (case statement st of
             (False, st1) \<Rightarrow> (Err (store_error_of (DbStep (sv_message env))), st1)
           | (True, st1) \<Rightarrow>
               if ss_in_tx st1 then (Err (store_error_of (DbStep (sv_message env))), st1)
               else case body (st1\<lparr>ss_in_tx := True\<rparr>) of
                 (Ok v, st2) \<Rightarrow>
                   (case statement st2 of
                      (True, st3) \<Rightarrow> (Ok v, st3\<lparr>ss_in_tx := False\<rparr>)
                    | (False, st3) \<Rightarrow> (Err (store_error_of (DbStep (sv_message env))), st3))
               | (Err e, st2) \<Rightarrow>
                   (case statement st2 of
                      (True, st3) \<Rightarrow> (Err e, st3\<lparr>ss_tables := Some t0, ss_in_tx := False\<rparr>)
                    | (False, st3) \<Rightarrow> (Err e, st3))))"

definition db_close :: "store \<Rightarrow> store" where
  "db_close st = st\<lparr>ss_tables := None\<rparr>"

definition count1 :: "tables \<Rightarrow> (nat \<times> tables) option" where
  "count1 t = Some (1, t)"

text \<open>\<open>delete_one\<close>: a key that is not there is an error.\<close>

definition delete_one :: "store_env \<Rightarrow> (tables \<Rightarrow> nat \<times> tables) \<Rightarrow> store \<Rightarrow> (store_error, unit) result \<times> store" where
  "delete_one env f st =
     (case exec env (\<lambda>t. Some (f t)) st of
        (Err e, st') \<Rightarrow> (Err e, st')
      | (Ok n, st') \<Rightarrow> (if n = 0 then Err NotFound else Ok (), st'))"

definition exec_unit :: "store_env \<Rightarrow> (tables \<Rightarrow> tables option) \<Rightarrow> store \<Rightarrow> (store_error, unit) result \<times> store" where
  "exec_unit env f st =
     (case exec env (\<lambda>t. case f t of None \<Rightarrow> None | Some t' \<Rightarrow> count1 t') st of
        (Err e, st') \<Rightarrow> (Err e, st') | (Ok _, st') \<Rightarrow> (Ok (), st'))"

text \<open>\<open>query_row(...)?.ok_or(NotFound)\<close>.\<close>

definition query_one :: "store_env \<Rightarrow> (tables \<Rightarrow> row option) \<Rightarrow> (row \<Rightarrow> 'a) \<Rightarrow> store \<Rightarrow>
    (store_error, 'a) result \<times> store" where
  "query_one env q scan st =
     (case run_query env q st of
        (Err e, st') \<Rightarrow> (Err e, st')
      | (Ok None, st') \<Rightarrow> (Err NotFound, st')
      | (Ok (Some r), st') \<Rightarrow> (Ok (scan r), st'))"

definition sort_desc :: "(row \<Rightarrow> string) \<Rightarrow> table \<Rightarrow> table" where
  "sort_desc f tbl = rev (sort_key f (rev tbl))"

section \<open>Profiles\<close>

definition json_string :: "store_env \<Rightarrow> string list \<Rightarrow> string" where
  "json_string env xs = sv_list_json env xs"

definition string_slice :: "store_env \<Rightarrow> string \<Rightarrow> string list" where
  "string_slice env s = (if s = [] then [] else case sv_list_parse env s of Some xs \<Rightarrow> xs | None \<Rightarrow> [])"

definition PROFILE_COLUMNS :: "string list" where
  "PROFILE_COLUMNS = [''name'', ''from_path'', ''to_path'', ''direction'', ''included_paths'', ''excluded_paths'',
     ''bandwidth'', ''parallel'', ''backup_path'', ''cache_path'', ''min_size'', ''max_size'', ''filter_from_file'',
     ''exclude_if_present'', ''use_regex'', ''max_delete'', ''immutable'', ''conflict_resolution'',
     ''multi_thread_streams'', ''buffer_size'', ''fast_list'', ''retries'', ''low_level_retries'', ''max_duration'',
     ''max_age'', ''min_age'', ''max_depth'', ''delete_excluded'', ''dry_run'', ''max_transfer'', ''max_delete_size'',
     ''suffix'', ''suffix_keep_extension'', ''check_first'', ''order_by'', ''retries_sleep'', ''tps_limit'',
     ''conn_timeout'', ''io_timeout'', ''size_only'', ''update_mode'', ''ignore_existing'', ''delete_timing'',
     ''resilient'', ''max_lock'', ''check_access'', ''conflict_loser'', ''conflict_suffix'']"

text \<open>The columns after \<open>DO UPDATE SET\<close>, in the order of the statement.\<close>

definition PROFILE_UPDATES :: "string list" where
  "PROFILE_UPDATES = [''from_path'', ''to_path'', ''direction'', ''included_paths'', ''excluded_paths'', ''bandwidth'',
     ''parallel'', ''backup_path'', ''cache_path'', ''min_size'', ''max_size'', ''filter_from_file'',
     ''exclude_if_present'', ''use_regex'', ''max_delete'', ''immutable'', ''conflict_resolution'',
     ''multi_thread_streams'', ''buffer_size'', ''fast_list'', ''retries'', ''low_level_retries'', ''max_duration'',
     ''max_age'', ''min_age'', ''max_depth'', ''delete_excluded'', ''dry_run'', ''max_transfer'', ''max_delete_size'',
     ''suffix'', ''suffix_keep_extension'', ''check_first'', ''order_by'', ''retries_sleep'', ''tps_limit'',
     ''conn_timeout'', ''io_timeout'', ''size_only'', ''update_mode'', ''ignore_existing'', ''delete_timing'',
     ''resilient'', ''max_lock'', ''check_access'', ''conflict_loser'', ''conflict_suffix'']"

definition profile_args :: "store_env \<Rightarrow> profile \<Rightarrow> row" where
  "profile_args env p = map stored
     [SqlText (p_name p), SqlText (p_from p), SqlText (p_to p), SqlText (p_direction p),
      SqlText (json_string env (p_included_paths p)), SqlText (json_string env (p_excluded_paths p)),
      SqlInt (p_bandwidth p), SqlInt (p_parallel p), SqlText (p_backup_path p), SqlText (p_cache_path p),
      SqlText (p_min_size p), SqlText (p_max_size p), SqlText (p_filter_from_file p),
      SqlText (p_exclude_if_present p), from_bool (p_use_regex p), from_opt_int (p_max_delete p),
      from_bool (p_immutable p), SqlText (p_conflict_resolution p), from_opt_int (p_multi_thread_streams p),
      SqlText (p_buffer_size p), from_bool (p_fast_list p), from_opt_int (p_retries p),
      from_opt_int (p_low_level_retries p), SqlText (p_max_duration p), SqlText (p_max_age p),
      SqlText (p_min_age p), from_opt_int (p_max_depth p), from_bool (p_delete_excluded p),
      from_bool (p_dry_run p), SqlText (p_max_transfer p), SqlText (p_max_delete_size p), SqlText (p_suffix p),
      from_bool (p_suffix_keep_extension p), from_bool (p_check_first p), SqlText (p_order_by p),
      SqlText (p_retries_sleep p), from_opt_double (p_tps_limit p), SqlText (p_conn_timeout p),
      SqlText (p_io_timeout p), from_bool (p_size_only p), from_bool (p_update_mode p),
      from_bool (p_ignore_existing p), SqlText (p_delete_timing p), from_bool (p_resilient p),
      SqlText (p_max_lock p), from_bool (p_check_access p), SqlText (p_conflict_loser p),
      SqlText (p_conflict_suffix p)]"

definition scan_profile :: "store_env \<Rightarrow> row \<Rightarrow> profile" where
  "scan_profile env r = \<lparr>
     p_name = sv_text (r ! 0), p_from = sv_text (r ! 1), p_to = sv_text (r ! 2), p_direction = sv_text (r ! 3),
     p_included_paths = string_slice env (sv_text (r ! 4)), p_excluded_paths = string_slice env (sv_text (r ! 5)),
     p_bandwidth = sv_int (r ! 6), p_parallel = sv_int (r ! 7), p_backup_path = sv_text (r ! 8),
     p_cache_path = sv_text (r ! 9), p_min_size = sv_text (r ! 10), p_max_size = sv_text (r ! 11),
     p_filter_from_file = sv_text (r ! 12), p_exclude_if_present = sv_text (r ! 13),
     p_use_regex = (sv_int (r ! 14) \<noteq> 0), p_max_age = sv_text (r ! 24), p_min_age = sv_text (r ! 25),
     p_max_depth = opt_int_col (r ! 26), p_delete_excluded = (sv_int (r ! 27) \<noteq> 0), p_max_delete = opt_int_col (r ! 15),
     p_immutable = (sv_int (r ! 16) \<noteq> 0), p_conflict_resolution = sv_text (r ! 17),
     p_dry_run = (sv_int (r ! 28) \<noteq> 0), p_max_transfer = sv_text (r ! 29), p_max_delete_size = sv_text (r ! 30),
     p_suffix = sv_text (r ! 31), p_suffix_keep_extension = (sv_int (r ! 32) \<noteq> 0),
     p_multi_thread_streams = opt_int_col (r ! 18), p_buffer_size = sv_text (r ! 19), p_retries = opt_int_col (r ! 21),
     p_low_level_retries = opt_int_col (r ! 22), p_max_duration = sv_text (r ! 23), p_check_first = (sv_int (r ! 33) \<noteq> 0),
     p_order_by = sv_text (r ! 34), p_retries_sleep = sv_text (r ! 35),
     p_tps_limit = (if sv_is_null (r ! 36) then None else Some (sv_double (r ! 36))),
     p_conn_timeout = sv_text (r ! 37), p_io_timeout = sv_text (r ! 38), p_size_only = (sv_int (r ! 39) \<noteq> 0),
     p_update_mode = (sv_int (r ! 40) \<noteq> 0), p_ignore_existing = (sv_int (r ! 41) \<noteq> 0),
     p_delete_timing = sv_text (r ! 42), p_resilient = (sv_int (r ! 43) \<noteq> 0), p_max_lock = sv_text (r ! 44),
     p_check_access = (sv_int (r ! 45) \<noteq> 0), p_conflict_loser = sv_text (r ! 46),
     p_conflict_suffix = sv_text (r ! 47), p_fast_list = (sv_int (r ! 20) \<noteq> 0) \<rparr>"

definition list_profiles :: "store_env \<Rightarrow> store \<Rightarrow> (store_error, profile list) result \<times> store" where
  "list_profiles env st =
     run_query env (\<lambda>t. map (scan_profile env) (sort_key (\<lambda>r. sv_text (row_key r)) (tb_profiles t))) st"

definition get_profile :: "store_env \<Rightarrow> string \<Rightarrow> store \<Rightarrow> (store_error, profile) result \<times> store" where
  "get_profile env name st =
     query_one env (\<lambda>t. select_key (SqlText name) (tb_profiles t)) (scan_profile env) st"

definition saved_direction :: "string \<Rightarrow> string" where
  "saved_direction d = (let d' = trim_by (\<lambda>c. c \<in> {CHR '' '', CHR 0x09}) d in if d' = [] then DIRECTION_PUSH else d')"

text \<open>The profile is passed by reference: a valid direction is written back even if the statement fails.\<close>

definition save_profile :: "store_env \<Rightarrow> profile \<Rightarrow> store \<Rightarrow> (store_error, unit) result \<times> profile \<times> store" where
  "save_profile env p st =
     (if p_name p = [] then (Err (Invalid ''profile: name is required''), p, st)
      else if \<not> direction_is_valid (saved_direction (p_direction p))
      then (Err (Invalid (''profile: invalid direction '' @ p_direction p)), p, st)
      else let p' = p\<lparr>p_direction := saved_direction (p_direction p)\<rparr> in
        case exec_unit env (\<lambda>t. Some (t\<lparr>tb_profiles :=
               upsert (set_columns PROFILE_COLUMNS PROFILE_UPDATES) (profile_args env p') (tb_profiles t)\<rparr>)) st of
          (r, st') \<Rightarrow> (r, p', st'))"

definition delete_profile :: "store_env \<Rightarrow> string \<Rightarrow> store \<Rightarrow> (store_error, unit) result \<times> store" where
  "delete_profile env name st =
     delete_one env (\<lambda>t. case delete_where (\<lambda>r. row_key r = SqlText name) (tb_profiles t) of
       (n, tbl) \<Rightarrow> (n, t\<lparr>tb_profiles := tbl\<rparr>)) st"

section \<open>Migrations\<close>

text \<open>
  A migration is its version and the effect of its SQL (\<open>None\<close> for an empty text);
  \<open>migrate\<close> runs the list \<open>[(1, "")]\<close> after the schema.
\<close>

fun run_migrations :: "store_env \<Rightarrow> int \<Rightarrow> (int \<times> (tables \<Rightarrow> tables option) option) list \<Rightarrow> store \<Rightarrow>
    (store_error, unit) result \<times> store" where
  "run_migrations env current [] st = (Ok (), st)"
| "run_migrations env current ((version, sql) # ms) st =
     (if version > current then
        (case (case sql of None \<Rightarrow> (Ok (), st) | Some f \<Rightarrow> exec_unit env f st) of
           (Err e, st1) \<Rightarrow> (Err e, st1)
         | (Ok _, st1) \<Rightarrow>
             (case exec_unit env (\<lambda>t. Some (t\<lparr>tb_user_version := version\<rparr>)) st1 of
                (Err e, st2) \<Rightarrow> (Err e, st2)
              | (Ok _, st2) \<Rightarrow> run_migrations env version ms st2))
      else run_migrations env current ms st)"

definition apply_migrations :: "store_env \<Rightarrow> (int \<times> (tables \<Rightarrow> tables option) option) list \<Rightarrow> store \<Rightarrow>
    (store_error, unit) result \<times> store" where
  "apply_migrations env ms st =
     (case run_query env tb_user_version st of
        (Err e, st1) \<Rightarrow> (Err e, st1)
      | (Ok current, st1) \<Rightarrow> run_migrations env current ms st1)"

section \<open>Schedules\<close>

definition SCHEDULE_COLUMNS :: "string list" where
  "SCHEDULE_COLUMNS = [''id'', ''profile_name'', ''action'', ''cron_expr'', ''enabled'', ''last_run'', ''next_run'',
     ''last_result'', ''created_at'']"

definition SCHEDULE_UPDATES :: "string list" where
  "SCHEDULE_UPDATES = [''profile_name'', ''action'', ''cron_expr'', ''enabled'', ''last_run'', ''next_run'',
     ''last_result'']"

definition scan_schedule :: "row \<Rightarrow> schedule" where
  "scan_schedule r = \<lparr> sch_id = sv_text (r ! 0), sch_profile_name = sv_text (r ! 1), sch_action = sv_text (r ! 2),
     sch_cron = sv_text (r ! 3), sch_enabled = (sv_int (r ! 4) \<noteq> 0), sch_last_run = sv_text (r ! 5),
     sch_next_run = sv_text (r ! 6), sch_last_result = sv_text (r ! 7), sch_created_at = sv_text (r ! 8) \<rparr>"

definition schedule_args :: "store_env \<Rightarrow> schedule \<Rightarrow> row" where
  "schedule_args env s = [SqlText (sch_id s), SqlText (sch_profile_name s), SqlText (sch_action s),
     SqlText (sch_cron s), from_bool (sch_enabled s), text_or_null (sch_last_run s),
     text_or_null (sch_next_run s), SqlText (sch_last_result s), SqlText (sv_now env)]"

definition list_schedules :: "store_env \<Rightarrow> store \<Rightarrow> (store_error, schedule list) result \<times> store" where
  "list_schedules env st =
     run_query env (\<lambda>t. map scan_schedule (sort_desc (\<lambda>r. sv_text (r ! 8)) (tb_schedules t))) st"

definition save_schedule :: "store_env \<Rightarrow> schedule \<Rightarrow> store \<Rightarrow> (store_error, unit) result \<times> store" where
  "save_schedule env s st =
     (if sch_id s = [] then (Err (Invalid ''schedule: id is required''), st)
      else exec_unit env (\<lambda>t. Some (t\<lparr>tb_schedules :=
             upsert (set_columns SCHEDULE_COLUMNS SCHEDULE_UPDATES) (schedule_args env s) (tb_schedules t)\<rparr>)) st)"

definition delete_schedule :: "store_env \<Rightarrow> string \<Rightarrow> store \<Rightarrow> (store_error, unit) result \<times> store" where
  "delete_schedule env i st =
     delete_one env (\<lambda>t. case delete_where (\<lambda>r. row_key r = SqlText i) (tb_schedules t) of
       (n, tbl) \<Rightarrow> (n, t\<lparr>tb_schedules := tbl\<rparr>)) st"

section \<open>History\<close>

definition HISTORY_COLUMNS :: "string list" where
  "HISTORY_COLUMNS = [''id'', ''profile_name'', ''action'', ''status'', ''start_time'', ''end_time'', ''duration'',
     ''files_transferred'', ''bytes_transferred'', ''errors'', ''error_message'']"

definition HISTORY_UPDATES :: "string list" where
  "HISTORY_UPDATES = [''status'', ''end_time'', ''duration'', ''files_transferred'', ''bytes_transferred'', ''errors'',
     ''error_message'']"

definition scan_history :: "row \<Rightarrow> history_entry" where
  "scan_history r = \<lparr> h_id = sv_text (r ! 0), h_profile_name = sv_text (r ! 1), h_action = sv_text (r ! 2),
     h_state = sv_text (r ! 3), h_started_at = sv_text (r ! 4), h_finished_at = sv_text (r ! 5),
     h_duration = (case parse_i64 (sv_text (r ! 6)) of Some n \<Rightarrow> n | None \<Rightarrow> sv_int (r ! 6)),
     h_bytes = sv_int (r ! 8), h_errors = sv_int (r ! 9), h_files = sv_int (r ! 7),
     h_error_message = sv_text (r ! 10) \<rparr>"

definition history_args :: "history_entry \<Rightarrow> row" where
  "history_args e = [SqlText (h_id e), SqlText (h_profile_name e), SqlText (h_action e), SqlText (h_state e),
     SqlText (h_started_at e), SqlText (h_finished_at e), SqlText (show_int (h_duration e)), SqlInt (h_files e),
     SqlInt (h_bytes e), SqlInt (h_errors e), SqlText (h_error_message e)]"

text \<open>\<open>LIMIT ? OFFSET ?\<close>: a negative limit is no limit, a negative offset none.\<close>

definition limit_offset :: "int \<Rightarrow> int \<Rightarrow> 'a list \<Rightarrow> 'a list" where
  "limit_offset limit off rows =
     (let rest = drop (nat off) rows in if limit < 0 then rest else take (nat limit) rest)"

definition list_history :: "store_env \<Rightarrow> int \<Rightarrow> int \<Rightarrow> store \<Rightarrow> (store_error, history_entry list) result \<times> store" where
  "list_history env limit off st =
     run_query env (\<lambda>t. map scan_history (limit_offset limit off
       (sort_desc (\<lambda>r. sv_text (r ! 4)) (tb_history t)))) st"

definition list_history_for_profile ::
  "store_env \<Rightarrow> string \<Rightarrow> int \<Rightarrow> int \<Rightarrow> store \<Rightarrow> (store_error, history_entry list) result \<times> store" where
  "list_history_for_profile env profile limit off st =
     run_query env (\<lambda>t. map scan_history (limit_offset limit off
       (sort_desc (\<lambda>r. sv_text (r ! 4)) (filter (\<lambda>r. r ! 1 = SqlText profile) (tb_history t))))) st"

definition insert_history :: "store_env \<Rightarrow> history_entry \<Rightarrow> store \<Rightarrow> (store_error, unit) result \<times> store" where
  "insert_history env e st =
     (if h_id e = [] then (Err (Invalid ''history: id is required''), st)
      else exec_unit env (\<lambda>t. Some (t\<lparr>tb_history :=
             upsert (set_columns HISTORY_COLUMNS HISTORY_UPDATES) (history_args e) (tb_history t)\<rparr>)) st)"

definition clear_history :: "store_env \<Rightarrow> store \<Rightarrow> (store_error, unit) result \<times> store" where
  "clear_history env st = exec_unit env (\<lambda>t. Some (t\<lparr>tb_history := []\<rparr>)) st"

text \<open>\<open>SUM\<close> of integers: a running sum outside 64 bits fails the statement.\<close>

definition i64_range :: "int \<Rightarrow> bool" where
  "i64_range n \<longleftrightarrow> - (2 ^ 63) \<le> n \<and> n < 2 ^ 63"

fun sum_i64 :: "int \<Rightarrow> int list \<Rightarrow> int option" where
  "sum_i64 acc [] = Some acc"
| "sum_i64 acc (n # ns) = (if i64_range (acc + n) then sum_i64 (acc + n) ns else None)"

definition stats_of_rows :: "store_env \<Rightarrow> table \<Rightarrow> profile_stats option" where
  "stats_of_rows env rows =
     (case (sum_i64 0 (map (\<lambda>r. sv_int (r ! 8)) rows),
            sum_i64 0 (map (\<lambda>r. sv_cast env (sv_text (r ! 6))) rows),
            sum_i64 0 (map (\<lambda>r. sv_int (r ! 9)) rows)) of
        (Some bs, Some ds, Some es) \<Rightarrow>
          Some \<lparr> ps_syncs = int (length rows), ps_bytes = bs, ps_duration = ds, ps_errors = es \<rparr>
      | _ \<Rightarrow> None)"

text \<open>\<open>GROUP BY profile_name\<close>: one group for each name, in the order of the names.\<close>

fun group_stats :: "store_env \<Rightarrow> table \<Rightarrow> sql_value list \<Rightarrow> (string \<rightharpoonup> profile_stats) \<Rightarrow>
    (string \<rightharpoonup> profile_stats) option" where
  "group_stats env tbl [] m = Some m"
| "group_stats env tbl (name # names) m =
     (case stats_of_rows env (filter (\<lambda>r. r ! 1 = name) tbl) of
        None \<Rightarrow> None
      | Some s \<Rightarrow> group_stats env tbl names (m(sv_text name \<mapsto> s)))"

definition read_history_stats :: "store_env \<Rightarrow> store \<Rightarrow> (store_error, history_stats) result \<times> store" where
  "read_history_stats env st =
     (case run_query env (\<lambda>t. stats_of_rows env (tb_history t)) st of
        (Err e, st1) \<Rightarrow> (Err e, st1)
      | (Ok None, st1) \<Rightarrow> (Err (store_error_of (DbStep (sv_message env))), st1)
      | (Ok (Some s), st1) \<Rightarrow>
          (case run_query env (\<lambda>t. group_stats env (tb_history t)
                  (remdups (map (\<lambda>r. r ! 1) (tb_history t))) Map.empty) st1 of
             (Err e, st2) \<Rightarrow> (Err e, st2)
           | (Ok None, st2) \<Rightarrow> (Err (store_error_of (DbStep (sv_message env))), st2)
           | (Ok (Some m), st2) \<Rightarrow>
               (Ok \<lparr> hs_total_syncs = ps_syncs s, hs_total_bytes = ps_bytes s, hs_total_duration = ps_duration s,
                  hs_total_errors = ps_errors s, hs_by_profile = m \<rparr>, st2)))"

section \<open>Settings\<close>

definition get_setting :: "store_env \<Rightarrow> string \<Rightarrow> store \<Rightarrow> (store_error, string) result \<times> store" where
  "get_setting env key st =
     query_one env (\<lambda>t. select_key (SqlText key) (tb_settings t)) (\<lambda>r. sv_text (r ! 1)) st"

definition set_setting :: "store_env \<Rightarrow> string \<Rightarrow> string \<Rightarrow> store \<Rightarrow> (store_error, unit) result \<times> store" where
  "set_setting env key v st =
     exec_unit env (\<lambda>t. Some (t\<lparr>tb_settings :=
       upsert (set_columns [''key'', ''value''] [''value'']) [SqlText key, SqlText v] (tb_settings t)\<rparr>)) st"

definition get_setting_bool :: "store_env \<Rightarrow> string \<Rightarrow> bool \<Rightarrow> store \<Rightarrow> bool \<times> store" where
  "get_setting_bool env key dflt st =
     (case get_setting env key st of
        (Ok v, st') \<Rightarrow> (v = ''true'' \<or> v = ''1'', st') | (Err _, st') \<Rightarrow> (dflt, st'))"

section \<open>Boards\<close>

definition BOARD_COLUMNS :: "string list" where
  "BOARD_COLUMNS = [''id'', ''name'', ''created_at'', ''updated_at'', ''schedule_enabled'', ''cron_expr'']"

definition BOARD_UPDATES :: "string list" where
  "BOARD_UPDATES = [''name'', ''schedule_enabled'', ''cron_expr'', ''updated_at'']"

definition scan_board :: "row \<Rightarrow> board" where
  "scan_board r = \<lparr> b_id = sv_text (r ! 0), b_name = sv_text (r ! 1), b_created_at = sv_text (r ! 2),
     b_updated_at = sv_text (r ! 3), b_nodes = [], b_edges = [] \<rparr>"

definition board_args :: "store_env \<Rightarrow> board \<Rightarrow> row" where
  "board_args env bd = [SqlText (b_id bd), SqlText (b_name bd), SqlText (sv_now env), SqlText (sv_now env),
     SqlInt 0, SqlText []]"

text \<open>The rows of \<open>board_nodes\<close> and \<open>board_edges\<close>: id, board id, then the other columns.\<close>

definition node_row :: "string \<Rightarrow> board_node \<Rightarrow> row" where
  "node_row bid n = map stored [SqlText (bn_id n), SqlText bid, SqlText (bn_remote_name n), SqlText (bn_path n),
     SqlText (bn_label n), SqlDouble (bn_x n), SqlDouble (bn_y n)]"

definition edge_config_text :: "string \<Rightarrow> string" where
  "edge_config_text cfg = (if cfg = [] then ''{}'' else cfg)"

definition edge_row :: "string \<Rightarrow> board_edge \<Rightarrow> row" where
  "edge_row bid e = [SqlText (be_id e), SqlText bid, SqlText (be_source_id e), SqlText (be_target_id e),
     SqlText (be_action e), SqlText (edge_config_text (be_sync_config e))]"

definition scan_node :: "row \<Rightarrow> board_node" where
  "scan_node r = \<lparr> bn_id = sv_text (r ! 0), bn_remote_name = sv_text (r ! 2), bn_path = sv_text (r ! 3),
     bn_label = sv_text (r ! 4), bn_x = sv_double (r ! 5), bn_y = sv_double (r ! 6) \<rparr>"

definition scan_edge :: "row \<Rightarrow> board_edge" where
  "scan_edge r = \<lparr> be_id = sv_text (r ! 0), be_source_id = sv_text (r ! 2), be_target_id = sv_text (r ! 3),
     be_action = sv_text (r ! 4), be_sync_config = edge_config_text (sv_text (r ! 5)) \<rparr>"

text \<open>\<open>PRIMARY KEY (board_id, id)\<close> and \<open>NOT NULL\<close> on every column.\<close>

definition insert_child :: "row \<Rightarrow> table \<Rightarrow> table option" where
  "insert_child r tbl =
     (if list_ex (\<lambda>q. q ! 0 = r ! 0 \<and> q ! 1 = r ! 1) tbl \<or> list_ex sv_is_null r then None else Some (tbl @ [r]))"

definition list_boards :: "store_env \<Rightarrow> store \<Rightarrow> (store_error, board list) result \<times> store" where
  "list_boards env st =
     run_query env (\<lambda>t. map scan_board (sort_desc (\<lambda>r. sv_text (r ! 3)) (tb_boards t))) st"

definition get_board :: "store_env \<Rightarrow> string \<Rightarrow> store \<Rightarrow> (store_error, board) result \<times> store" where
  "get_board env i st = query_one env (\<lambda>t. select_key (SqlText i) (tb_boards t)) scan_board st"

definition children :: "string \<Rightarrow> table \<Rightarrow> table" where
  "children bid tbl = sort_key (\<lambda>r. sv_text (r ! 0)) (filter (\<lambda>r. r ! 1 = SqlText bid) tbl)"

definition load_board_graph :: "store_env \<Rightarrow> string \<Rightarrow> store \<Rightarrow> (store_error, board) result \<times> store" where
  "load_board_graph env i st =
     (case get_board env i st of
        (Err e, st1) \<Rightarrow> (Err e, st1)
      | (Ok bd, st1) \<Rightarrow>
          (case run_query env (\<lambda>t. map scan_node (children i (tb_nodes t))) st1 of
             (Err e, st2) \<Rightarrow> (Err e, st2)
           | (Ok ns, st2) \<Rightarrow>
               (case run_query env (\<lambda>t. map scan_edge (children i (tb_edges t))) st2 of
                  (Err e, st3) \<Rightarrow> (Err e, st3)
                | (Ok es, st3) \<Rightarrow> (Ok (bd\<lparr>b_nodes := ns, b_edges := es\<rparr>), st3))))"

text \<open>A loop of statements, left at the first error.\<close>

fun exec_all :: "('a \<Rightarrow> store \<Rightarrow> (store_error, unit) result \<times> store) \<Rightarrow> 'a list \<Rightarrow> store \<Rightarrow>
    (store_error, unit) result \<times> store" where
  "exec_all f [] st = (Ok (), st)"
| "exec_all f (x # xs) st =
     (case f x st of (Err e, st') \<Rightarrow> (Err e, st') | (Ok _, st') \<Rightarrow> exec_all f xs st')"

definition and_then :: "(store \<Rightarrow> (store_error, unit) result \<times> store) \<Rightarrow>
    (store \<Rightarrow> (store_error, unit) result \<times> store) \<Rightarrow> store \<Rightarrow> (store_error, unit) result \<times> store" where
  "and_then f g st = (case f st of (Err e, st') \<Rightarrow> (Err e, st') | (Ok _, st') \<Rightarrow> g st')"

definition upsert_board :: "store_env \<Rightarrow> board \<Rightarrow> tables \<Rightarrow> tables option" where
  "upsert_board env bd t = Some (t\<lparr>tb_boards :=
     upsert (set_columns BOARD_COLUMNS BOARD_UPDATES) (board_args env bd) (tb_boards t)\<rparr>)"

definition clear_nodes :: "string \<Rightarrow> tables \<Rightarrow> tables option" where
  "clear_nodes bid t = Some (t\<lparr>tb_nodes := filter (\<lambda>r. r ! 1 \<noteq> SqlText bid) (tb_nodes t)\<rparr>)"

definition clear_edges :: "string \<Rightarrow> tables \<Rightarrow> tables option" where
  "clear_edges bid t = Some (t\<lparr>tb_edges := filter (\<lambda>r. r ! 1 \<noteq> SqlText bid) (tb_edges t)\<rparr>)"

definition insert_node :: "string \<Rightarrow> board_node \<Rightarrow> tables \<Rightarrow> tables option" where
  "insert_node bid n t = map_option (\<lambda>tbl. t\<lparr>tb_nodes := tbl\<rparr>) (insert_child (node_row bid n) (tb_nodes t))"

definition insert_edge :: "string \<Rightarrow> board_edge \<Rightarrow> tables \<Rightarrow> tables option" where
  "insert_edge bid e t = map_option (\<lambda>tbl. t\<lparr>tb_edges := tbl\<rparr>) (insert_child (edge_row bid e) (tb_edges t))"

definition save_board_graph :: "store_env \<Rightarrow> board \<Rightarrow> store \<Rightarrow> (store_error, unit) result \<times> store" where
  "save_board_graph env bd =
     transaction env
       (and_then (exec_unit env (upsert_board env bd))
       (and_then (exec_unit env (clear_nodes (b_id bd)))
       (and_then (exec_all (\<lambda>n. exec_unit env (insert_node (b_id bd) n)) (b_nodes bd))
       (and_then (exec_unit env (clear_edges (b_id bd)))
                 (exec_all (\<lambda>e. exec_unit env (insert_edge (b_id bd) e)) (b_edges bd))))))"

text \<open>Nodes and edges go with their board (\<open>ON DELETE CASCADE\<close>).\<close>

definition delete_board :: "store_env \<Rightarrow> string \<Rightarrow> store \<Rightarrow> (store_error, unit) result \<times> store" where
  "delete_board env i st =
     delete_one env (\<lambda>t. case delete_where (\<lambda>r. row_key r = SqlText i) (tb_boards t) of
       (n, tbl) \<Rightarrow> (n, if n = 0 then t
         else t\<lparr>tb_boards := tbl, tb_nodes := filter (\<lambda>r. r ! 1 \<noteq> SqlText i) (tb_nodes t),
                tb_edges := filter (\<lambda>r. r ! 1 \<noteq> SqlText i) (tb_edges t)\<rparr>)) st"

section \<open>Flows\<close>

definition FLOW_COLUMNS :: "string list" where
  "FLOW_COLUMNS = [''id'', ''name'', ''is_collapsed'', ''schedule_enabled'', ''cron_expr'', ''sort_order'',
     ''created_at'', ''updated_at'', ''canvas_json'']"

definition FLOW_UPDATES :: "string list" where
  "FLOW_UPDATES = [''name'', ''is_collapsed'', ''schedule_enabled'', ''cron_expr'', ''sort_order'', ''updated_at'',
     ''canvas_json'']"

definition canvas_or_empty :: "string \<Rightarrow> string" where
  "canvas_or_empty c = (if c = [] then ''{}'' else c)"

definition scan_flow :: "row \<Rightarrow> flow" where
  "scan_flow r = \<lparr> f_id = sv_text (r ! 0), f_name = sv_text (r ! 1), f_is_collapsed = (sv_int (r ! 2) \<noteq> 0),
     f_schedule_enabled = (sv_int (r ! 3) \<noteq> 0), f_schedule_cron = sv_text (r ! 4), f_sort_order = sv_int (r ! 5),
     f_operations = [], f_canvas_json = canvas_or_empty (sv_text (r ! 8)), f_created_at = sv_text (r ! 6),
     f_updated_at = sv_text (r ! 7) \<rparr>"

text \<open>\<open>COALESCE(NULLIF(created_at, ''), datetime('now'))\<close>.\<close>

definition flow_args :: "store_env \<Rightarrow> flow \<Rightarrow> row" where
  "flow_args env f = [SqlText (f_id f), SqlText (f_name f), from_bool (f_is_collapsed f),
     from_bool (f_schedule_enabled f), SqlText (f_schedule_cron f), SqlInt (f_sort_order f),
     SqlText (if f_created_at f = [] then sv_now env else f_created_at f), SqlText (sv_now env),
     SqlText (canvas_or_empty (f_canvas_json f))]"

definition parse_config :: "store_env \<Rightarrow> string \<Rightarrow> json_dict" where
  "parse_config env cfg =
     (if cfg = [] then [] else case sv_parse env cfg of Some (JObject d) \<Rightarrow> d | _ \<Rightarrow> [])"

definition scan_operation :: "store_env \<Rightarrow> row \<Rightarrow> flow_operation" where
  "scan_operation env r = normalize_action \<lparr> op_id = sv_text (r ! 0), op_flow_id = sv_text (r ! 1),
     op_source_remote = sv_text (r ! 2), op_source_path = sv_text (r ! 3), op_target_remote = sv_text (r ! 4),
     op_target_path = sv_text (r ! 5), op_action = sv_text (r ! 6),
     op_sync_config = parse_config env (sv_text (r ! 7)), op_is_expanded = (sv_int (r ! 8) \<noteq> 0),
     op_sort_order = sv_int (r ! 9) \<rparr>"

definition list_operations :: "store_env \<Rightarrow> string \<Rightarrow> store \<Rightarrow> (store_error, flow_operation list) result \<times> store" where
  "list_operations env fid st =
     run_query env (\<lambda>t. map (scan_operation env) (sort_key (\<lambda>r. sv_int (r ! 9))
       (sort_key (\<lambda>r. sv_text (r ! 0)) (filter (\<lambda>r. r ! 1 = SqlText fid) (tb_operations t))))) st"

fun load_operations :: "store_env \<Rightarrow> flow list \<Rightarrow> store \<Rightarrow> (store_error, flow list) result \<times> store" where
  "load_operations env [] st = (Ok [], st)"
| "load_operations env (f # fs) st =
     (case list_operations env (f_id f) st of
        (Err e, st1) \<Rightarrow> (Err e, st1)
      | (Ok ops, st1) \<Rightarrow>
          (case load_operations env fs st1 of
             (Err e, st2) \<Rightarrow> (Err e, st2)
           | (Ok gs, st2) \<Rightarrow> (Ok (f\<lparr>f_operations := ops\<rparr> # gs), st2)))"

definition list_flows :: "store_env \<Rightarrow> store \<Rightarrow> (store_error, flow list) result \<times> store" where
  "list_flows env st =
     (case run_query env (\<lambda>t. map scan_flow (sort_key (\<lambda>r. sv_int (r ! 5))
             (sort_key (\<lambda>r. sv_text (r ! 1)) (tb_flows t)))) st of
        (Err e, st1) \<Rightarrow> (Err e, st1)
      | (Ok fs, st1) \<Rightarrow> load_operations env fs st1)"

definition get_flow :: "store_env \<Rightarrow> string \<Rightarrow> store \<Rightarrow> (store_error, flow) result \<times> store" where
  "get_flow env i st =
     (case query_one env (\<lambda>t. select_key (SqlText i) (tb_flows t)) scan_flow st of
        (Err e, st1) \<Rightarrow> (Err e, st1)
      | (Ok f, st1) \<Rightarrow>
          (case list_operations env (f_id f) st1 of
             (Err e, st2) \<Rightarrow> (Err e, st2)
           | (Ok ops, st2) \<Rightarrow> (Ok (f\<lparr>f_operations := ops\<rparr>), st2)))"

text \<open>The operation as \<open>save_flow\<close> rewrites it, and its row.\<close>

definition prepared_op :: "string \<Rightarrow> nat \<Rightarrow> flow_operation \<Rightarrow> flow_operation" where
  "prepared_op fid idx src =
     normalize_action (src\<lparr>op_flow_id := fid,
       op_sort_order := (if op_sort_order src = 0 then int idx else op_sort_order src)\<rparr>)"

definition path_or_root :: "string \<Rightarrow> string" where
  "path_or_root p = (if p = [] then ''/'' else p)"

definition op_row :: "store_env \<Rightarrow> string \<Rightarrow> flow_operation \<Rightarrow> row" where
  "op_row env fid op = [SqlText (op_id op), SqlText fid, SqlText (op_source_remote op),
     SqlText (path_or_root (op_source_path op)), SqlText (op_target_remote op),
     SqlText (path_or_root (op_target_path op)), SqlText (op_action op),
     SqlText (sv_dict_json env (op_sync_config op)), from_bool (op_is_expanded op), SqlInt (op_sort_order op)]"

definition upsert_flow :: "store_env \<Rightarrow> flow \<Rightarrow> tables \<Rightarrow> tables option" where
  "upsert_flow env f t = Some (t\<lparr>tb_flows :=
     upsert (set_columns FLOW_COLUMNS FLOW_UPDATES) (flow_args env f) (tb_flows t)\<rparr>)"

definition clear_operations :: "string \<Rightarrow> tables \<Rightarrow> tables option" where
  "clear_operations fid t = Some (t\<lparr>tb_operations := filter (\<lambda>r. r ! 1 \<noteq> SqlText fid) (tb_operations t)\<rparr>)"

text \<open>\<open>id TEXT PRIMARY KEY\<close>: an operation id is unique over all flows.\<close>

definition insert_operation :: "row \<Rightarrow> tables \<Rightarrow> tables option" where
  "insert_operation r t =
     (if select_key (row_key r) (tb_operations t) \<noteq> None then None
      else Some (t\<lparr>tb_operations := tb_operations t @ [r]\<rparr>))"

definition save_operation :: "store_env \<Rightarrow> string \<Rightarrow> nat \<times> flow_operation \<Rightarrow> store \<Rightarrow>
    (store_error, unit) result \<times> store" where
  "save_operation env fid io st =
     (case io of (idx, src) \<Rightarrow>
        if op_id src = [] then (Err (Invalid ''flow: operation id is required''), st)
        else exec_unit env (insert_operation (op_row env fid (prepared_op fid idx src))) st)"

definition save_flow :: "store_env \<Rightarrow> flow \<Rightarrow> store \<Rightarrow> (store_error, unit) result \<times> store" where
  "save_flow env f st =
     (if f_id f = [] then (Err (Invalid ''flow: id is required''), st)
      else transaction env
        (and_then (exec_unit env (upsert_flow env f))
        (and_then (exec_unit env (clear_operations (f_id f)))
                  (exec_all (save_operation env (f_id f)) (enumerate 0 (f_operations f))))) st)"

definition delete_flow :: "store_env \<Rightarrow> string \<Rightarrow> store \<Rightarrow> (store_error, unit) result \<times> store" where
  "delete_flow env i st =
     delete_one env (\<lambda>t. case delete_where (\<lambda>r. row_key r = SqlText i) (tb_flows t) of
       (n, tbl) \<Rightarrow> (n, if n = 0 then t
         else t\<lparr>tb_flows := tbl, tb_operations := filter (\<lambda>r. r ! 1 \<noteq> SqlText i) (tb_operations t)\<rparr>)) st"

section \<open>Delta state\<close>

definition DELTA_COLUMNS :: "string list" where
  "DELTA_COLUMNS = [''remote_key'', ''provider'', ''last_full_sync'', ''delta_count'', ''is_watching'']"

definition DELTA_UPDATES :: "string list" where
  "DELTA_UPDATES = [''last_full_sync'', ''delta_count'', ''is_watching'']"

definition scan_delta :: "row \<Rightarrow> delta_state" where
  "scan_delta r = \<lparr> d_remote_key = sv_text (r ! 0), d_provider = sv_text (r ! 1), d_last_full_sync = sv_text (r ! 2),
     d_delta_count = sv_int (r ! 3), d_is_watching = (sv_int (r ! 4) \<noteq> 0) \<rparr>"

definition get_delta_state :: "store_env \<Rightarrow> string \<Rightarrow> store \<Rightarrow> (store_error, delta_state) result \<times> store" where
  "get_delta_state env k st = query_one env (\<lambda>t. select_key (SqlText k) (tb_delta t)) scan_delta st"

definition record_full_sync :: "store_env \<Rightarrow> string \<Rightarrow> string \<Rightarrow> store \<Rightarrow> (store_error, unit) result \<times> store" where
  "record_full_sync env k provider st =
     exec_unit env (\<lambda>t. Some (t\<lparr>tb_delta :=
       upsert (set_columns DELTA_COLUMNS DELTA_UPDATES)
         [SqlText k, SqlText provider, SqlText (sv_clock env), SqlInt 0, SqlInt 0] (tb_delta t)\<rparr>)) st"


end
