(* ===== verification/Container.thy ===== *)
theory Container
  imports Board RuntimeHub Auth Store
begin

text \<open>
  \<open>crates/gn-drive-core/src/container.rs\<close>: the wiring of authentication, engines and the data
  plane (store and rclone client). The code shares one store between the container and the
  engines; here the engines hold the read functions of the store's current value, and every
  change of the store goes through \<open>set_store\<close>, which renews them. What opening the database and
  finding rclone answer is an argument. \<open>app_bus\<close> lists what the container and the dispatcher
  publish.
\<close>

section \<open>Data\<close>

datatype app_error = AppLocked | RcloneMissing rclone_error | AppAuth auth_error | AppStore store_error | AppIo string

record 'k app_env =
  en_auth :: "'k auth_env"
  en_store :: store_env
  en_clock :: clock
  en_dash :: string \<comment> \<open>the em dash and its spaces in some messages\<close>
  en_uuid :: "nat \<Rightarrow> string" \<comment> \<open>fresh ids, upper case\<close>

text \<open>A thread that a request spawned, with what it was given to run.\<close>

datatype app_thread =
    FlowThread flow_worker
  | SyncThread string string profile \<comment> \<open>task, action\<close>
  | BoardThread string string bool board \<comment> \<open>board id, run id, stop on error\<close>

record 'k app =
  app_auth :: "'k auth_world"
  app_sync :: sync_engine
  app_board :: board_engine
  app_flow :: flow_engine
  app_hub :: hub_state
  app_store :: "store option"
  app_rclone :: bool \<comment> \<open>an rclone client is there\<close>
  app_bus :: "bus_event list"
  app_closed :: bool
  app_ids :: nat \<comment> \<open>fresh ids handed out\<close>
  app_threads :: "app_thread list"

text \<open>What an engine sees of the store.\<close>

definition engine_view :: "store_env \<Rightarrow> store \<Rightarrow> engine_store" where
  "engine_view env st = \<lparr> es_get_profile = (\<lambda>n. fst (get_profile env n st)),
     es_list_schedules = fst (list_schedules env st), es_list_flows = fst (list_flows env st) \<rparr>"

definition board_view :: "store_env \<Rightarrow> store \<Rightarrow> string \<Rightarrow> (store_error, board) result" where
  "board_view env st i = fst (load_board_graph env i st)"

definition flow_view :: "store_env \<Rightarrow> store \<Rightarrow> get_flow_fn" where
  "flow_view env st i = fst (get_flow env i st)"

definition set_store :: "'k app_env \<Rightarrow> store \<Rightarrow> 'k app \<Rightarrow> 'k app" where
  "set_store env st a = a\<lparr>app_store := Some st,
     app_sync := (app_sync a)\<lparr>se_store := map_option (\<lambda>_. engine_view (en_store env) st) (se_store (app_sync a))\<rparr>,
     app_board := (app_board a)\<lparr>eng_store := map_option (\<lambda>_. board_view (en_store env) st) (eng_store (app_board a))\<rparr>,
     app_flow := (app_flow a)\<lparr>fe_source := map_option (\<lambda>_. flow_view (en_store env) st) (fe_source (app_flow a))\<rparr>\<rparr>"

definition publish_bus :: "bus_event \<Rightarrow> 'k app \<Rightarrow> 'k app" where
  "publish_bus e a = (if app_closed a then a else a\<lparr>app_bus := app_bus a @ [e]\<rparr>)"

section \<open>The data plane\<close>

definition is_setup :: "'k auth_world \<Rightarrow> bool" where "is_setup w \<longleftrightarrow> ad_enabled (aw_data w)"
definition is_unlocked :: "'k auth_world \<Rightarrow> bool" where "is_unlocked w \<longleftrightarrow> st_unlocked (aw_state w)"

definition can_open_data_plane :: "'k auth_world \<Rightarrow> bool" where
  "can_open_data_plane w \<longleftrightarrow> \<not> is_setup w \<or> is_unlocked w \<or> \<not> has_encrypted_config (aw_dir w)"

text \<open>
  \<open>opened\<close> is what \<open>Store::open\<close> answers, \<open>rclone\<close> the error of finding rclone, if any. The engines
  are attached in order; attaching the sync engine may panic while it computes a fire time, with
  the store already in place.
\<close>

definition open_data_plane :: "'k app_env \<Rightarrow> (store_error, store) result \<Rightarrow> rclone_error option \<Rightarrow> int \<Rightarrow> 'k app \<Rightarrow>
    ((app_error, unit) result \<times> 'k app) outcome" where
  "open_data_plane env opened rclone now a =
     (if app_store a \<noteq> None then Returns (Ok (), a)
      else case opened of
        Err e \<Rightarrow> Returns (Err (AppStore e), a)
      | Ok st \<Rightarrow>
          (case rclone of
             Some e \<Rightarrow> Returns (Err (RcloneMissing e), a)
           | None \<Rightarrow>
               (case engine_attach (en_clock env) now (engine_view (en_store env) st) (app_sync a) of
                  Panics \<Rightarrow> Panics
                | Returns se \<Rightarrow>
                    Returns (Ok (), a\<lparr>app_store := Some st, app_rclone := True, app_sync := se,
                      app_board := board_attach (board_view (en_store env) st) (app_board a),
                      app_flow := flow_attach (flow_view (en_store env) st) (app_flow a)\<rparr>))))"

definition before_lock :: "'k app \<Rightarrow> 'k app" where
  "before_lock a = a\<lparr>app_sync := engine_detach (app_sync a), app_board := board_detach (app_board a),
     app_flow := flow_detach (app_flow a), app_hub := hub_reset (app_hub a), app_store := None, app_rclone := False\<rparr>"

definition app_close :: "'k app_env \<Rightarrow> (string \<Rightarrow> byte list) \<Rightarrow> int \<Rightarrow> 'k app \<Rightarrow> 'k app" where
  "app_close env nonce now a =
     (let a1 = before_lock (a\<lparr>app_sync := stop_harvest (stop_signal (app_sync a)), app_closed := True\<rparr>)
      in a1\<lparr>app_auth := auth_suspend (en_auth env) nonce now (app_auth a1)\<rparr>)"

section \<open>Construction\<close>

definition app_wired :: "'k auth_world \<Rightarrow> 'k app" where
  "app_wired w = \<lparr> app_auth = w, app_sync = set_flow_executor engine_new, app_board = \<lparr> eng_store = None, eng_sync = False, eng_runs = Map.empty \<rparr>,
     app_flow = flow_engine_new, app_hub = hub_new, app_store = None, app_rclone = False, app_bus = [],
     app_closed = False, app_ids = 0, app_threads = [] \<rparr>"

definition app_new :: "'k app_env \<Rightarrow> bool \<Rightarrow> string \<Rightarrow> (store_error, store) result \<Rightarrow> rclone_error option \<Rightarrow>
    int \<Rightarrow> int \<Rightarrow> dir_state \<Rightarrow> 'k \<Rightarrow> (app_error, 'k app) result outcome" where
  "app_new env portal password opened rclone now now' d ks =
     (let w = auth_new (en_auth env) d ks in
      case (if password = [] then (Ok (), w) else unlock (en_auth env) now now' password w) of
        (Err e, w1) \<Rightarrow> Returns (Err (AppAuth e))
      | (Ok _, w1) \<Rightarrow>
          if \<not> portal \<and> is_setup w1 \<and> \<not> is_unlocked w1 then Returns (Err AppLocked)
          else if can_open_data_plane w1 then
            (case open_data_plane env opened rclone now (app_wired w1) of
               Panics \<Rightarrow> Panics
             | Returns (Err e, a) \<Rightarrow> Returns (Err e)
             | Returns (Ok _, a) \<Rightarrow> Returns (Ok a))
          else Returns (Ok (app_wired w1)))"

section \<open>The data plane is whole\<close>

text \<open>Store, client and the three engines come and go together, and the engines see the store.\<close>

definition plane_ok :: "'k app_env \<Rightarrow> 'k app \<Rightarrow> bool" where
  "plane_ok env a \<longleftrightarrow>
     (case app_store a of
        None \<Rightarrow> \<not> app_rclone a \<and> se_store (app_sync a) = None \<and> \<not> se_client (app_sync a) \<and>
          eng_store (app_board a) = None \<and> \<not> eng_sync (app_board a) \<and> fe_source (app_flow a) = None
      | Some st \<Rightarrow> app_rclone a \<and> se_store (app_sync a) = Some (engine_view (en_store env) st) \<and> se_client (app_sync a) \<and>
          eng_store (app_board a) = Some (board_view (en_store env) st) \<and> eng_sync (app_board a) \<and>
          fe_source (app_flow a) = Some (flow_view (en_store env) st))"

definition same_plane :: "sync_engine \<Rightarrow> sync_engine \<Rightarrow> bool" where
  "same_plane e e' \<longleftrightarrow> se_store e' = se_store e \<and> se_client e' = se_client e"

lemma same_plane_trans: "same_plane a b \<Longrightarrow> same_plane b c \<Longrightarrow> same_plane a c"
  by (simp add: same_plane_def)

lemma same_plane_add_cron: "add_cron ck now i cron h e = Returns e' \<Longrightarrow> same_plane e e'"
  by (auto simp: add_cron_def same_plane_def split: sum.splits outcome.splits prod.splits)

lemma same_plane_unregister: "same_plane e (unregister_schedule i e)"
  by (simp add: unregister_schedule_def same_plane_def)

lemma same_plane_register: "register_schedule ck now sch e = Returns e' \<Longrightarrow> same_plane e e'"
  by (auto simp: register_schedule_def Let_def split: if_splits
      intro: same_plane_unregister same_plane_trans [OF same_plane_unregister] same_plane_add_cron)

lemma same_plane_flow_schedule: "sync_flow_schedule ck now f e = Returns e' \<Longrightarrow> same_plane e e'"
  by (auto simp: sync_flow_schedule_def Let_def split: if_splits
      intro: same_plane_unregister same_plane_trans [OF same_plane_unregister] same_plane_add_cron)
    (simp add: same_plane_def)

lemma same_plane_fold:
  assumes "\<And>x e e'. f x e = Returns e' \<Longrightarrow> same_plane e e'"
  shows "fold_outcome f xs e = Returns e' \<Longrightarrow> same_plane e e'"
proof (induction xs arbitrary: e)
  case Nil
  then show ?case by (simp add: same_plane_def)
next
  case (Cons x xs)
  then show ?case by (auto split: outcome.splits intro: same_plane_trans assms)
qed

lemma same_plane_refl [simp]: "same_plane e e"
  by (simp add: same_plane_def)

lemma same_plane_load:
  assumes "load_schedules ck now e = Returns e'"
  shows "same_plane e e'"
proof (cases "se_store e")
  case None
  then show ?thesis using assms by (simp add: load_schedules_def)
next
  case (Some s)
  define first where "first = (case es_list_schedules s of
    Ok schs \<Rightarrow> fold_outcome (register_schedule ck now) schs e | Err _ \<Rightarrow> Returns e)"
  obtain e1 where e1: "first = Returns e1"
    and rest: "(case es_list_flows s of Ok fs \<Rightarrow> fold_outcome (sync_flow_schedule ck now) fs e1 | Err _ \<Rightarrow> Returns e1) = Returns e'"
    using assms Some by (auto simp: load_schedules_def first_def split: outcome.splits)
  have "same_plane e e1"
    using e1 unfolding first_def
    by (cases "es_list_schedules s") (auto intro: same_plane_fold same_plane_register)
  moreover have "same_plane e1 e'"
    using rest by (cases "es_list_flows s") (auto intro: same_plane_fold same_plane_flow_schedule)
  ultimately show ?thesis by (rule same_plane_trans)
qed

lemma attach_plane: "engine_attach ck now s e = Returns e' \<Longrightarrow> se_store e' = Some s \<and> se_client e'"
  by (auto simp: engine_attach_def Let_def same_plane_def split: if_splits dest!: same_plane_load)

lemma plane_wired: "plane_ok env (app_wired w)"
  by (simp add: plane_ok_def app_wired_def set_flow_executor_def engine_new_def flow_engine_new_def)

lemma plane_before_lock [intro]: "plane_ok env (before_lock a)"
  by (simp add: plane_ok_def before_lock_def engine_detach_def board_detach_def flow_detach_def)

lemma plane_open:
  assumes "open_data_plane env opened rclone now a = Returns (r, a')" "plane_ok env a"
  shows "plane_ok env a' \<and> (r = Ok () \<longrightarrow> app_store a' \<noteq> None) \<and> app_auth a' = app_auth a"
proof (cases "app_store a")
  case (Some st)
  then show ?thesis using assms by (auto simp: open_data_plane_def)
next
  case None
  then show ?thesis using assms
    by (auto simp: open_data_plane_def plane_ok_def board_attach_def flow_attach_def split: sum.splits option.splits
        outcome.splits dest: attach_plane)
qed

lemma plane_set_store: "plane_ok env a \<Longrightarrow> app_store a \<noteq> None \<Longrightarrow> plane_ok env (set_store env st a)"
  by (auto simp: plane_ok_def set_store_def)

lemma plane_publish [simp]: "plane_ok env (publish_bus e a) \<longleftrightarrow> plane_ok env a"
  by (auto simp: plane_ok_def publish_bus_def split: option.split)

lemma plane_auth [simp]: "plane_ok env (a\<lparr>app_auth := w\<rparr>) \<longleftrightarrow> plane_ok env a"
  by (auto simp: plane_ok_def split: option.split)

lemma plane_close: "plane_ok env (app_close env nonce now a)"
  by (simp add: app_close_def Let_def plane_before_lock)

lemma plane_new:
  assumes "app_new env portal password opened rclone now now' d ks = Returns (Ok a)"
  shows "plane_ok env a"
proof -
  obtain w where "a = app_wired w \<or> open_data_plane env opened rclone now (app_wired w) = Returns (Ok (), a)"
    using assms by (fastforce simp: app_new_def Let_def split: prod.splits sum.splits if_splits outcome.splits)
  then show ?thesis using plane_wired plane_open [OF _ plane_wired] by blast
qed

end
