(* ===== verification/Redact.thy ===== *)
theory Redact
  imports Tracker "HOL-Library.Sublist"
begin

text \<open>
  \<open>crates/gn-drive-core/src/rpc/error.rs\<close>, first half: the scanners that take credentials out of a
  text before a client sees it. They run over the UTF-8 bytes of the text and compare with ASCII
  only, so a character beyond ASCII is never part of a key, a separator or a stop, and the
  scanners are the same over characters. A matcher looks at the text from one position on and
  answers how long the kept part is and how long the whole match.
\<close>

section \<open>Matchers\<close>

definition ascii_lower :: "char \<Rightarrow> char" where
  "ascii_lower c = (let n = (of_char c :: nat) in if 65 \<le> n \<and> n \<le> 90 then char_of (n + 32) else c)"

definition starts_with_ci :: "string \<Rightarrow> string \<Rightarrow> bool" where
  "starts_with_ci b kw \<longleftrightarrow> length kw \<le> length b \<and> map ascii_lower (take (length kw) b) = map ascii_lower kw"

definition is_space :: "char \<Rightarrow> bool" where
  "is_space c \<longleftrightarrow> (let n = (of_char c :: nat) in n = 32 \<or> (9 \<le> n \<and> n \<le> 13))"

definition skip_space :: "string \<Rightarrow> string" where
  "skip_space b = dropWhile is_space b"

definition KEYWORDS_1 :: "string list" where
  "KEYWORDS_1 = [''password'', ''pass'', ''token'', ''secret'', ''client_secret'', ''config_token'']"

definition KEYWORDS_2 :: "string list" where
  "KEYWORDS_2 = [''password'', ''pass'', ''token'', ''secret'', ''key'', ''client_secret'', ''config_token'']"

definition kv_separator :: "char \<Rightarrow> bool" where
  "kv_separator c \<longleftrightarrow> c = CHR ''='' \<or> c = CHR '':''"

definition kv_value :: "char \<Rightarrow> bool" where
  "kv_value c \<longleftrightarrow> \<not> is_space c \<and> c \<notin> {CHR '','', CHR '';'', CHR 0x22, CHR 0x27, CHR 0x7D}"

text \<open>One round of a matcher's loop over the keywords: the rest of the text after the match.\<close>

definition kv_rest :: "string \<Rightarrow> string \<Rightarrow> string option" where
  "kv_rest b kw =
     (if \<not> starts_with_ci b kw then None
      else case skip_space (drop (length kw) b) of
             [] \<Rightarrow> None
           | c # r \<Rightarrow>
               if \<not> kv_separator c then None
               else let v = skip_space r in
                 if takeWhile kv_value v = [] then None else Some (dropWhile kv_value v))"

fun first_keyword :: "(string \<Rightarrow> string \<Rightarrow> 'a option) \<Rightarrow> string list \<Rightarrow> string \<Rightarrow> (string \<times> 'a) option" where
  "first_keyword f [] b = None"
| "first_keyword f (kw # kws) b = (case f b kw of Some r \<Rightarrow> Some (kw, r) | None \<Rightarrow> first_keyword f kws b)"

definition match_kv :: "string \<Rightarrow> (nat \<times> nat) option" where
  "match_kv b = (case first_keyword kv_rest (KEYWORDS_1 @ [''access_token'']) b of
     None \<Rightarrow> None | Some (kw, rest) \<Rightarrow> Some (length kw, length b - length rest))"

definition is_quote :: "char \<Rightarrow> bool" where
  "is_quote c \<longleftrightarrow> c = CHR 0x22 \<or> c = CHR 0x27"

text \<open>The value with its quotes, and what follows it.\<close>

definition json_rest :: "string \<Rightarrow> string \<Rightarrow> (string \<times> string) option" where
  "json_rest b kw =
     (if \<not> starts_with_ci b kw then None
      else case drop (length kw) b of
             [] \<Rightarrow> None
           | q # r \<Rightarrow>
               if \<not> is_quote q then None
               else case skip_space r of
                      [] \<Rightarrow> None
                    | c # r2 \<Rightarrow>
                        if c \<noteq> CHR '':'' then None
                        else case skip_space r2 of
                               [] \<Rightarrow> None
                             | q2 # v \<Rightarrow>
                                 if \<not> is_quote q2 then None
                                 else case dropWhile (\<lambda>c. \<not> is_quote c) v of
                                        [] \<Rightarrow> None | _ # rest \<Rightarrow> Some (q2 # v, rest))"

definition match_json_kv :: "string \<Rightarrow> (nat \<times> nat) option" where
  "match_json_kv b =
     (case b of
        [] \<Rightarrow> None
      | q # s \<Rightarrow>
          if \<not> is_quote q then None
          else case first_keyword json_rest (KEYWORDS_2 @ [''access_token'']) s of
                 None \<Rightarrow> None
               | Some (_, v, rest) \<Rightarrow> Some (length b - length v, length b - length rest))"

definition is_flag_char :: "char \<Rightarrow> bool" where
  "is_flag_char c \<longleftrightarrow> (let n = (of_char c :: nat) in
     (48 \<le> n \<and> n \<le> 57) \<or> (65 \<le> n \<and> n \<le> 90) \<or> (97 \<le> n \<and> n \<le> 122) \<or> c = CHR ''_'' \<or> c = CHR ''-'')"

fun has_window :: "string \<Rightarrow> string \<Rightarrow> bool" where
  "has_window w [] \<longleftrightarrow> False"
| "has_window w (c # cs) \<longleftrightarrow> starts_with_ci (c # cs) w \<or> has_window w cs"

definition eq_ci :: "string \<Rightarrow> string \<Rightarrow> bool" where
  "eq_ci a b \<longleftrightarrow> map ascii_lower a = map ascii_lower b"

definition match_flag :: "string \<Rightarrow> (nat \<times> nat) option" where
  "match_flag b =
     (if \<not> starts_with ''--'' b then None
      else let name = takeWhile is_flag_char (drop 2 b); e = 2 + length name; rest = drop e b in
        if \<not> (has_window ''key'' name \<or> list_ex (eq_ci name) [''password'', ''token'', ''secret'']) then None
        else case skip_space rest of
               [] \<Rightarrow> None
             | c # v \<Rightarrow>
                 if length (c # v) = length rest \<or> c = CHR ''-'' then None
                 else Some (e, length b - length (dropWhile (\<lambda>c. \<not> is_space c) (c # v))))"

section \<open>Replacement\<close>

text \<open>The fuel is the length of the text: every round consumes at least one character.\<close>

fun replace_loop :: "(string \<Rightarrow> (nat \<times> nat) option) \<Rightarrow> nat \<Rightarrow> string \<Rightarrow> string" where
  "replace_loop m n [] = []"
| "replace_loop m 0 (c # cs) = c # cs"
| "replace_loop m (Suc n) (c # cs) =
     (case m (c # cs) of
        None \<Rightarrow> c # replace_loop m n cs
      | Some (g, e) \<Rightarrow> take g (c # cs) @ ''=***'' @ replace_loop m n (drop e (c # cs)))"

definition replace_all :: "(string \<Rightarrow> (nat \<times> nat) option) \<Rightarrow> string \<Rightarrow> string" where
  "replace_all m b = replace_loop m (length b) b"

definition sanitize :: "string \<Rightarrow> string" where
  "sanitize txt = replace_all match_flag (replace_all match_json_kv (replace_all match_kv txt))"

section \<open>Matchers that move on\<close>

text \<open>What \<open>replace_all\<close> relies on: a match is not empty, lies in the text and keeps a part of itself.\<close>

locale matcher =
  fixes m :: "string \<Rightarrow> (nat \<times> nat) option"
  assumes match_bounds: "m b = Some (g, e) \<Longrightarrow> g < e \<and> e \<le> length b"
begin

lemma loop_fuel: "length b \<le> n \<Longrightarrow> replace_loop m n b = replace_loop m (length b) b"
proof (induction "length b" arbitrary: b n rule: less_induct)
  case less
  show ?case
  proof (cases b)
    case (Cons c cs)
    then obtain k where n: "n = Suc k" using less.prems by (cases n) auto
    have tl: "replace_loop m k cs = replace_loop m (length cs) cs"
      using less.hyps [of cs k] less.prems Cons n by simp
    have rest: "replace_loop m k (drop e b) = replace_loop m (length cs) (drop e b)" if "m b = Some (g, e)" for g e
    proof -
      have e: "0 < e" "e \<le> length b" using match_bounds [OF that] by simp_all
      then have "length (drop e b) < length b" "length (drop e b) \<le> k" "length (drop e b) \<le> length cs"
        using less.prems n Cons by simp_all
      then show ?thesis using less.hyps [of "drop e b" k] less.hyps [of "drop e b" "length cs"] by simp
    qed
    show ?thesis using tl rest by (auto simp: Cons n split: option.split)
  qed simp
qed

lemma replace_Nil [simp]: "replace_all m [] = []"
  by (simp add: replace_all_def)

lemma replace_Cons:
  "replace_all m (c # cs) = (case m (c # cs) of
      None \<Rightarrow> c # replace_all m cs
    | Some (g, e) \<Rightarrow> take g (c # cs) @ ''=***'' @ replace_all m (drop e (c # cs)))"
proof (cases "m (c # cs)")
  case (Some ge)
  then obtain g e where ge: "m (c # cs) = Some (g, e)" by (cases ge) auto
  then have "0 < e" using match_bounds [OF ge] by simp
  then have "length (drop e (c # cs)) \<le> length cs" by (cases e) auto
  from loop_fuel [OF this] show ?thesis using ge by (simp add: replace_all_def)
qed (simp add: replace_all_def)

text \<open>A text is its own redaction, or is redacted at its first match and then from its end on.\<close>

lemma replace_split:
  "(\<forall>i. m (drop i b) = None) \<and> replace_all m b = b \<or>
   (\<exists>s g e. s < length b \<and> m (drop s b) = Some (g, e) \<and> (\<forall>i < s. m (drop i b) = None) \<and>
      replace_all m b = take (s + g) b @ ''=***'' @ replace_all m (drop (s + e) b))"
proof (induction b)
  case Nil
  have "m [] = None" using match_bounds [of "[]"] by (cases "m []") auto
  then show ?case by simp
next
  case (Cons c cs)
  show ?case
  proof (cases "m (c # cs)")
    case None
    then have r: "replace_all m (c # cs) = c # replace_all m cs" by (simp add: replace_Cons)
    from Cons show ?thesis
    proof
      assume a: "(\<forall>i. m (drop i cs) = None) \<and> replace_all m cs = cs"
      have "m (drop i (c # cs)) = None" for i using a None by (cases i) auto
      then show ?thesis using a r by simp
    next
      assume "\<exists>s g e. s < length cs \<and> m (drop s cs) = Some (g, e) \<and> (\<forall>i < s. m (drop i cs) = None) \<and>
        replace_all m cs = take (s + g) cs @ ''=***'' @ replace_all m (drop (s + e) cs)"
      then obtain s g e where s: "s < length cs" "m (drop s cs) = Some (g, e)" "\<forall>i < s. m (drop i cs) = None"
        "replace_all m cs = take (s + g) cs @ ''=***'' @ replace_all m (drop (s + e) cs)" by blast
      have "m (drop i (c # cs)) = None" if "i < Suc s" for i using that s(3) None by (cases i) auto
      then show ?thesis using s r by (intro disjI2 exI [of _ "Suc s"] exI [of _ g] exI [of _ e]) simp
    qed
  next
    case (Some ge)
    then obtain g e where "m (c # cs) = Some (g, e)" by (cases ge) auto
    then show ?thesis by (intro disjI2 exI [of _ 0] exI [of _ g] exI [of _ e]) (simp add: replace_Cons)
  qed
qed

lemma replace_unmatched: "(\<And>i. m (drop i b) = None) \<Longrightarrow> replace_all m b = b"
  using replace_split [of b] by auto

end

lemma first_keyword_Some:
  "first_keyword f kws b = Some (kw, r) \<Longrightarrow> kw \<in> set kws \<and> f b kw = Some r"
  by (induction kws) (auto split: option.splits)

lemma first_keyword_None: "first_keyword f kws b = None \<longleftrightarrow> (\<forall>kw \<in> set kws. f b kw = None)"
  by (induction kws) (auto split: option.splits)

lemma skip_space_length: "length (skip_space b) \<le> length b"
  by (simp add: skip_space_def length_dropWhile_le)

lemma kv_rest_length: "kv_rest b kw = Some rest \<Longrightarrow> length kw + length rest < length b"
proof -
  assume a: "kv_rest b kw = Some rest"
  then obtain c r where c: "starts_with_ci b kw" "skip_space (drop (length kw) b) = c # r"
    "rest = dropWhile kv_value (skip_space r)"
    by (auto simp: kv_rest_def Let_def split: if_splits list.splits)
  then have "length rest \<le> length r"
    using length_dropWhile_le [of kv_value "skip_space r"] skip_space_length [of r] by simp
  moreover have "Suc (length r) \<le> length b - length kw"
    using skip_space_length [of "drop (length kw) b"] c(2) by simp
  ultimately show ?thesis using c(1) by (simp add: starts_with_ci_def)
qed

interpretation kv: matcher match_kv
  by unfold_locales
    (auto simp: match_kv_def split: option.splits dest!: first_keyword_Some kv_rest_length)

lemma json_rest_length:
  "json_rest b kw = Some (v, rest) \<Longrightarrow> length rest < length v \<and> length v \<le> length b"
proof -
  assume "json_rest b kw = Some (v, rest)"
  then obtain q r c r2 q2 w z where c: "drop (length kw) b = q # r" "skip_space r = c # r2" "skip_space r2 = q2 # w"
    "v = q2 # w" "dropWhile (\<lambda>c. \<not> is_quote c) w = z # rest"
    by (auto simp: json_rest_def split: if_splits list.splits)
  have "length (z # rest) \<le> length w" using length_dropWhile_le [of "\<lambda>c. \<not> is_quote c" w] c(5) by simp
  moreover have "length (q2 # w) \<le> length r2" "length (c # r2) \<le> length r" "length (q # r) \<le> length b"
    using skip_space_length [of r2] skip_space_length [of r] length_drop [of "length kw" b] c by simp_all
  ultimately show ?thesis using c(4) by simp
qed

interpretation json_kv: matcher match_json_kv
  by unfold_locales
    (auto simp: match_json_kv_def split: list.splits option.splits if_splits prod.splits
      dest!: first_keyword_Some json_rest_length)

interpretation flag: matcher match_flag
proof
  fix b g e
  assume a: "match_flag b = Some (g, e)"
  define name where "name = takeWhile is_flag_char (drop 2 b)"
  obtain c v where c: "g = 2 + length name" "skip_space (drop g b) = c # v" "length (c # v) \<noteq> length (drop g b)"
    "e = length b - length (dropWhile (\<lambda>c. \<not> is_space c) (c # v))"
    using a by (auto simp: match_flag_def Let_def name_def split: if_splits list.splits)
  have "length (c # v) < length (drop g b)"
    using skip_space_length [of "drop g b"] c(2,3) by simp
  moreover have "length (dropWhile (\<lambda>c. \<not> is_space c) (c # v)) \<le> length (c # v)" by (rule length_dropWhile_le)
  ultimately show "g < e \<and> e \<le> length b" using c(4) by simp
qed

section \<open>Keys and values\<close>

definition plain_char :: "char \<Rightarrow> bool" where
  "plain_char c \<longleftrightarrow> \<not> is_space c \<and> \<not> kv_separator c"

lemma keyword_chars: "kw \<in> set (KEYWORDS_1 @ [''access_token'']) \<Longrightarrow> kw \<noteq> [] \<and> list_all (\<lambda>c. c \<noteq> CHR ''='' \<and> c \<noteq> CHR '':''
    \<and> c \<noteq> CHR ''*'' \<and> \<not> is_space c \<and> kv_value c \<and> ascii_lower c = c) kw"
  by (auto simp: KEYWORDS_1_def is_space_def kv_value_def ascii_lower_def)

lemma ascii_lower_fixed: "\<not> plain_char c \<or> \<not> kv_value c \<or> c = CHR ''*'' \<Longrightarrow> ascii_lower c = c"
  by (auto simp: plain_char_def kv_value_def kv_separator_def is_space_def ascii_lower_def Let_def)

lemma key_chars:
  assumes "kw \<in> set (KEYWORDS_1 @ [''access_token''])" "starts_with_ci b kw" "c \<in> set (take (length kw) b)"
  shows "plain_char c \<and> kv_value c \<and> c \<noteq> CHR ''*''"
proof -
  have "ascii_lower c \<in> set (map ascii_lower kw)"
    using assms(2,3) unfolding starts_with_ci_def by (metis image_eqI set_map)
  then obtain d where d: "d \<in> set kw" "ascii_lower c = ascii_lower d" by auto
  have "plain_char d" "kv_value d" "d \<noteq> CHR ''*''"
    using keyword_chars [OF assms(1)] d(1) by (auto simp: list_all_iff plain_char_def kv_separator_def)
  moreover have "ascii_lower d = d" using keyword_chars [OF assms(1)] d(1) by (auto simp: list_all_iff)
  ultimately have "plain_char (ascii_lower c)" "kv_value (ascii_lower c)" "ascii_lower c \<noteq> CHR ''*''"
    using d(2) by auto
  then show ?thesis using ascii_lower_fixed [of c] by metis
qed

lemma dropWhile_inner:
  assumes "u \<noteq> []" "\<not> P (last u)"
  shows "dropWhile P (u @ x) = dropWhile P u @ x" "dropWhile P u \<noteq> []" "last (dropWhile P u) = last u"
proof -
  show "dropWhile P (u @ x) = dropWhile P u @ x"
    using assms by (intro dropWhile_append1 [of "last u"]) auto
  show ne: "dropWhile P u \<noteq> []" using assms by auto
  show "last (dropWhile P u) = last u"
    using takeWhile_dropWhile_id [of P u] ne by (metis last_appendR)
qed

lemma kv_rest_inner:
  assumes "length kw < length u" "plain_char (last u)" "kv_rest (u @ x) kw \<noteq> None"
  shows "kv_rest (u @ y) kw \<noteq> None" "\<exists>c \<in> set u. kv_separator c"
proof -
  define u2 where "u2 = drop (length kw) u"
  have u2: "u2 \<noteq> []" "last u2 = last u" "\<not> is_space (last u2)"
    using assms(1,2) by (simp_all add: u2_def plain_char_def)
  obtain c r where cr: "skip_space u2 = c # r" "last (c # r) = last u"
    using dropWhile_inner(2,3) [of u2 is_space] u2 by (cases "skip_space u2") (auto simp: skip_space_def)
  have skip: "skip_space (drop (length kw) (u @ z)) = c # (r @ z)" for z
    using dropWhile_inner(1) [of u2 is_space z] u2 cr assms(1) by (simp add: skip_space_def u2_def)
  have sw: "starts_with_ci (u @ z) kw \<longleftrightarrow> starts_with_ci u kw" for z
    using assms(1) by (simp add: starts_with_ci_def)
  have k: "starts_with_ci u kw" "kv_separator c"
    using assms(3) sw [of x] skip [of x] by (auto simp: kv_rest_def Let_def split: if_splits)
  then have r: "r \<noteq> []" "last r = last u" using cr(2) assms(2) by (auto simp: plain_char_def split: if_splits)
  have "skip_space (r @ z) = skip_space r @ z \<and> skip_space r \<noteq> []" for z
    using dropWhile_inner(1,2) [of r is_space] r assms(2) by (simp add: skip_space_def plain_char_def)
  then obtain d r' where "skip_space (r @ z) = d # (r' @ z)" for z
    by (metis append_Cons list.exhaust)
  then show "kv_rest (u @ y) kw \<noteq> None"
    using assms(3) sw k skip by (auto simp: kv_rest_def Let_def split: if_splits)
  have "c \<in> set u2" using cr(1) set_dropWhileD [of c is_space u2] by (simp add: skip_space_def)
  then show "\<exists>c \<in> set u. kv_separator c" using k(2) set_drop_subset [of "length kw" u] by (auto simp: u2_def)
qed

lemma match_kv_Some:
  assumes "match_kv b = Some (g, e)"
  obtains kw rest where "kw \<in> set (KEYWORDS_1 @ [''access_token''])" "kv_rest b kw = Some rest" "g = length kw"
    "e = length b - length rest"
  using assms by (auto simp: match_kv_def split: option.splits dest!: first_keyword_Some)

lemma match_kv_None: "match_kv b = None \<longleftrightarrow> (\<forall>kw \<in> set (KEYWORDS_1 @ [''access_token'']). kv_rest b kw = None)"
  unfolding first_keyword_None [symmetric] by (auto simp: match_kv_def split: option.split)

lemma kv_rest_stop: "kv_rest b kw = Some rest \<Longrightarrow> rest = [] \<or> \<not> kv_value (hd rest)"
  by (auto simp: kv_rest_def Let_def hd_dropWhile split: if_splits list.splits)

lemma kv_rest_suffix:
  assumes "kv_rest b kw = Some rest"
  shows "drop (length b - length rest) b = rest"
proof -
  obtain c r where c: "skip_space (drop (length kw) b) = c # r" "rest = dropWhile kv_value (skip_space r)"
    using assms by (auto simp: kv_rest_def Let_def split: if_splits list.splits)
  have "suffix rest (skip_space r)" "suffix (skip_space r) r" "suffix r (skip_space (drop (length kw) b))"
    "suffix (skip_space (drop (length kw) b)) (drop (length kw) b)" "suffix (drop (length kw) b) b"
    using c suffix_dropWhile [of is_space "drop (length kw) b"]
    by (auto simp: skip_space_def suffix_dropWhile suffix_drop suffix_ConsI)
  then have "suffix rest b" by (meson suffix_order.trans)
  then show ?thesis by (auto simp: suffix_def)
qed

lemma key_head: "kv_rest b kw \<noteq> None \<Longrightarrow> kw \<in> set (KEYWORDS_1 @ [''access_token'']) \<Longrightarrow>
    b \<noteq> [] \<and> plain_char (hd b) \<and> kv_value (hd b) \<and> hd b \<noteq> CHR ''*''"
  using key_chars [of kw b "hd b"] keyword_chars [of kw]
  by (cases b; cases kw) (auto simp: kv_rest_def starts_with_ci_def split: if_splits)

lemma replace_stop: "b = [] \<or> \<not> kv_value (hd b) \<Longrightarrow> replace_all match_kv b = [] \<or> \<not> kv_value (hd (replace_all match_kv b))"
proof (cases b)
  case (Cons c cs)
  assume "b = [] \<or> \<not> kv_value (hd b)"
  then have "match_kv b = None" unfolding match_kv_None using key_head [of b] Cons by fastforce
  then show ?thesis using \<open>b = [] \<or> \<not> kv_value (hd b)\<close> Cons by (simp add: kv.replace_Cons)
qed simp

lemma mark_no_match: "c = CHR ''='' \<or> c = CHR ''*'' \<Longrightarrow> match_kv (c # cs) = None"
  unfolding match_kv_None using key_head [of "c # cs"] by (fastforce simp: plain_char_def kv_separator_def)

text \<open>A match on a key whose value was just replaced covers exactly the replacement.\<close>

lemma match_replaced:
  assumes u: "u \<noteq> []" "plain_char (last u)" and o': "o' = [] \<or> \<not> kv_value (hd o')"
    and m: "match_kv (u @ ''=***'' @ o') = Some (g, e)"
  shows "take (e - g) (drop g (u @ ''=***'' @ o')) = ''=***'' \<or>
    (match_kv (u @ y) \<noteq> None \<and> (\<exists>c \<in> set u. kv_separator c))"
proof -
  from m obtain kw rest where kw: "kw \<in> set (KEYWORDS_1 @ [''access_token''])"
    "kv_rest (u @ ''=***'' @ o') kw = Some rest" "g = length kw" "e = length (u @ ''=***'' @ o') - length rest"
    by (rule match_kv_Some)
  have sw: "starts_with_ci (u @ ''=***'' @ o') kw" using kw(2) by (auto simp: kv_rest_def split: if_splits)
  consider "length kw < length u" | "length kw = length u" | "length u < length kw" by linarith
  then show ?thesis
  proof cases
    case 1
    then have "kv_rest (u @ y) kw \<noteq> None" "\<exists>c \<in> set u. kv_separator c"
      using kv_rest_inner [OF 1 u(2), of "''=***'' @ o'"] kw(2) by auto
    moreover have "match_kv (u @ y) \<noteq> None" unfolding match_kv_None using kw(1) calculation(1) by auto
    ultimately show ?thesis by simp
  next
    case 2
    have sp: "skip_space (''=***'' @ o') = ''=***'' @ o'" "skip_space (''***'' @ o') = ''***'' @ o'"
      by (simp_all add: skip_space_def is_space_def)
    have v: "kv_value CHR ''*''" by (simp add: kv_value_def is_space_def)
    have "dropWhile kv_value (''***'' @ o') = o'" using o' v by (cases o') auto
    then have "rest = o'" using kw(2) 2 sp sw v by (auto simp: kv_rest_def kv_separator_def Let_def split: if_splits)
    then show ?thesis using 2 kw(3,4) by simp
  next
    case 3
    have "CHR ''='' \<in> set (take (length kw) (u @ ''=***'' @ o'))"
      using 3 by (cases "length kw - length u") auto
    from key_chars [OF kw(1) sw this] show ?thesis by (simp add: plain_char_def kv_separator_def)
  qed
qed

lemma drop_length_append: "drop (length xs + k) (xs @ ys) = drop k ys"
  by simp


section \<open>What the scanners miss\<close>

lemmas redact_eval = sanitize_def replace_all_def match_kv_def match_json_kv_def match_flag_def kv_rest_def json_rest_def
  starts_with_ci_def KEYWORDS_1_def KEYWORDS_2_def skip_space_def is_space_def kv_separator_def kv_value_def is_quote_def
  is_flag_char_def eq_ci_def ascii_lower_def starts_with_def Let_def

text \<open>A quoted value after \<open>=\<close>, a bare \<open>key=\<close>, and a flag that only ends in a keyword.\<close>

lemma quoted_value_kept: "sanitize [CHR ''t'', CHR ''o'', CHR ''k'', CHR ''e'', CHR ''n'', CHR ''='', CHR 0x22, CHR ''a'', CHR 0x22] =
    [CHR ''t'', CHR ''o'', CHR ''k'', CHR ''e'', CHR ''n'', CHR ''='', CHR 0x22, CHR ''a'', CHR 0x22]"
  by code_simp

lemma key_value_kept: "sanitize ''key=abc'' = ''key=abc''"
  by code_simp

lemma secret_flag_kept: "sanitize ''--sftp-pass abc'' = ''--sftp-pass abc''"
  by code_simp

lemma redacts_samples:
  "sanitize ''PASS = x;y'' = ''PASS=***;y''" "sanitize ''run --password hunter2 --foo'' = ''run --password=*** --foo''"
  by code_simp+

end
