(* ===== verification/RpcJson.thy ===== *)
theory RpcJson
  imports Container Redact
begin

text \<open>
  \<open>crates/gn-drive-core/src/rpc/params.rs\<close>, \<open>json.rs\<close> and the second half of \<open>error.rs\<close>: reading
  the parameters of a request, the JSON shapes of the results, and the protocol error of every
  engine error. A JSON object is an association list in insertion order, as \<open>serde_json\<close> keeps it
  here. \<open>rpc_env\<close> holds the texts of JSON and of times, which the crates write.
\<close>

section \<open>Errors\<close>

record rpc_error =
  re_code :: string
  re_message :: string
  re_data :: "json option"

definition rpc_error_new :: "string \<Rightarrow> string \<Rightarrow> rpc_error" where
  "rpc_error_new code message = \<lparr> re_code = code, re_message = message, re_data = None \<rparr>"

definition with_data :: "json \<Rightarrow> rpc_error \<Rightarrow> rpc_error" where
  "with_data d e = e\<lparr>re_data := Some d\<rparr>"

definition invalid_params :: "string \<Rightarrow> string option \<Rightarrow> rpc_error" where
  "invalid_params fld message =
     with_data (JObject [(''field'', JString fld)])
       (rpc_error_new ''invalid_params'' (case message of Some m \<Rightarrow> m | None \<Rightarrow> ''invalid params: '' @ fld))"

definition rpc_locked :: rpc_error where
  "rpc_locked = with_data (JObject [(''setup'', JBool True)]) (rpc_error_new ''locked'' ''auth: app is locked'')"

type_synonym 'a rpc = "(rpc_error, 'a) result"

section \<open>Coercions\<close>

record rpc_env =
  rj_text :: "json \<Rightarrow> string" \<comment> \<open>\<open>Value::to_string\<close>\<close>
  rj_parse :: "string \<Rightarrow> json option" \<comment> \<open>\<open>serde_json::from_str\<close>\<close>
  rj_rfc3339 :: "int \<Rightarrow> string"
  rj_dash :: string \<comment> \<open>the em dash, which lies outside the character range\<close>

fun int_value :: "json \<Rightarrow> int option" where
  "int_value (JInt i) = (case as_i64 (JInt i) of Some n \<Rightarrow> Some n
                         | None \<Rightarrow> map_option f64_as_i64 (as_f64 (JInt i)))"
| "int_value (JFloat r) = Some (f64_as_i64 (Fin r))"
| "int_value (JString s) = parse_i64 (trim s)"
| "int_value _ = None"

fun double_value :: "json \<Rightarrow> f64 option" where
  "double_value (JString s) = parse_f64 (trim s)"
| "double_value v = as_f64 v"

fun bool_value :: "json \<Rightarrow> bool option" where
  "bool_value (JBool b) = Some b"
| "bool_value (JInt i) = Some (as_f64 (JInt i) \<noteq> Some (Fin 0))"
| "bool_value (JFloat r) = Some (r \<noteq> 0)"
| "bool_value (JString s) =
     (let l = to_lowercase s in
      if l \<in> {''true'', ''1'', ''yes''} then Some True
      else if l \<in> {''false'', ''0'', ''no''} then Some False
      else None)"
| "bool_value _ = None"

fun lower_first :: "string \<Rightarrow> string" where
  "lower_first [] = []"
| "lower_first (c # cs) = char_lower c # cs"

text \<open>\<open>json::field\<close>: exact key, then with a lower-case first letter, then without regard to case.\<close>

definition json_field :: "json_dict \<Rightarrow> string \<Rightarrow> json option" where
  "json_field d name =
     (case map_of d name of
        Some v \<Rightarrow> Some v
      | None \<Rightarrow>
          (case (if name = [] then None else map_of d (lower_first name)) of
             Some v \<Rightarrow> Some v
           | None \<Rightarrow> map_option snd (find (\<lambda>(k, _). to_lowercase k = to_lowercase name) d)))"

definition string_of :: "rpc_env \<Rightarrow> json option \<Rightarrow> string" where
  "string_of env v =
     (case v of
        None \<Rightarrow> [] | Some JNull \<Rightarrow> []
      | Some (JString s) \<Rightarrow> s
      | Some (JBool b) \<Rightarrow> if b then ''true'' else ''false''
      | Some (JInt i) \<Rightarrow> show_int i
      | Some x \<Rightarrow> rj_text env x)"

definition parse_object :: "rpc_env \<Rightarrow> string \<Rightarrow> json_dict option" where
  "parse_object env s = (case rj_parse env s of Some (JObject m) \<Rightarrow> Some m | _ \<Rightarrow> None)"

definition stringify_json :: "rpc_env \<Rightarrow> json_dict \<Rightarrow> string" where
  "stringify_json env m = rj_text env (JObject m)"

section \<open>Parameters\<close>

type_synonym params = json_dict

definition params_new :: "json \<Rightarrow> params rpc" where
  "params_new v =
     (case v of
        JNull \<Rightarrow> Ok [] | JObject m \<Rightarrow> Ok m
      | _ \<Rightarrow> Err (rpc_error_new ''invalid_params'' ''params must be an object''))"

definition strip_suffix :: "string \<Rightarrow> string \<Rightarrow> string option" where
  "strip_suffix p s = map_option rev (strip_prefix (rev p) (rev s))"

definition aliases :: "string \<Rightarrow> string list" where
  "aliases key = key #
     (case strip_suffix ''ID'' key of Some s \<Rightarrow> [s @ ''Id''] | None \<Rightarrow> []) @
     (case strip_suffix ''JSON'' key of Some s \<Rightarrow> [s @ ''Json''] | None \<Rightarrow> []) @
     (case strip_suffix ''IDs'' key of Some s \<Rightarrow> [s @ ''Ids''] | None \<Rightarrow> [])"

fun first_present :: "params \<Rightarrow> string list \<Rightarrow> json option" where
  "first_present p [] = None"
| "first_present p (k # ks) =
     (case map_of p k of Some v \<Rightarrow> if v = JNull then first_present p ks else Some v
      | None \<Rightarrow> first_present p ks)"

definition p_any :: "params \<Rightarrow> string \<Rightarrow> json option" where
  "p_any p key = first_present p (aliases key)"

text \<open>\<open>read\<close> is the shape the accessor accepts.\<close>

definition p_read :: "(json \<Rightarrow> 'a option) \<Rightarrow> params \<Rightarrow> string \<Rightarrow> 'a option rpc" where
  "p_read read p key =
     (case p_any p key of
        None \<Rightarrow> Ok None
      | Some v \<Rightarrow> (case read v of Some x \<Rightarrow> Ok (Some x) | None \<Rightarrow> Err (invalid_params key None)))"

fun as_object :: "json \<Rightarrow> json_dict option" where
  "as_object (JObject m) = Some m"
| "as_object _ = None"

definition p_string :: "params \<Rightarrow> string \<Rightarrow> string option rpc" where "p_string = p_read as_str"
definition p_int :: "params \<Rightarrow> string \<Rightarrow> int option rpc" where "p_int = p_read int_value"
definition p_bool :: "params \<Rightarrow> string \<Rightarrow> bool option rpc" where "p_bool = p_read bool_value"
definition p_dict :: "params \<Rightarrow> string \<Rightarrow> json_dict option rpc" where "p_dict = p_read as_object"
definition p_array :: "params \<Rightarrow> string \<Rightarrow> json list option rpc" where "p_array = p_read as_array"
lemmas p_defs = p_string_def p_int_def p_bool_def p_dict_def p_array_def

definition blank :: "string \<Rightarrow> bool" where
  "blank s \<longleftrightarrow> trim_by (\<lambda>c. c \<in> {CHR '' '', CHR 0x09}) s = []"

definition require_string :: "params \<Rightarrow> string \<Rightarrow> string rpc" where
  "require_string p key =
     (case p_string p key of
        Err e \<Rightarrow> Err e
      | Ok (Some s) \<Rightarrow> if \<not> blank s then Ok s
                      else Err (invalid_params key (Some (''missing required field: '' @ key)))
      | Ok None \<Rightarrow> Err (invalid_params key (Some (''missing required field: '' @ key))))"

fun all_strings :: "json list \<Rightarrow> string list option" where
  "all_strings [] = Some []"
| "all_strings (v # vs) =
     (case v of JString s \<Rightarrow> map_option ((#) s) (all_strings vs) | _ \<Rightarrow> None)"

definition string_array :: "params \<Rightarrow> string \<Rightarrow> string list option rpc" where
  "string_array p key =
     (case p_array p key of
        Err e \<Rightarrow> Err e
      | Ok None \<Rightarrow> Ok None
      | Ok (Some a) \<Rightarrow> (case all_strings a of Some ss \<Rightarrow> Ok (Some ss) | None \<Rightarrow> Err (invalid_params key None)))"

text \<open>\<open>config\<close> as the \<open>key=value\<close> arguments of rclone, in the order of the keys.\<close>

definition config_kvs :: "rpc_env \<Rightarrow> params \<Rightarrow> string \<Rightarrow> string list rpc" where
  "config_kvs env p key =
     (case p_dict p key of
        Err e \<Rightarrow> Err e
      | Ok None \<Rightarrow> Ok []
      | Ok (Some d) \<Rightarrow> Ok (map (\<lambda>k. k @ ''='' @ string_of env (map_of d k)) (sort (map fst d))))"

section \<open>Error mapping\<close>

definition from_store :: "store_error \<Rightarrow> rpc_error" where
  "from_store e =
     (case e of
        NotFound \<Rightarrow> rpc_error_new ''not_found'' ''record not found''
      | Invalid m \<Rightarrow>
          if str_contains m ''name is required''
          then with_data (JObject [(''field'', JString ''name'')]) (rpc_error_new ''missing_name'' m)
          else if str_contains m ''invalid direction''
          then with_data (JObject [(''field'', JString ''direction'')]) (rpc_error_new ''invalid_direction'' m)
          else rpc_error_new ''invalid_params'' m
      | Db m \<Rightarrow> rpc_error_new ''internal_error'' m)"

text \<open>\<open>other\<close> is the display text of the error, which the two crates' errors write.\<close>

definition from_auth :: "rpc_env \<Rightarrow> (auth_error \<Rightarrow> string) \<Rightarrow> auth_error \<Rightarrow> rpc_error" where
  "from_auth env other e =
     (case e of
        NotSetup \<Rightarrow> rpc_error_new ''not_setup'' ''auth: no master password is configured''
      | AlreadySetup \<Rightarrow> rpc_error_new ''already_setup'' ''auth: a master password is already configured''
      | NotUnlocked \<Rightarrow> rpc_error_new ''not_unlocked'' ''auth: app is locked''
      | InvalidPassword \<Rightarrow> rpc_error_new ''invalid_password'' ''auth: invalid password''
      | AuthLockedOut r \<Rightarrow> with_data (JObject [(''retryAfterSecs'', JInt r)])
          (rpc_error_new ''locked_out''
            (''auth: too many attempts '' @ rj_dash env @ '' retry in '' @ show_int r @ ''s''))
      | AlreadyUnlocked \<Rightarrow> rpc_error_new ''already_unlocked'' ''auth: already unlocked''
      | PasswordTooShort \<Rightarrow> rpc_error_new ''password_too_short'' ''auth: password must be at least 4 characters''
      | e \<Rightarrow> rpc_error_new ''internal_error'' (other e))"

definition from_flow :: "flow_engine_error \<Rightarrow> rpc_error" where
  "from_flow e =
     (case e of
        FlowAlreadyRunning \<Rightarrow> rpc_error_new ''already_running'' ''flow is already running''
      | FlowNotRunning \<Rightarrow> rpc_error_new ''not_running'' ''flow is not running''
      | EmptyFlow \<Rightarrow> rpc_error_new ''flow_empty'' ''flow has no operations''
      | FlowEngineNotReady \<Rightarrow> rpc_error_new ''engine_not_ready'' ''flow engine is not ready''
      | FlowStore x \<Rightarrow> from_store x)"

definition from_sync :: "sync_engine_error \<Rightarrow> rpc_error" where
  "from_sync e =
     (case e of
        NotRunning \<Rightarrow> rpc_error_new ''sync_not_running'' ''sync engine is not running''
      | StoreNotReady \<Rightarrow> rpc_error_new ''engine_not_ready'' ''sync engine has no data plane''
      | ProfileBusy \<Rightarrow> rpc_error_new ''profile_busy'' ''a sync for this profile is already running''
      | TaskFailed msg \<Rightarrow> rpc_error_new ''task_failed'' (sanitize msg)
      | TaskCancelled \<Rightarrow> rpc_error_new ''task_cancelled'' ''task was cancelled''
      | TaskNotFound \<Rightarrow> rpc_error_new ''task_not_found'' ''task not found''
      | EngineStore x \<Rightarrow> from_store x)"

definition board_failure :: "string \<Rightarrow> rpc_error" where
  "board_failure msg =
     (if str_contains msg ''cycle detected'' then rpc_error_new ''board_cycle'' ''board graph contains a cycle''
      else rpc_error_new ''internal_error'' (sanitize msg))"

definition from_board :: "board_error \<Rightarrow> rpc_error" where
  "from_board e =
     (case e of
        BENotConfigured \<Rightarrow> rpc_error_new ''engine_not_ready'' ''board engine is not ready''
      | BEEmptyBoard \<Rightarrow> rpc_error_new ''board_empty'' ''board has no nodes or edges''
      | BEAlreadyRunning \<Rightarrow> rpc_error_new ''board_busy'' ''board is already running''
      | BENotRunning \<Rightarrow> rpc_error_new ''board_not_running'' ''board is not running''
      | BECancelled \<Rightarrow> rpc_error_new ''board_not_running'' ''board run was cancelled''
      | BEMissingNode i \<Rightarrow> rpc_error_new ''board_missing_node'' (''board edge '' @ i @ '' references a missing node'')
      | BEStore x \<Rightarrow> from_store x
      | BEFailed msg \<Rightarrow> board_failure msg
      | BECompletedWithErrors msg \<Rightarrow> board_failure msg)"

definition stderr_field :: "string \<Rightarrow> string" where
  "stderr_field txt = sanitize (truncate_string txt 500)"

definition from_rclone :: "rclone_error \<Rightarrow> rpc_error" where
  "from_rclone e =
     (case e of
        BinaryNotFound p \<Rightarrow> with_data (JObject [(''path'', JString p)])
          (rpc_error_new ''rclone_missing'' (''rclone binary not found: '' @ p))
      | RunFailed command stderr \<Rightarrow>
          with_data (JObject [(''command'', JString (sanitize command)), (''stderr'', JString (stderr_field stderr))])
            (rpc_error_new ''rclone_failed'' (''rclone '' @ sanitize command @ '': '' @ stderr_field stderr))
      | RcloneCancelled \<Rightarrow> rpc_error_new ''task_cancelled'' ''rclone was cancelled'')"

definition from_sync_failed :: "sync_failed_error \<Rightarrow> rpc_error" where
  "from_sync_failed e =
     with_data (JObject [(''cancelled'', JString (if sf_cancelled e then ''true'' else ''false''))])
       (rpc_error_new ''task_failed'' (if sf_cancelled e then ''sync cancelled'' else sanitize (sf_message e)))"

definition from_app :: "rpc_env \<Rightarrow> (auth_error \<Rightarrow> string) \<Rightarrow> app_error \<Rightarrow> rpc_error" where
  "from_app env other e =
     (case e of
        AppLocked \<Rightarrow> rpc_locked
      | RcloneMissing x \<Rightarrow> rpc_error_new ''rclone_missing'' (''rclone unavailable: '' @ rclone_error_display x)
      | AppAuth x \<Rightarrow> from_auth env other x
      | AppStore x \<Rightarrow> from_store x
      | AppIo m \<Rightarrow> rpc_error_new ''internal_error'' m)"

end
