(* ===== verification/RpcModels.thy ===== *)
theory RpcModels
  imports RpcJson
begin

text \<open>
  The JSON shapes of \<open>crates/gn-drive-core/src/rpc/json.rs\<close> and the parsers at the end of
  \<open>dispatcher.rs\<close>. The derived codec of a profile (\<open>models.rs\<close>: camel case, absent options
  skipped, absent fields defaulted) is a table with one entry for each field, in declaration
  order; encoding and decoding run over it.
\<close>

section \<open>The codec of a profile\<close>

type_synonym codec = "string \<times> (json \<Rightarrow> profile \<Rightarrow> profile option) \<times> (profile \<Rightarrow> json option)"

text \<open>\<open>u\<close> writes a field, \<open>g\<close> reads it.\<close>

definition str_field :: "string \<Rightarrow> (profile \<Rightarrow> string) \<Rightarrow> ((string \<Rightarrow> string) \<Rightarrow> profile \<Rightarrow> profile) \<Rightarrow> codec" where
  "str_field k g u = (k, \<lambda>v p. map_option (\<lambda>s. u (\<lambda>_. s) p) (as_str v), \<lambda>p. Some (JString (g p)))"

definition bool_field :: "string \<Rightarrow> (profile \<Rightarrow> bool) \<Rightarrow> ((bool \<Rightarrow> bool) \<Rightarrow> profile \<Rightarrow> profile) \<Rightarrow> codec" where
  "bool_field k g u = (k, \<lambda>v p. map_option (\<lambda>b. u (\<lambda>_. b) p) (as_bool v), \<lambda>p. Some (JBool (g p)))"

definition int_field :: "string \<Rightarrow> (profile \<Rightarrow> int) \<Rightarrow> ((int \<Rightarrow> int) \<Rightarrow> profile \<Rightarrow> profile) \<Rightarrow> codec" where
  "int_field k g u = (k, \<lambda>v p. map_option (\<lambda>n. u (\<lambda>_. n) p) (as_i64 v), \<lambda>p. Some (JInt (g p)))"

definition strs_field ::
  "string \<Rightarrow> (profile \<Rightarrow> string list) \<Rightarrow> ((string list \<Rightarrow> string list) \<Rightarrow> profile \<Rightarrow> profile) \<Rightarrow> codec" where
  "strs_field k g u = (k, \<lambda>v p. map_option (\<lambda>ss. u (\<lambda>_. ss) p) (Option.bind (as_array v) all_strings),
     \<lambda>p. Some (JArray (map JString (g p))))"

definition opt_read :: "(json \<Rightarrow> 'a option) \<Rightarrow> json \<Rightarrow> 'a option option" where
  "opt_read read v = (if v = JNull then Some None else map_option Some (read v))"

definition opt_int_field ::
  "string \<Rightarrow> (profile \<Rightarrow> int option) \<Rightarrow> ((int option \<Rightarrow> int option) \<Rightarrow> profile \<Rightarrow> profile) \<Rightarrow> codec" where
  "opt_int_field k g u = (k, \<lambda>v p. map_option (\<lambda>x. u (\<lambda>_. x) p) (opt_read as_i64 v), \<lambda>p. map_option JInt (g p))"

text \<open>A double that is not finite is written as \<open>null\<close>.\<close>

fun json_f64 :: "f64 \<Rightarrow> json" where
  "json_f64 (Fin r) = JFloat r"
| "json_f64 _ = JNull"

definition opt_f64_field ::
  "string \<Rightarrow> (profile \<Rightarrow> f64 option) \<Rightarrow> ((f64 option \<Rightarrow> f64 option) \<Rightarrow> profile \<Rightarrow> profile) \<Rightarrow> codec" where
  "opt_f64_field k g u = (k, \<lambda>v p. map_option (\<lambda>x. u (\<lambda>_. x) p) (opt_read as_f64 v), \<lambda>p. map_option json_f64 (g p))"

lemmas field_defs = str_field_def bool_field_def int_field_def strs_field_def opt_int_field_def opt_f64_field_def

definition profile_codec :: "codec list" where
  "profile_codec =
    [str_field ''name'' p_name p_name_update, str_field ''from'' p_from p_from_update,
     str_field ''to'' p_to p_to_update, str_field ''direction'' p_direction p_direction_update,
     strs_field ''includedPaths'' p_included_paths p_included_paths_update,
     strs_field ''excludedPaths'' p_excluded_paths p_excluded_paths_update,
     int_field ''bandwidth'' p_bandwidth p_bandwidth_update, int_field ''parallel'' p_parallel p_parallel_update,
     str_field ''backupPath'' p_backup_path p_backup_path_update,
     str_field ''cachePath'' p_cache_path p_cache_path_update,
     str_field ''minSize'' p_min_size p_min_size_update, str_field ''maxSize'' p_max_size p_max_size_update,
     str_field ''filterFromFile'' p_filter_from_file p_filter_from_file_update,
     str_field ''excludeIfPresent'' p_exclude_if_present p_exclude_if_present_update,
     bool_field ''useRegex'' p_use_regex p_use_regex_update, str_field ''maxAge'' p_max_age p_max_age_update,
     str_field ''minAge'' p_min_age p_min_age_update, opt_int_field ''maxDepth'' p_max_depth p_max_depth_update,
     bool_field ''deleteExcluded'' p_delete_excluded p_delete_excluded_update,
     opt_int_field ''maxDelete'' p_max_delete p_max_delete_update,
     bool_field ''immutable'' p_immutable p_immutable_update,
     str_field ''conflictResolution'' p_conflict_resolution p_conflict_resolution_update,
     bool_field ''dryRun'' p_dry_run p_dry_run_update, str_field ''maxTransfer'' p_max_transfer p_max_transfer_update,
     str_field ''maxDeleteSize'' p_max_delete_size p_max_delete_size_update,
     str_field ''suffix'' p_suffix p_suffix_update,
     bool_field ''suffixKeepExtension'' p_suffix_keep_extension p_suffix_keep_extension_update,
     opt_int_field ''multiThreadStreams'' p_multi_thread_streams p_multi_thread_streams_update,
     str_field ''bufferSize'' p_buffer_size p_buffer_size_update,
     opt_int_field ''retries'' p_retries p_retries_update,
     opt_int_field ''lowLevelRetries'' p_low_level_retries p_low_level_retries_update,
     str_field ''maxDuration'' p_max_duration p_max_duration_update,
     bool_field ''checkFirst'' p_check_first p_check_first_update, str_field ''orderBy'' p_order_by p_order_by_update,
     str_field ''retriesSleep'' p_retries_sleep p_retries_sleep_update,
     opt_f64_field ''tpsLimit'' p_tps_limit p_tps_limit_update,
     str_field ''connTimeout'' p_conn_timeout p_conn_timeout_update,
     str_field ''ioTimeout'' p_io_timeout p_io_timeout_update, bool_field ''sizeOnly'' p_size_only p_size_only_update,
     bool_field ''updateMode'' p_update_mode p_update_mode_update,
     bool_field ''ignoreExisting'' p_ignore_existing p_ignore_existing_update,
     str_field ''deleteTiming'' p_delete_timing p_delete_timing_update,
     bool_field ''resilient'' p_resilient p_resilient_update, str_field ''maxLock'' p_max_lock p_max_lock_update,
     bool_field ''checkAccess'' p_check_access p_check_access_update,
     str_field ''conflictLoser'' p_conflict_loser p_conflict_loser_update,
     str_field ''conflictSuffix'' p_conflict_suffix p_conflict_suffix_update,
     bool_field ''fastList'' p_fast_list p_fast_list_update]"

fun encode_fields :: "codec list \<Rightarrow> profile \<Rightarrow> json_dict" where
  "encode_fields [] p = []"
| "encode_fields ((k, rd, wr) # fs) p =
     (case wr p of None \<Rightarrow> encode_fields fs p | Some v \<Rightarrow> (k, v) # encode_fields fs p)"

fun decode_fields :: "codec list \<Rightarrow> json_dict \<Rightarrow> profile \<Rightarrow> profile option" where
  "decode_fields [] d p = Some p"
| "decode_fields ((k, rd, wr) # fs) d p =
     (case map_of d k of
        None \<Rightarrow> decode_fields fs d p
      | Some v \<Rightarrow> (case rd v p of None \<Rightarrow> None | Some p' \<Rightarrow> decode_fields fs d p'))"

definition json_profile :: "profile \<Rightarrow> json_dict" where
  "json_profile p = encode_fields profile_codec p"

definition profile_of_json :: "json_dict \<Rightarrow> profile option" where
  "profile_of_json d = decode_fields profile_codec d profile_default"

text \<open>\<open>parse_profile\<close>: the request's keys over the encoded default profile, then decoded.\<close>

definition overlay :: "json_dict \<Rightarrow> json_dict \<Rightarrow> json_dict" where
  "overlay d base = fold (\<lambda>(k, v) m. if map_of m k \<noteq> None then AList.update k v m else m) d base"

definition parse_profile :: "(json_dict \<Rightarrow> string) \<Rightarrow> json_dict \<Rightarrow> profile rpc" where
  "parse_profile message d =
     (let merged = overlay d (json_profile profile_default) in
      case profile_of_json merged of
        Some p \<Rightarrow> Ok p
      | None \<Rightarrow> Err (rpc_error_new ''invalid_params'' (''invalid profile: '' @ message merged)))"

section \<open>What a saved profile keeps\<close>

definition i64_value :: "int \<Rightarrow> bool" where
  "i64_value n \<longleftrightarrow> i64_min \<le> n \<and> n \<le> i64_max"

lemma map_of_overlay:
  "distinct (map fst d) \<Longrightarrow> map_of (overlay d base) k =
     (case map_of base k of None \<Rightarrow> None
      | Some b \<Rightarrow> Some (case map_of d k of Some v \<Rightarrow> v | None \<Rightarrow> b))"
proof (induction d arbitrary: base)
  case Nil
  then show ?case by (simp add: overlay_def split: option.split)
next
  case (Cons kv d)
  obtain k' v where kv: "kv = (k', v)" by (cases kv)
  define base' where "base' = (if map_of base k' \<noteq> None then AList.update k' v base else base)"
  have "overlay (kv # d) base = overlay d base'" by (simp add: overlay_def kv base'_def)
  moreover have "map_of d k = None" if "k = k'" using Cons.prems that by (auto simp: kv map_of_eq_None_iff)
  moreover have "map_of base' k = (if k = k' \<and> map_of base k' \<noteq> None then Some v else map_of base k)"
    by (simp add: base'_def)
  ultimately show ?case using Cons by (auto simp: kv split: option.splits)
qed

lemma keys_encode: "set (map fst (encode_fields fs p)) \<subseteq> set (map fst fs)"
  by (induction fs p rule: encode_fields.induct) (auto split: option.splits)

lemma distinct_encode: "distinct (map fst fs) \<Longrightarrow> distinct (map fst (encode_fields fs p))"
proof (induction fs p rule: encode_fields.induct)
  case (2 k rd wr fs p)
  then show ?case using keys_encode [of fs p] by (auto split: option.splits)
qed simp

lemma distinct_codec: "distinct (map fst profile_codec)"
  by (simp add: profile_codec_def field_defs)

lemma map_of_encode:
  "distinct (map fst fs) \<Longrightarrow> map_of (encode_fields fs p) k =
     (case map_of fs k of None \<Rightarrow> None | Some (rd, wr) \<Rightarrow> wr p)"
proof (induction fs p rule: encode_fields.induct)
  case (2 k' rd wr fs p)
  have "map_of (encode_fields fs p) k' = None"
    using 2(3) keys_encode [of fs p] by (auto simp: map_of_eq_None_iff)
  with 2 show ?case by (auto split: option.splits)
qed simp

text \<open>Decoding with the value of each field given.\<close>

fun decode_values :: "codec list \<Rightarrow> (codec \<Rightarrow> json option) \<Rightarrow> profile \<Rightarrow> profile option" where
  "decode_values [] m p = Some p"
| "decode_values ((k, rd, wr) # fs) m p =
     (case m (k, rd, wr) of
        None \<Rightarrow> decode_values fs m p
      | Some v \<Rightarrow> (case rd v p of None \<Rightarrow> None | Some p' \<Rightarrow> decode_values fs m p'))"

lemma decode_fields_values:
  "(\<And>f. f \<in> set fs \<Longrightarrow> map_of d (fst f) = m f) \<Longrightarrow> decode_fields fs d p = decode_values fs m p"
proof (induction fs m p rule: decode_values.induct)
  case (2 k rd wr fs m p)
  have "map_of d k = m (k, rd, wr)" using 2(3) [of "(k, rd, wr)"] by simp
  then show ?case using 2 by (auto split: option.splits)
qed simp

text \<open>The value a field of a resent profile has after the overlay.\<close>

definition resent :: "profile \<Rightarrow> codec \<Rightarrow> json option" where
  "resent p = (\<lambda>(k, rd, wr). case wr profile_default of None \<Rightarrow> None
     | Some b \<Rightarrow> Some (case wr p of Some v \<Rightarrow> v | None \<Rightarrow> b))"

lemma overlay_resent:
  assumes "f \<in> set profile_codec"
  shows "map_of (overlay (json_profile p) (json_profile profile_default)) (fst f) = resent p f"
proof -
  obtain k rd wr where f: "f = (k, rd, wr)" by (cases f)
  have k: "map_of profile_codec k = Some (rd, wr)"
    using assms distinct_codec by (simp add: f map_of_eq_Some_iff)
  show ?thesis
    unfolding json_profile_def
    by (simp add: map_of_overlay distinct_encode distinct_codec map_of_encode k f resent_def split: option.split)
qed

lemma all_strings_map [simp]: "all_strings (map JString ss) = Some ss"
  by (induction ss) auto

text \<open>
  C21: what \<open>profiles.get\<close> answers, sent back through \<open>profiles.save\<close>, is the same profile except
  for its six optional settings: the depth, deletion, stream, retry and rate limits are not in the
  encoded default profile, so the overlay leaves them out and the save clears them.
\<close>

theorem save_drops_options:
  assumes "i64_value (p_bandwidth p)" "i64_value (p_parallel p)"
  shows "parse_profile message (json_profile p) =
    Ok (p\<lparr>p_max_depth := None, p_max_delete := None, p_multi_thread_streams := None, p_retries := None,
         p_low_level_retries := None, p_tps_limit := None\<rparr>)"
proof -
  have "profile_of_json (overlay (json_profile p) (json_profile profile_default)) =
      decode_values profile_codec (resent p) profile_default"
    unfolding profile_of_json_def by (rule decode_fields_values) (rule overlay_resent)
  also have "\<dots> = Some (p\<lparr>p_max_depth := None, p_max_delete := None, p_multi_thread_streams := None, p_retries := None,
         p_low_level_retries := None, p_tps_limit := None\<rparr>)"
    using assms [unfolded i64_value_def] by (simp add: profile_codec_def field_defs resent_def profile_default_def)
  finally show ?thesis by (simp add: parse_profile_def)
qed

theorem save_drops_options_witness:
  "\<forall>message. parse_profile message (json_profile (profile_default\<lparr>p_max_depth := Some 3\<rparr>)) = Ok profile_default"
proof
  fix message
  have "i64_value (p_bandwidth (profile_default\<lparr>p_max_depth := Some 3\<rparr>))"
    "i64_value (p_parallel (profile_default\<lparr>p_max_depth := Some 3\<rparr>))"
    by (simp_all add: i64_value_def profile_default_def i64_min_def i64_max_def)
  from save_drops_options [OF this]
  show "parse_profile message (json_profile (profile_default\<lparr>p_max_depth := Some 3\<rparr>)) = Ok profile_default"
    by (simp add: profile_default_def)
qed

section \<open>Results\<close>

definition json_auth_status :: "rpc_env \<Rightarrow> auth_status \<Rightarrow> json" where
  "json_auth_status env s = JObject
     [(''setup'', JBool (au_setup s)), (''unlocked'', JBool (au_is_unlocked s)),
      (''lockedAt'', case au_status_locked_at s of None \<Rightarrow> JNull | Some t \<Rightarrow> JString (rj_rfc3339 env t)),
      (''enabled'', JBool (au_enabled s)),
      (''lockout'', JObject
        [(''failedAttempts'', JInt (ls_failed_attempts (au_lockout s))),
         (''lockedUntil'', JString (ls_locked_until (au_lockout s))),
         (''isLocked'', JBool (ls_is_locked (au_lockout s))),
         (''retryAfterSecs'', JInt (ls_retry_after_secs (au_lockout s)))])]"

definition json_app_settings :: "app_settings \<Rightarrow> json" where
  "json_app_settings s = JObject
     [(''notificationsEnabled'', JBool (as_notifications_enabled s)), (''debugMode'', JBool (as_debug_mode s)),
      (''minimizeToTray'', JBool (as_minimize_to_tray s)), (''startAtLogin'', JBool (as_start_at_login s))]"

definition json_remote :: "remote \<Rightarrow> json" where
  "json_remote r = JObject [(''name'', JString (r_name r)), (''type'', JString (r_type r)),
     (''description'', JString (r_description r))]"

definition json_file_entry :: "file_entry \<Rightarrow> json" where
  "json_file_entry e = JObject
     [(''name'', JString (fe_name e)), (''size'', JInt (fe_size e)), (''mimeType'', JString (fe_mime_type e)),
      (''isDir'', JBool (fe_is_dir e)), (''modTime'', JString (fe_mod_time e)), (''path'', JString (fe_path e)),
      (''id'', JString (fe_id e))]"

definition json_schedule :: "schedule \<Rightarrow> json" where
  "json_schedule s = JObject
     [(''id'', JString (sch_id s)), (''profileName'', JString (sch_profile_name s)),
      (''action'', JString (sch_action s)), (''cron'', JString (sch_cron s)), (''enabled'', JBool (sch_enabled s)),
      (''lastRun'', JString (sch_last_run s)), (''nextRun'', JString (sch_next_run s)),
      (''lastResult'', JString (sch_last_result s)), (''createdAt'', JString (sch_created_at s))]"

definition json_history :: "history_entry \<Rightarrow> json" where
  "json_history e = JObject
     [(''id'', JString (h_id e)), (''profileName'', JString (h_profile_name e)), (''action'', JString (h_action e)),
      (''state'', JString (h_state e)), (''startedAt'', JString (h_started_at e)),
      (''finishedAt'', JString (h_finished_at e)), (''duration'', JInt (h_duration e)), (''bytes'', JInt (h_bytes e)),
      (''errors'', JInt (h_errors e)), (''files'', JInt (h_files e)), (''errorMessage'', JString (h_error_message e))]"

text \<open>\<open>names\<close> is the iteration order of the map.\<close>

definition json_history_stats :: "string list \<Rightarrow> history_stats \<Rightarrow> json" where
  "json_history_stats names s = JObject
     [(''totalSyncs'', JInt (hs_total_syncs s)), (''totalBytes'', JInt (hs_total_bytes s)),
      (''totalDuration'', JInt (hs_total_duration s)), (''totalErrors'', JInt (hs_total_errors s)),
      (''byProfile'', JObject (List.map_filter (\<lambda>k. map_option (\<lambda>v. (k, JObject
         [(''syncs'', JInt (ps_syncs v)), (''bytes'', JInt (ps_bytes v)), (''duration'', JInt (ps_duration v)),
          (''errors'', JInt (ps_errors v))])) (hs_by_profile s k)) names))]"

definition json_operation :: "flow_operation \<Rightarrow> json_dict" where
  "json_operation op =
     [(''id'', JString (op_id op)), (''flowID'', JString (op_flow_id op)),
      (''sourceRemote'', JString (op_source_remote op)), (''sourcePath'', JString (op_source_path op)),
      (''targetRemote'', JString (op_target_remote op)), (''targetPath'', JString (op_target_path op)),
      (''action'', JString (resolved_action op)), (''syncConfig'', JObject (op_sync_config op)),
      (''isExpanded'', JBool (op_is_expanded op)), (''sortOrder'', JInt (op_sort_order op))]"

definition object_or_empty :: "rpc_env \<Rightarrow> string \<Rightarrow> json" where
  "object_or_empty env s = JObject (case parse_object env s of Some m \<Rightarrow> m | None \<Rightarrow> [])"

definition json_flow :: "rpc_env \<Rightarrow> flow \<Rightarrow> json" where
  "json_flow env f = JObject
     [(''id'', JString (f_id f)), (''name'', JString (f_name f)), (''isCollapsed'', JBool (f_is_collapsed f)),
      (''scheduleEnabled'', JBool (f_schedule_enabled f)), (''scheduleCron'', JString (f_schedule_cron f)),
      (''sortOrder'', JInt (f_sort_order f)),
      (''operations'', JArray (map (\<lambda>op. JObject (json_operation op)) (f_operations f))),
      (''canvasJSON'', JString (f_canvas_json f)), (''canvas'', object_or_empty env (f_canvas_json f)),
      (''createdAt'', JString (f_created_at f)), (''updatedAt'', JString (f_updated_at f))]"

definition json_board_node :: "board_node \<Rightarrow> json" where
  "json_board_node n = JObject
     [(''id'', JString (bn_id n)), (''remoteName'', JString (bn_remote_name n)), (''path'', JString (bn_path n)),
      (''label'', JString (bn_label n)), (''x'', json_f64 (bn_x n)), (''y'', json_f64 (bn_y n))]"

definition json_board_edge :: "rpc_env \<Rightarrow> board_edge \<Rightarrow> json" where
  "json_board_edge env e = JObject
     [(''id'', JString (be_id e)), (''sourceID'', JString (be_source_id e)), (''targetID'', JString (be_target_id e)),
      (''action'', JString (be_action e)), (''syncConfig'', object_or_empty env (be_sync_config e))]"

definition json_board :: "rpc_env \<Rightarrow> board \<Rightarrow> json" where
  "json_board env b = JObject
     [(''id'', JString (b_id b)), (''name'', JString (b_name b)), (''createdAt'', JString (b_created_at b)),
      (''updatedAt'', JString (b_updated_at b)), (''nodes'', JArray (map json_board_node (b_nodes b))),
      (''edges'', JArray (map (json_board_edge env) (b_edges b)))]"

definition json_file_transfer :: "file_transfer \<Rightarrow> json" where
  "json_file_transfer t = JObject
     [(''name'', JString (ft_name t)), (''size'', JInt (ft_size t)), (''bytes'', JInt (ft_bytes t)),
      (''progress'', json_f64 (ft_progress t)), (''status'', JString (ft_status t)),
      (''speed'', json_f64 (ft_speed t)), (''error'', JString (ft_error t))]"

definition json_sync_stats :: "sync_stats \<Rightarrow> json" where
  "json_sync_stats s = JObject
     [(''bytes'', JInt (st_bytes s)), (''bytesTotal'', JInt (st_bytes_total s)), (''files'', JInt (st_files s)),
      (''filesTotal'', JInt (st_files_total s)), (''transfers'', JInt (st_transfers s)),
      (''errors'', JInt (st_errors s)), (''checks'', JInt (st_checks s)), (''checksTotal'', JInt (st_checks_total s)),
      (''deletes'', JInt (st_deletes s)), (''renames'', JInt (st_renames s)), (''speed'', json_f64 (st_speed s)),
      (''eta'', JInt (st_eta s)), (''currentFile'', JString (st_current_file s)), (''stage'', JString (st_stage s)),
      (''stageDetail'', JString (st_stage_detail s)), (''lastUpdate'', JInt (st_last_update s)),
      (''fileTransfers'', JArray (map json_file_transfer (st_file_transfers s)))]"

definition json_task :: "rpc_env \<Rightarrow> task_snapshot \<Rightarrow> json" where
  "json_task env t = JObject
     [(''id'', JString (ts_id t)), (''name'', JString (ts_name t)), (''action'', JString (ts_action t)),
      (''status'', JString (ts_status t)), (''stats'', json_sync_stats (ts_stats t)),
      (''startedAt'', JString (rj_rfc3339 env (ts_started_at t))),
      (''endedAt'', case ts_ended_at t of None \<Rightarrow> JNull | Some x \<Rightarrow> JString (rj_rfc3339 env x))]"

definition json_sync_progress :: "sync_progress_event \<Rightarrow> json" where
  "json_sync_progress e = JObject
     [(''taskID'', JString (spe_task_id e)), (''profileID'', JString (spe_profile_id e)),
      (''action'', JString (spe_action e)), (''state'', JString (spe_state e)),
      (''transferred'', JInt (spe_transferred e)), (''total'', JInt (spe_total e)),
      (''bytesPerSec'', json_f64 (spe_bytes_per_sec e)), (''eta'', JInt (spe_eta e)), (''errors'', JInt (spe_errors e)),
      (''currentFile'', JString (spe_current_file e)), (''stage'', JString (spe_stage e)),
      (''stageDetail'', JString (spe_stage_detail e)), (''filesTransferred'', JInt (spe_files_transferred e)),
      (''totalFiles'', JInt (spe_total_files e)), (''checks'', JInt (spe_checks e)),
      (''totalChecks'', JInt (spe_total_checks e)), (''deletes'', JInt (spe_deletes e)),
      (''renames'', JInt (spe_renames e)), (''transfers'', JArray (map json_file_transfer (spe_transfers e))),
      (''errorMessage'', JString (spe_error_message e))]"

definition json_runtime_flow :: "runtime_flow_state \<Rightarrow> json" where
  "json_runtime_flow f = JObject
     ([(''id'', JString (rfs_id f)), (''status'', JString (if rfs_status f = [] then ''idle'' else rfs_status f)),
       (''lastError'', JString (rfs_last_error f)),
       (''ops'', JArray (map (\<lambda>o'. JObject [(''id'', JString (ros_id o')), (''status'', JString (ros_status o')),
          (''lastError'', JString (ros_last_error o'))]) (rfs_ops f))),
       (''log'', JArray (map (\<lambda>l. JObject [(''at'', JInt (le_at l)), (''status'', JString (le_status l)),
          (''opID'', JString (le_op_id l)), (''error'', JString (le_error l)), (''label'', JString (le_label l))])
          (rfs_log f)))] @
      (case rfs_sync f of None \<Rightarrow> [] | Some s \<Rightarrow> [(''sync'', json_sync_progress s)]))"

definition json_runtime_snapshot :: "runtime_snapshot_event \<Rightarrow> json" where
  "json_runtime_snapshot s = JObject
     [(''revision'', JInt (rse_revision s)), (''flows'', JArray (map json_runtime_flow (rse_flows s)))]"

section \<open>Parsers\<close>

text \<open>\<open>p.string(k)?.unwrap_or_default()\<close> and its kin.\<close>

definition or_default :: "'a \<Rightarrow> 'a option rpc \<Rightarrow> 'a rpc" where
  "or_default d r = (case r of Err e \<Rightarrow> Err e | Ok None \<Rightarrow> Ok d | Ok (Some v) \<Rightarrow> Ok v)"

definition r_bind :: "'a rpc \<Rightarrow> ('a \<Rightarrow> 'b rpc) \<Rightarrow> 'b rpc" where
  "r_bind r f = (case r of Err e \<Rightarrow> Err e | Ok v \<Rightarrow> f v)"

fun r_map :: "('a \<Rightarrow> 'b rpc) \<Rightarrow> 'a list \<Rightarrow> 'b list rpc" where
  "r_map f [] = Ok []"
| "r_map f (x # xs) = r_bind (f x) (\<lambda>y. r_bind (r_map f xs) (\<lambda>ys. Ok (y # ys)))"

text \<open>The settings of an operation: an object, or the text of one.\<close>

definition parse_sync_config :: "rpc_env \<Rightarrow> params \<Rightarrow> json_dict rpc" where
  "parse_sync_config env p =
     r_bind (p_dict p ''syncConfig'') (\<lambda>cfg. case cfg of
       Some m \<Rightarrow> Ok m
     | None \<Rightarrow> r_bind (p_string p ''syncConfig'') (\<lambda>s. case s of
         Some t \<Rightarrow> Ok (case parse_object env t of Some m \<Rightarrow> m | None \<Rightarrow> [])
       | None \<Rightarrow> Ok []))"

definition parse_operation :: "rpc_env \<Rightarrow> string \<Rightarrow> params \<Rightarrow> flow_operation rpc" where
  "parse_operation env flow_id p =
     r_bind (parse_sync_config env p) (\<lambda>cfg.
     r_bind (or_default [] (p_string p ''id'')) (\<lambda>i.
     r_bind (or_default [] (p_string p ''sourceRemote'')) (\<lambda>sr.
     r_bind (or_default ''/'' (p_string p ''sourcePath'')) (\<lambda>sp.
     r_bind (or_default [] (p_string p ''targetRemote'')) (\<lambda>tr.
     r_bind (or_default ''/'' (p_string p ''targetPath'')) (\<lambda>tp.
     r_bind (or_default [] (p_string p ''action'')) (\<lambda>act.
     r_bind (or_default False (p_bool p ''isExpanded'')) (\<lambda>ex.
     r_bind (or_default 0 (p_int p ''sortOrder'')) (\<lambda>so.
       Ok (normalize_action \<lparr> op_id = i, op_flow_id = flow_id, op_source_remote = sr, op_source_path = sp,
         op_target_remote = tr, op_target_path = tp, op_action = act, op_sync_config = cfg,
         op_is_expanded = ex, op_sort_order = so \<rparr>))))))))))"

definition parse_canvas :: "rpc_env \<Rightarrow> params \<Rightarrow> string rpc" where
  "parse_canvas env p =
     r_bind (p_string p ''canvasJSON'') (\<lambda>c. case c of
       Some t \<Rightarrow> if t \<noteq> [] then Ok t
         else r_bind (p_dict p ''canvas'') (\<lambda>d. Ok (case d of Some m \<Rightarrow> stringify_json env m | None \<Rightarrow> ''{}''))
     | None \<Rightarrow> r_bind (p_dict p ''canvas'') (\<lambda>d. Ok (case d of Some m \<Rightarrow> stringify_json env m | None \<Rightarrow> ''{}'')))"

text \<open>The objects of an array; any other element is an error in the field \<open>fld\<close>.\<close>

definition each_object :: "string \<Rightarrow> (json_dict \<Rightarrow> 'a rpc) \<Rightarrow> json list \<Rightarrow> 'a list rpc" where
  "each_object fld f vs =
     r_map (\<lambda>v. case v of JObject d \<Rightarrow> f d | _ \<Rightarrow> Err (invalid_params fld None)) vs"

definition parse_flow :: "rpc_env \<Rightarrow> params \<Rightarrow> flow rpc" where
  "parse_flow env p =
     r_bind (or_default [] (p_string p ''id'')) (\<lambda>i.
     r_bind (parse_canvas env p) (\<lambda>canvas.
     r_bind (or_default [] (p_array p ''operations'')) (\<lambda>raw.
     r_bind (each_object ''operations'' (parse_operation env i) raw) (\<lambda>ops.
     r_bind (or_default [] (p_string p ''name'')) (\<lambda>name.
     r_bind (or_default False (p_bool p ''isCollapsed'')) (\<lambda>col.
     r_bind (or_default False (p_bool p ''scheduleEnabled'')) (\<lambda>en.
     r_bind (or_default [] (p_string p ''scheduleCron'')) (\<lambda>cron.
     r_bind (or_default 0 (p_int p ''sortOrder'')) (\<lambda>so.
       Ok \<lparr> f_id = i, f_name = name, f_is_collapsed = col, f_schedule_enabled = en, f_schedule_cron = cron,
         f_sort_order = so, f_operations = ops, f_canvas_json = canvas, f_created_at = [], f_updated_at = [] \<rparr>)))))))))"

definition parse_board_node :: "params \<Rightarrow> board_node rpc" where
  "parse_board_node p =
     (let coord = (\<lambda>k. case Option.bind (p_any p k) double_value of Some x \<Rightarrow> x | None \<Rightarrow> Fin 0) in
     r_bind (or_default [] (p_string p ''id'')) (\<lambda>i.
     r_bind (or_default [] (p_string p ''remoteName'')) (\<lambda>rn.
     r_bind (or_default [] (p_string p ''path'')) (\<lambda>path.
     r_bind (or_default [] (p_string p ''label'')) (\<lambda>label.
       Ok \<lparr> bn_id = i, bn_remote_name = rn, bn_path = path, bn_label = label, bn_x = coord ''x'', bn_y = coord ''y'' \<rparr>)))))"

definition parse_edge_config :: "rpc_env \<Rightarrow> params \<Rightarrow> string rpc" where
  "parse_edge_config env p =
     r_bind (p_dict p ''syncConfig'') (\<lambda>cfg. case cfg of
       Some m \<Rightarrow> Ok (stringify_json env m)
     | None \<Rightarrow> r_bind (p_string p ''syncConfig'') (\<lambda>s. case s of
         Some t \<Rightarrow> Ok (if t \<noteq> [] then t else ''{}'') | None \<Rightarrow> Ok ''{}''))"

definition parse_board_edge :: "rpc_env \<Rightarrow> params \<Rightarrow> board_edge rpc" where
  "parse_board_edge env p =
     r_bind (parse_edge_config env p) (\<lambda>cfg.
     r_bind (or_default [] (p_string p ''id'')) (\<lambda>i.
     r_bind (or_default [] (p_string p ''sourceID'')) (\<lambda>s.
     r_bind (or_default [] (p_string p ''targetID'')) (\<lambda>t.
     r_bind (or_default [] (p_string p ''action'')) (\<lambda>act.
       Ok \<lparr> be_id = i, be_source_id = s, be_target_id = t, be_action = act, be_sync_config = cfg \<rparr>)))))"

definition parse_board :: "rpc_env \<Rightarrow> params \<Rightarrow> board rpc" where
  "parse_board env p =
     r_bind (or_default [] (p_array p ''nodes'')) (\<lambda>rn.
     r_bind (each_object ''nodes'' parse_board_node rn) (\<lambda>nodes.
     r_bind (or_default [] (p_array p ''edges'')) (\<lambda>re.
     r_bind (each_object ''edges'' (parse_board_edge env) re) (\<lambda>edges.
     r_bind (or_default [] (p_string p ''id'')) (\<lambda>i.
     r_bind (or_default [] (p_string p ''name'')) (\<lambda>name.
       Ok \<lparr> b_id = i, b_name = name, b_created_at = [], b_updated_at = [], b_nodes = nodes, b_edges = edges \<rparr>))))))"

section \<open>Reading an operation back\<close>

lemma r_bind_simps [simp]: "r_bind (Ok v) f = f v" "r_bind (Err e) f = Err e"
  by (simp_all add: r_bind_def)

lemma or_default_simps [simp]: "or_default d (Ok (Some v)) = Ok v" "or_default d (Ok None) = Ok d" "or_default d (Err e) = Err e"
  by (simp_all add: or_default_def)

text \<open>A key without an alias is looked up as it is.\<close>

lemma read_present: "map_of p k = Some v \<Longrightarrow> v \<noteq> JNull \<Longrightarrow> read v = Some x \<Longrightarrow> p_read read p k = Ok (Some x)"
  by (simp add: p_read_def p_any_def aliases_def)

text \<open>
  An operation as the protocol shows it parses back to itself: only the position must be a
  64-bit integer. The action comes back in its normal form, which is also written into the settings.
\<close>

lemma resolved_resolved: "resolved_action (op\<lparr>op_action := resolved_action op\<rparr>) = resolved_action op"
proof -
  have "direction_normalize d = d \<and> trim d \<noteq> []" if "d \<in> {DIRECTION_PUSH, DIRECTION_BI, DIRECTION_BI_RESYNC}" for d
    using that by (auto simp: direction_normalize_def direction_is_valid_def direction_defs trim_def trim_by_def
        is_whitespace_def Let_def)
  with resolved_action_range [of op] show ?thesis by (simp add: resolved_action_def)
qed

lemma operation_reads_back:
  assumes "i64_value (op_sort_order op)"
  shows "parse_operation env (op_flow_id op) (json_operation op) = Ok (normalize_action op)"
  using assms resolved_resolved [of op]
  by (cases op) (simp add: parse_operation_def parse_sync_config_def p_defs read_present json_operation_def i64_value_def
      normalize_action_def Let_def)

text \<open>The settings of an operation given as text are refused before the branch that would parse them.\<close>

lemma text_config_refused:
  "parse_operation env fid [(''syncConfig'', JString t)] = Err (invalid_params ''syncConfig'' None)"
  by (simp add: parse_operation_def parse_sync_config_def p_dict_def p_read_def p_any_def aliases_def strip_suffix_def
      strip_prefix_def starts_with_def)

end
