(* ===== verification/LogBuffer.thy ===== *)
theory LogBuffer
  imports RpcModels
begin

text \<open>
  \<open>crates/gn-drive-core/src/rpc/log_buffer.rs\<close>: the ring of log lines behind \<open>logs.read\<close>. The
  buffer is the list of its lines, oldest first, and the count of dropped ones; the capacity is
  the argument \<open>c\<close>, at least 1 as \<open>LogBuffer::new\<close> makes it. It is a \<open>newest_buffer\<close> like the
  event mailboxes and the runtime log.
\<close>

datatype log_level = LogDebug | LogInfo | LogWarn | LogError

fun level_rank :: "log_level \<Rightarrow> nat" where
  "level_rank LogDebug = 0" | "level_rank LogInfo = 1" | "level_rank LogWarn = 2" | "level_rank LogError = 3"

fun level_label :: "log_level \<Rightarrow> string" where
  "level_label LogDebug = ''DEBUG''" | "level_label LogInfo = ''INFO''"
| "level_label LogWarn = ''WARN''" | "level_label LogError = ''ERROR''"

text \<open>\<open>to_ascii_lowercase\<close> before the comparison.\<close>

definition level_from_label :: "string \<Rightarrow> log_level option" where
  "level_from_label s =
     (let l = map ascii_lower s in
      if l = ''debug'' then Some LogDebug else if l = ''info'' then Some LogInfo
      else if l = ''warn'' \<or> l = ''warning'' then Some LogWarn else if l = ''error'' then Some LogError
      else None)"

record log_line =
  ll_time :: int
  ll_level :: log_level
  ll_msg :: string
  ll_fields :: "(string \<times> string) list"

type_synonym log_buffer = "log_line list \<times> nat"

definition log_buffer_new :: log_buffer where "log_buffer_new = ([], 0)"

definition buffer_push :: "nat \<Rightarrow> log_line \<Rightarrow> log_buffer \<Rightarrow> log_buffer" where
  "buffer_push c l b = (case b of (ls, d) \<Rightarrow>
     let ls' = ls @ [l]; k = length ls' - c in (drop k ls', d + k))"

definition read_lines :: "nat \<Rightarrow> log_level option \<Rightarrow> int option \<Rightarrow> log_buffer \<Rightarrow> log_line list \<times> nat" where
  "read_lines limit min_level since b = (case b of (ls, d) \<Rightarrow>
     let sel = filter (\<lambda>l. case since of None \<Rightarrow> True | Some s \<Rightarrow> s < ll_time l div 1000000)
                 (filter (\<lambda>l. case min_level of None \<Rightarrow> True | Some m \<Rightarrow> level_rank m \<le> level_rank (ll_level l)) ls)
     in (drop (length sel - limit) sel, d))"

definition json_log_line :: "rpc_env \<Rightarrow> log_line \<Rightarrow> json" where
  "json_log_line env l = JObject
     [(''time'', JString (rj_rfc3339 env (ll_time l))), (''level'', JString (level_label (ll_level l))),
      (''msg'', JString (ll_msg l)), (''fields'', JObject (map (\<lambda>(k, v). (k, JString v)) (ll_fields l)))]"

definition buffer_read :: "rpc_env \<Rightarrow> nat \<Rightarrow> log_level option \<Rightarrow> int option \<Rightarrow> log_buffer \<Rightarrow> json" where
  "buffer_read env limit min_level since b = (case read_lines limit min_level since b of (ls, d) \<Rightarrow>
     JObject [(''lines'', JArray (map (json_log_line env) ls)), (''dropped'', JInt (int d))])"

interpretation log_ring: newest_buffer "buffer_push (Suc c)" fst "Suc c" for c
  by unfold_locales (auto simp: buffer_push_def last_n_def Let_def split: prod.split)

text \<open>Every pushed line is kept or counted as dropped, and the kept ones are the newest.\<close>

lemma pushes_account:
  "length (fst b) \<le> Suc c \<Longrightarrow>
   length (fst (fold (buffer_push (Suc c)) ls b)) + snd (fold (buffer_push (Suc c)) ls b) =
     length (fst b) + snd b + length ls"
proof (induction ls arbitrary: b)
  case (Cons l ls)
  have "length (fst (buffer_push (Suc c) l b)) \<le> Suc c"
    "length (fst (buffer_push (Suc c) l b)) + snd (buffer_push (Suc c) l b) = length (fst b) + snd b + 1"
    by (auto simp: buffer_push_def Let_def split: prod.split)
  with Cons.IH [of "buffer_push (Suc c) l b"] show ?case by simp
qed simp

lemma last_n_last_n: "last_n k (last_n m xs) = last_n (min k m) xs"
proof -
  have "length xs - m + (m - k) = length xs - k" if "k \<le> m" "m \<le> length xs" using that by simp
  moreover have "length xs - m + (length xs - (length xs - m) - k) = length xs - min k m"
    by (cases "k \<le> m"; cases "m \<le> length xs") simp_all
  ultimately show ?thesis by (simp add: last_n_def add.commute)
qed

text \<open>Reading without filters answers the newest \<open>limit\<close> of all the lines ever logged.\<close>

lemma read_newest:
  "fst (read_lines limit None None (fold (buffer_push (Suc c)) ls log_buffer_new)) = last_n (min limit (Suc c)) ls"
proof (cases "ls = []")
  case False
  then have "fst (fold (buffer_push (Suc c)) ls log_buffer_new) = last_n (Suc c) ls"
    using log_ring.content_pushes [of ls c log_buffer_new] by (simp add: log_buffer_new_def)
  then show ?thesis
    by (cases "fold (buffer_push (Suc c)) ls log_buffer_new")
      (simp add: read_lines_def Let_def last_n_last_n flip: last_n_def)
qed (simp add: read_lines_def log_buffer_new_def last_n_def)

end
