(* ===== verification/StoreLaws.thy ===== *)
theory StoreLaws
  imports Store
begin

text \<open>
  What the repositories of \<open>Store\<close> guarantee: the laws of a keyed table as a locale, interpreted on
  the tables' upserts; the invariant of the tables under every operation and every fault; the
  all-or-nothing behaviour of the transactions; and the round trips of profiles and flows.
\<close>

section \<open>Keyed tables\<close>

text \<open>\<open>merged old new\<close> is what a \<open>put\<close> over an entry leaves.\<close>

locale repository =
  fixes lookup :: "'s \<Rightarrow> 'k \<Rightarrow> 'v option" and put :: "'v \<Rightarrow> 's \<Rightarrow> 's" and remove :: "'k \<Rightarrow> 's \<Rightarrow> 's"
    and key :: "'v \<Rightarrow> 'k" and merged :: "'v \<Rightarrow> 'v \<Rightarrow> 'v" and wf :: "'v \<Rightarrow> bool"
  assumes lookup_put: "lookup (put v s) k =
      (if k = key v then Some (case lookup s k of Some old \<Rightarrow> merged old v | None \<Rightarrow> v) else lookup s k)"
    and lookup_remove: "lookup (remove k s) k' = (if k' = k then None else lookup s k')"
    and merged_self: "wf v \<Longrightarrow> merged v v = v"
    and merged_again: "merged (merged u v) v = merged u v"
begin

lemma put_other: "k \<noteq> key v \<Longrightarrow> lookup (put v s) k = lookup s k"
  by (simp add: lookup_put)

lemma put_new: "lookup s (key v) = None \<Longrightarrow> lookup (put v s) (key v) = Some v"
  by (simp add: lookup_put)

lemma put_idempotent: "wf v \<Longrightarrow> lookup (put v (put v s)) k = lookup (put v s) k"
  by (simp add: lookup_put merged_self merged_again split: option.split)

lemma put_commute: "key u \<noteq> key v \<Longrightarrow> lookup (put u (put v s)) k = lookup (put v (put u s)) k"
  by (simp add: lookup_put)

lemma remove_put_new: "lookup s (key v) = None \<Longrightarrow> lookup (remove (key v) (put v s)) k = lookup s k"
  by (simp add: lookup_put lookup_remove)

end

lemma set_columns_Nil [simp]:
  "set_columns C U [] new = []" "set_columns C U old [] = []" "set_columns [] U old new = []"
  by (simp_all add: set_columns_def)

lemma set_columns_Cons [simp]:
  "set_columns (c # C) U (x # old) (y # new) = (if c \<in> set U then y else x) # set_columns C U old new"
  by (simp add: set_columns_def)

lemma length_set_columns [simp]:
  "length (set_columns C U old new) = min (length C) (min (length old) (length new))"
  by (simp add: set_columns_def)

lemma set_columns_same: "length C = length r \<Longrightarrow> set_columns C U r r = r"
  by (induction C r rule: list_induct2) auto

lemma set_columns_twice:
  "set_columns C U (set_columns C U old new) new = set_columns C U old new"
proof (induction C arbitrary: old new)
  case (Cons c C)
  then show ?case by (cases old; cases new) auto
qed simp

lemma set_columns_row_key:
  assumes "C \<noteq> []" "hd C \<notin> set U" "row_key old = row_key new"
  shows "row_key (set_columns C U old new) = row_key new"
  using assms by (cases C; cases old; cases new) (auto simp: row_key_def)

lemma set_columns_key:
  assumes "length old = length C" "length new = length C" "row_key old = row_key new"
    "set (tl C) \<subseteq> set U"
  shows "set_columns C U old new = new"
  using assms by (cases C; cases old; cases new) (auto simp: row_key_def set_columns_all)

text \<open>A table with its columns, as a repository of rows of the right length.\<close>

definition put_row :: "string list \<Rightarrow> string list \<Rightarrow> row \<Rightarrow> table \<Rightarrow> table" where
  "put_row C U r tbl = upsert (set_columns C U) r tbl"

definition remove_row :: "sql_value \<Rightarrow> table \<Rightarrow> table" where
  "remove_row k tbl = snd (delete_where (\<lambda>r. row_key r = k) tbl)"

lemma select_put_row:
  assumes "C \<noteq> []" "hd C \<notin> set U"
  shows "select_key k (put_row C U r tbl) =
    (if k = row_key r then Some (case select_key k tbl of Some q \<Rightarrow> set_columns C U q r | None \<Rightarrow> r)
     else select_key k tbl)"
  unfolding put_row_def by (rule select_upsert) (rule set_columns_row_key [OF assms])

lemma select_remove_row: "select_key k' (remove_row k tbl) = (if k' = k then None else select_key k' tbl)"
  unfolding remove_row_def delete_where_def by (simp add: select_filter_key)

lemma keyed_put_row: "C \<noteq> [] \<Longrightarrow> hd C \<notin> set U \<Longrightarrow> keyed tbl \<Longrightarrow> keyed (put_row C U r tbl)"
  unfolding put_row_def by (rule keyed_upsert) (rule set_columns_row_key)

lemma set_put_row:
  "set (put_row C U r tbl) \<subseteq> set tbl \<union> {r} \<union> (\<lambda>q. set_columns C U q r) ` set tbl"
  by (auto simp: put_row_def upsert_def)

lemma put_row_length:
  "(\<forall>q \<in> set tbl. length q = length C) \<Longrightarrow> length r = length C \<Longrightarrow>
     \<forall>q \<in> set (put_row C U r tbl). length q = length C"
  using set_put_row [of C U r tbl] by (fastforce simp: subset_iff)

lemma table_repository:
  assumes "C \<noteq> []" "hd C \<notin> set U"
  shows "repository (\<lambda>tbl k. select_key k tbl) (put_row C U) remove_row row_key (set_columns C U)
    (\<lambda>r. length r = length C)"
  by unfold_locales (simp_all add: select_put_row [OF assms] select_remove_row set_columns_same set_columns_twice)

interpretation setting_rows: repository "\<lambda>tbl k. select_key k tbl" "put_row [''key'', ''value''] [''value'']"
  remove_row row_key "set_columns [''key'', ''value''] [''value'']" "\<lambda>r. length r = length [''key'', ''value'']"
  by (rule table_repository) simp_all

interpretation profile_rows: repository "\<lambda>tbl k. select_key k tbl" "put_row PROFILE_COLUMNS PROFILE_UPDATES"
  remove_row row_key "set_columns PROFILE_COLUMNS PROFILE_UPDATES" "\<lambda>r. length r = length PROFILE_COLUMNS"
  by (rule table_repository) (simp_all add: PROFILE_COLUMNS_def PROFILE_UPDATES_def)

interpretation schedule_rows: repository "\<lambda>tbl k. select_key k tbl" "put_row SCHEDULE_COLUMNS SCHEDULE_UPDATES"
  remove_row row_key "set_columns SCHEDULE_COLUMNS SCHEDULE_UPDATES" "\<lambda>r. length r = length SCHEDULE_COLUMNS"
  by (rule table_repository) (simp_all add: SCHEDULE_COLUMNS_def SCHEDULE_UPDATES_def)

interpretation history_rows: repository "\<lambda>tbl k. select_key k tbl" "put_row HISTORY_COLUMNS HISTORY_UPDATES"
  remove_row row_key "set_columns HISTORY_COLUMNS HISTORY_UPDATES" "\<lambda>r. length r = length HISTORY_COLUMNS"
  by (rule table_repository) (simp_all add: HISTORY_COLUMNS_def HISTORY_UPDATES_def)

interpretation board_rows: repository "\<lambda>tbl k. select_key k tbl" "put_row BOARD_COLUMNS BOARD_UPDATES"
  remove_row row_key "set_columns BOARD_COLUMNS BOARD_UPDATES" "\<lambda>r. length r = length BOARD_COLUMNS"
  by (rule table_repository) (simp_all add: BOARD_COLUMNS_def BOARD_UPDATES_def)

interpretation flow_rows: repository "\<lambda>tbl k. select_key k tbl" "put_row FLOW_COLUMNS FLOW_UPDATES"
  remove_row row_key "set_columns FLOW_COLUMNS FLOW_UPDATES" "\<lambda>r. length r = length FLOW_COLUMNS"
  by (rule table_repository) (simp_all add: FLOW_COLUMNS_def FLOW_UPDATES_def)

interpretation delta_rows: repository "\<lambda>tbl k. select_key k tbl" "put_row DELTA_COLUMNS DELTA_UPDATES"
  remove_row row_key "set_columns DELTA_COLUMNS DELTA_UPDATES" "\<lambda>r. length r = length DELTA_COLUMNS"
  by (rule table_repository) (simp_all add: DELTA_COLUMNS_def DELTA_UPDATES_def)

section \<open>Every call as a value\<close>

datatype store_call =
    CallSetting string string | CallSaveProfile profile | CallDeleteProfile string
  | CallSaveSchedule schedule | CallDeleteSchedule string | CallSaveHistory history_entry | CallClearHistory
  | CallSaveBoard board | CallDeleteBoard string | CallSaveFlow flow | CallDeleteFlow string
  | CallFullSync string string | CallRead "tables \<Rightarrow> unit" | CallMigrate | CallClose

fun run_call :: "store_env \<Rightarrow> store_call \<Rightarrow> store \<Rightarrow> store" where
  "run_call env (CallSetting k v) st = snd (set_setting env k v st)"
| "run_call env (CallSaveProfile p) st = snd (snd (save_profile env p st))"
| "run_call env (CallDeleteProfile n) st = snd (delete_profile env n st)"
| "run_call env (CallSaveSchedule s) st = snd (save_schedule env s st)"
| "run_call env (CallDeleteSchedule i) st = snd (delete_schedule env i st)"
| "run_call env (CallSaveHistory e) st = snd (insert_history env e st)"
| "run_call env CallClearHistory st = snd (clear_history env st)"
| "run_call env (CallSaveBoard b) st = snd (save_board_graph env b st)"
| "run_call env (CallDeleteBoard i) st = snd (delete_board env i st)"
| "run_call env (CallSaveFlow f) st = snd (save_flow env f st)"
| "run_call env (CallDeleteFlow i) st = snd (delete_flow env i st)"
| "run_call env (CallFullSync k p) st = snd (record_full_sync env k p st)"
| "run_call env (CallRead q) st = snd (run_query env q st)"
| "run_call env CallMigrate st = snd (apply_migrations env [(1, None)] st)"
| "run_call env CallClose st = db_close st"

definition store_new :: "bool list \<Rightarrow> store" where
  "store_new faults = \<lparr> ss_tables = Some tables_empty, ss_faults = faults, ss_in_tx = False \<rparr>"

section \<open>The invariant\<close>

definition table_ok :: "string list \<Rightarrow> table \<Rightarrow> bool" where
  "table_ok C tbl \<longleftrightarrow> keyed tbl \<and> (\<forall>r \<in> set tbl. length r = length C)"

definition children_ok :: "nat \<Rightarrow> table \<Rightarrow> table \<Rightarrow> bool" where
  "children_ok n parents tbl \<longleftrightarrow> distinct (map (\<lambda>r. (r ! 0, r ! 1)) tbl) \<and>
     (\<forall>r \<in> set tbl. length r = n \<and> r ! 1 \<in> row_key ` set parents)"

definition tables_ok :: "tables \<Rightarrow> bool" where
  "tables_ok t \<longleftrightarrow> table_ok [''key'', ''value''] (tb_settings t) \<and> table_ok PROFILE_COLUMNS (tb_profiles t) \<and>
     table_ok SCHEDULE_COLUMNS (tb_schedules t) \<and> table_ok HISTORY_COLUMNS (tb_history t) \<and>
     table_ok DELTA_COLUMNS (tb_delta t) \<and> table_ok BOARD_COLUMNS (tb_boards t) \<and>
     table_ok FLOW_COLUMNS (tb_flows t) \<and> children_ok 7 (tb_boards t) (tb_nodes t) \<and>
     children_ok 6 (tb_boards t) (tb_edges t) \<and> children_ok 10 (tb_flows t) (tb_operations t) \<and>
     keyed (tb_operations t)"

definition holds :: "(tables \<Rightarrow> bool) \<Rightarrow> store \<Rightarrow> bool" where
  "holds Q st = (case ss_tables st of None \<Rightarrow> True | Some t \<Rightarrow> Q t)"

text \<open>
  What a call leaves: \<open>Q\<close> when it succeeds, still \<open>P\<close> when it fails, since a failed ROLLBACK leaves
  the statements already run.
\<close>

definition triple :: "(tables \<Rightarrow> bool) \<Rightarrow> (store \<Rightarrow> (store_error, 'a) result \<times> store) \<Rightarrow> (tables \<Rightarrow> bool) \<Rightarrow> bool" where
  "triple P body Q \<longleftrightarrow> (\<forall>st. holds P st \<longrightarrow>
     (case body st of (Ok _, st') \<Rightarrow> holds Q st' | (Err _, st') \<Rightarrow> holds P st'))"

named_theorems store_rules

lemma ss_statement [simp]:
  "statement st = (b, st') \<Longrightarrow> ss_tables st' = ss_tables st \<and> ss_in_tx st' = ss_in_tx st"
  by (auto simp: statement_def split: list.splits)

lemma tripleI:
  assumes "\<And>st v st'. holds P st \<Longrightarrow> f st = (Ok v, st') \<Longrightarrow> holds Q st'"
    and "\<And>st e st'. holds P st \<Longrightarrow> f st = (Err e, st') \<Longrightarrow> holds P st'"
  shows "triple P f Q"
  unfolding triple_def
proof (intro allI impI)
  fix st
  assume "holds P st"
  then show "case f st of (Ok _, st') \<Rightarrow> holds Q st' | (Err _, st') \<Rightarrow> holds P st'"
    using assms by (cases "f st"; cases "fst (f st)") auto
qed

lemma triple_Ok: "triple P f Q \<Longrightarrow> f st = (Ok v, st') \<Longrightarrow> holds P st \<Longrightarrow> holds Q st'"
  by (auto simp: triple_def)

lemma triple_Err: "triple P f Q \<Longrightarrow> f st = (Err e, st') \<Longrightarrow> holds P st \<Longrightarrow> holds P st'"
  by (auto simp: triple_def)

lemma triple_exec [store_rules]:
  "(\<And>t n t'. P t \<Longrightarrow> f t = Some (n, t') \<Longrightarrow> Q t') \<Longrightarrow> triple P (exec env f) Q"
  by (auto simp: triple_def holds_def exec_def split: option.splits prod.splits bool.splits dest!: ss_statement)

lemma triple_exec_unit [store_rules]:
  assumes "\<And>t t'. P t \<Longrightarrow> f t = Some t' \<Longrightarrow> Q t'"
  shows "triple P (exec_unit env f) Q"
proof -
  have "triple P (exec env (\<lambda>t. case f t of None \<Rightarrow> None | Some t' \<Rightarrow> count1 t')) Q"
    by (rule triple_exec) (use assms in \<open>auto simp: count1_def split: option.splits\<close>)
  note triple_Ok [OF this] triple_Err [OF this]
  then show ?thesis
    by (intro tripleI) (auto simp: exec_unit_def split: prod.splits sum.splits)
qed

lemma triple_delete_one [store_rules]:
  assumes "\<And>t n t'. P t \<Longrightarrow> f t = (n, t') \<Longrightarrow> P t'"
  shows "triple P (delete_one env f) P"
proof -
  have "triple P (exec env (\<lambda>t. Some (f t))) P" by (rule triple_exec) (use assms in auto)
  note triple_Ok [OF this] triple_Err [OF this]
  then show ?thesis
    by (intro tripleI) (auto simp: delete_one_def split: prod.splits sum.splits if_splits)
qed

lemma triple_query [store_rules]: "triple P (run_query env q) P"
  by (auto simp: triple_def holds_def run_query_def split: option.splits prod.splits bool.splits dest!: ss_statement)

lemma triple_and_then [store_rules]:
  assumes "triple P f Q" "triple Q g R" "\<And>t. Q t \<Longrightarrow> P t"
  shows "triple P (and_then f g) R"
proof -
  have w: "holds Q st \<Longrightarrow> holds P st" for st using assms(3) by (auto simp: holds_def split: option.splits)
  note f = triple_Ok [OF assms(1)] triple_Err [OF assms(1)]
  note g = triple_Ok [OF assms(2)] triple_Err [OF assms(2)]
  show ?thesis
  proof (rule tripleI)
    fix st v st'
    assume "holds P st" "and_then f g st = (Ok v, st')"
    then show "holds R st'" using f(1) g(1) by (auto simp: and_then_def split: prod.splits sum.splits)
  next
    fix st e st'
    assume "holds P st" "and_then f g st = (Err e, st')"
    then show "holds P st'" using f g(2) w by (auto simp: and_then_def split: prod.splits sum.splits)
  qed
qed

lemma triple_exec_all [store_rules]:
  assumes "\<And>x. x \<in> set xs \<Longrightarrow> triple Q (f x) Q"
  shows "triple Q (exec_all f xs) Q"
  using assms
proof (induction xs)
  case Nil
  show ?case by (rule tripleI) simp_all
next
  case (Cons x xs)
  then have x: "triple Q (f x) Q" and xs: "triple Q (exec_all f xs) Q" by simp_all
  note x = triple_Ok [OF x] triple_Err [OF x]
  note xs = triple_Ok [OF xs] triple_Err [OF xs]
  show ?case
  proof (rule tripleI)
    fix st v st'
    assume "holds Q st" "exec_all f (x # xs) st = (Ok v, st')"
    then show "holds Q st'" using x(1) xs(1) by (auto split: prod.splits sum.splits)
  next
    fix st e st'
    assume "holds Q st" "exec_all f (x # xs) st = (Err e, st')"
    then show "holds Q st'" using x xs(2) by (auto split: prod.splits sum.splits)
  qed
qed

lemma triple_weaken: "triple P f Q \<Longrightarrow> (\<And>t. Q t \<Longrightarrow> R t) \<Longrightarrow> triple P f R"
  by (rule tripleI) (auto dest: triple_Ok triple_Err simp: holds_def split: option.splits)

lemma triple_transaction [store_rules]:
  assumes "triple P body P"
  shows "triple P (transaction env body) P"
proof -
  have t: "holds P st'" if "body st = (r, st')" "holds P st" for st st' r
    using assms that by (cases r) (auto simp: triple_def)
  show ?thesis unfolding triple_def
  proof (intro allI impI)
    fix st
    assume st: "holds P st"
    show "case transaction env body st of (Ok _, st') \<Rightarrow> holds P st' | (Err _, st') \<Rightarrow> holds P st'"
    proof (cases "ss_tables st")
      case None
      then show ?thesis using st by (simp add: transaction_def holds_def)
    next
      case (Some t0)
      obtain ok st1 where s1: "statement st = (ok, st1)" by fastforce
      obtain r st2 where b: "body (st1\<lparr>ss_in_tx := True\<rparr>) = (r, st2)" by fastforce
      obtain ok' st3 where s3: "statement st2 = (ok', st3)" by fastforce
      have h1: "holds P st1" using st s1 by (simp add: holds_def ss_statement [OF s1])
      have "holds P (st1\<lparr>ss_in_tx := True\<rparr>)" using h1 by (simp add: holds_def)
      from t [OF b this] have "holds P st3" by (simp add: holds_def ss_statement [OF s3])
      moreover have "P t0" using st Some by (simp add: holds_def)
      ultimately show ?thesis using h1 Some s1 b s3
        by (auto simp: transaction_def holds_def split: bool.splits sum.splits)
    qed
  qed
qed

lemma table_ok_put:
  "table_ok C tbl \<Longrightarrow> C \<noteq> [] \<Longrightarrow> hd C \<notin> set U \<Longrightarrow> length r = length C \<Longrightarrow> table_ok C (upsert (set_columns C U) r tbl)"
  using keyed_put_row [of C U tbl r] put_row_length [of tbl C r U] by (simp add: table_ok_def put_row_def)

lemma table_ok_filter: "table_ok C tbl \<Longrightarrow> table_ok C (filter P tbl)"
  by (simp add: table_ok_def keyed_filter)

lemma put_row_keys:
  assumes "C \<noteq> []" "hd C \<notin> set U"
  shows "row_key ` set (upsert (set_columns C U) r tbl) = insert (row_key r) (row_key ` set tbl)"
proof (rule set_eqI)
  fix k
  show "k \<in> row_key ` set (upsert (set_columns C U) r tbl) \<longleftrightarrow> k \<in> insert (row_key r) (row_key ` set tbl)"
    using select_put_row [OF assms, of k r tbl] select_key_None [of k "put_row C U r tbl"] select_key_None [of k tbl]
    by (auto simp: put_row_def split: if_splits)
qed

lemma children_ok_mono:
  "children_ok n ps tbl \<Longrightarrow> row_key ` set ps \<subseteq> row_key ` set ps' \<Longrightarrow> children_ok n ps' tbl"
  unfolding children_ok_def by blast

lemma children_ok_filter: "children_ok n ps tbl \<Longrightarrow> children_ok n ps (filter P tbl)"
  by (simp add: children_ok_def distinct_map_filter)

lemma children_ok_remove:
  "children_ok n ps tbl \<Longrightarrow> children_ok n (filter (\<lambda>r. row_key r \<noteq> k) ps) (filter (\<lambda>r. r ! 1 \<noteq> k) tbl)"
  unfolding children_ok_def by (auto simp: distinct_map_filter)

lemma children_ok_insert:
  "children_ok n ps tbl \<Longrightarrow> length r = n \<Longrightarrow> r ! 1 \<in> row_key ` set ps \<Longrightarrow>
     \<not> list_ex (\<lambda>q. q ! 0 = r ! 0 \<and> q ! 1 = r ! 1) tbl \<Longrightarrow> children_ok n ps (tbl @ [r])"
  by (auto simp: children_ok_def list_ex_iff)

lemma columns_ok:
  "PROFILE_COLUMNS \<noteq> []" "hd PROFILE_COLUMNS \<notin> set PROFILE_UPDATES" "length PROFILE_COLUMNS = 48"
  "SCHEDULE_COLUMNS \<noteq> []" "hd SCHEDULE_COLUMNS \<notin> set SCHEDULE_UPDATES" "length SCHEDULE_COLUMNS = 9"
  "HISTORY_COLUMNS \<noteq> []" "hd HISTORY_COLUMNS \<notin> set HISTORY_UPDATES" "length HISTORY_COLUMNS = 11"
  "BOARD_COLUMNS \<noteq> []" "hd BOARD_COLUMNS \<notin> set BOARD_UPDATES" "length BOARD_COLUMNS = 6"
  "FLOW_COLUMNS \<noteq> []" "hd FLOW_COLUMNS \<notin> set FLOW_UPDATES" "length FLOW_COLUMNS = 9"
  "DELTA_COLUMNS \<noteq> []" "hd DELTA_COLUMNS \<notin> set DELTA_UPDATES"
  "length DELTA_COLUMNS = 5"
  by (simp_all add: PROFILE_COLUMNS_def PROFILE_UPDATES_def SCHEDULE_COLUMNS_def SCHEDULE_UPDATES_def
      HISTORY_COLUMNS_def HISTORY_UPDATES_def BOARD_COLUMNS_def BOARD_UPDATES_def FLOW_COLUMNS_def FLOW_UPDATES_def
      DELTA_COLUMNS_def DELTA_UPDATES_def)

lemma args_length [simp]:
  "length (profile_args env p) = 48" "length (schedule_args env s) = 9" "length (history_args e) = 11"
  "length (board_args env b) = 6" "length (flow_args env f) = 9" "length (node_row i n) = 7"
  "length (edge_row i ed) = 6" "length (op_row env i op) = 10"
  by (simp_all add: profile_args_def schedule_args_def history_args_def board_args_def flow_args_def node_row_def
      edge_row_def op_row_def)

lemma setting_ok: "triple tables_ok (set_setting env k v) tables_ok"
  unfolding set_setting_def
  by (rule triple_exec_unit) (auto simp: tables_ok_def intro!: table_ok_put)

lemma save_profile_ok: "holds tables_ok st \<Longrightarrow> holds tables_ok (snd (snd (save_profile env p st)))"
proof -
  assume st: "holds tables_ok st"
  have "triple tables_ok (exec_unit env (\<lambda>t. Some (t\<lparr>tb_profiles :=
      upsert (set_columns PROFILE_COLUMNS PROFILE_UPDATES) (profile_args env q) (tb_profiles t)\<rparr>))) tables_ok" for q
    by (rule triple_exec_unit) (auto simp: tables_ok_def columns_ok intro!: table_ok_put)
  note * = triple_Ok [OF this] triple_Err [OF this]
  obtain r st' where "exec_unit env (\<lambda>t. Some (t\<lparr>tb_profiles := upsert (set_columns PROFILE_COLUMNS PROFILE_UPDATES)
      (profile_args env (p\<lparr>p_direction := saved_direction (p_direction p)\<rparr>)) (tb_profiles t)\<rparr>)) st = (r, st')"
    by fastforce
  then show ?thesis using st * by (cases r) (auto simp: save_profile_def Let_def)
qed

lemma delete_profile_ok: "triple tables_ok (delete_profile env n) tables_ok"
  unfolding delete_profile_def
  by (rule triple_delete_one) (auto simp: tables_ok_def delete_where_def intro!: table_ok_filter)

lemma save_schedule_ok: "triple tables_ok (save_schedule env s) tables_ok"
proof (cases "sch_id s = []")
  case True
  then show ?thesis by (intro tripleI) (auto simp: save_schedule_def)
next
  case False
  have "triple tables_ok (exec_unit env (\<lambda>t. Some (t\<lparr>tb_schedules :=
      upsert (set_columns SCHEDULE_COLUMNS SCHEDULE_UPDATES) (schedule_args env s) (tb_schedules t)\<rparr>))) tables_ok"
    by (rule triple_exec_unit) (auto simp: tables_ok_def columns_ok intro!: table_ok_put)
  then show ?thesis using False by (simp add: save_schedule_def triple_def)
qed

lemma delete_schedule_ok: "triple tables_ok (delete_schedule env i) tables_ok"
  unfolding delete_schedule_def
  by (rule triple_delete_one) (auto simp: tables_ok_def delete_where_def intro!: table_ok_filter)

lemma insert_history_ok: "triple tables_ok (insert_history env e) tables_ok"
proof (cases "h_id e = []")
  case True
  then show ?thesis by (intro tripleI) (auto simp: insert_history_def)
next
  case False
  have "triple tables_ok (exec_unit env (\<lambda>t. Some (t\<lparr>tb_history :=
      upsert (set_columns HISTORY_COLUMNS HISTORY_UPDATES) (history_args e) (tb_history t)\<rparr>))) tables_ok"
    by (rule triple_exec_unit) (auto simp: tables_ok_def columns_ok intro!: table_ok_put)
  then show ?thesis using False by (simp add: insert_history_def triple_def)
qed

lemma clear_history_ok: "triple tables_ok (clear_history env) tables_ok"
  unfolding clear_history_def by (rule triple_exec_unit) (auto simp: tables_ok_def table_ok_def keyed_def)

lemma full_sync_ok: "triple tables_ok (record_full_sync env k p) tables_ok"
  unfolding record_full_sync_def
  by (rule triple_exec_unit) (auto simp: tables_ok_def columns_ok intro!: table_ok_put)

definition board_saved :: "string \<Rightarrow> tables \<Rightarrow> bool" where
  "board_saved i t \<longleftrightarrow> tables_ok t \<and> SqlText i \<in> row_key ` set (tb_boards t)"

definition flow_saved :: "string \<Rightarrow> tables \<Rightarrow> bool" where
  "flow_saved i t \<longleftrightarrow> tables_ok t \<and> SqlText i \<in> row_key ` set (tb_flows t)"

lemma tables_ok_board_put:
  "tables_ok t \<Longrightarrow> upsert_board env bd t = Some t' \<Longrightarrow> board_saved (b_id bd) t'"
  using put_row_keys [of BOARD_COLUMNS BOARD_UPDATES "board_args env bd" "tb_boards t"]
  by (auto simp: upsert_board_def board_saved_def tables_ok_def columns_ok board_args_def row_key_def
      intro!: table_ok_put intro: children_ok_mono)

lemma clear_nodes_ok: "board_saved i t \<Longrightarrow> clear_nodes j t = Some t' \<Longrightarrow> board_saved i t'"
  by (auto simp: board_saved_def tables_ok_def clear_nodes_def children_ok_filter)

lemma clear_edges_ok: "board_saved i t \<Longrightarrow> clear_edges j t = Some t' \<Longrightarrow> board_saved i t'"
  by (auto simp: board_saved_def tables_ok_def clear_edges_def children_ok_filter)

lemma node_row_ids [simp]: "node_row i n ! 0 = SqlText (bn_id n)" "node_row i n ! 1 = SqlText i" "node_row i n ! Suc 0 = SqlText i"
  by (simp_all add: node_row_def)

lemma edge_row_ids [simp]: "edge_row i e ! 0 = SqlText (be_id e)" "edge_row i e ! 1 = SqlText i" "edge_row i e ! Suc 0 = SqlText i"
  by (simp_all add: edge_row_def)

lemma insert_node_ok: "board_saved i t \<Longrightarrow> insert_node i n t = Some t' \<Longrightarrow> board_saved i t'"
  using children_ok_insert [of 7 "tb_boards t" "tb_nodes t" "node_row i n"]
  by (auto simp: board_saved_def tables_ok_def insert_node_def insert_child_def split: if_splits)

lemma insert_edge_ok: "board_saved i t \<Longrightarrow> insert_edge i e t = Some t' \<Longrightarrow> board_saved i t'"
  using children_ok_insert [of 6 "tb_boards t" "tb_edges t" "edge_row i e"]
  by (auto simp: board_saved_def tables_ok_def insert_edge_def insert_child_def split: if_splits)

lemma save_board_graph_ok: "triple tables_ok (save_board_graph env bd) tables_ok"
proof -
  let ?S = "board_saved (b_id bd)"
  have 1: "triple tables_ok (exec_unit env (upsert_board env bd)) ?S"
    by (rule triple_exec_unit) (rule tables_ok_board_put)
  have 2: "triple ?S (exec_unit env (clear_nodes (b_id bd))) ?S"
    by (rule triple_exec_unit) (rule clear_nodes_ok)
  have 3: "triple ?S (exec_all (\<lambda>n. exec_unit env (insert_node (b_id bd) n)) (b_nodes bd)) ?S"
    by (rule triple_exec_all, rule triple_exec_unit) (rule insert_node_ok)
  have 4: "triple ?S (exec_unit env (clear_edges (b_id bd))) ?S"
    by (rule triple_exec_unit) (rule clear_edges_ok)
  have 5: "triple ?S (exec_all (\<lambda>e. exec_unit env (insert_edge (b_id bd) e)) (b_edges bd)) ?S"
    by (rule triple_exec_all, rule triple_exec_unit) (rule insert_edge_ok)
  have sub: "?S t \<Longrightarrow> tables_ok t" for t by (simp add: board_saved_def)
  show ?thesis unfolding save_board_graph_def
    by (rule triple_transaction, rule triple_weaken [OF _ sub], rule triple_and_then [OF 1 _ sub],
        rule triple_and_then [OF 2], rule triple_and_then [OF 3], rule triple_and_then [OF 4 5])
qed

lemma delete_board_ok: "triple tables_ok (delete_board env i) tables_ok"
  unfolding delete_board_def
  by (rule triple_delete_one)
    (auto simp: tables_ok_def delete_where_def intro: table_ok_filter children_ok_remove [simplified] split: if_splits)

lemma delete_flow_ok: "triple tables_ok (delete_flow env i) tables_ok"
  unfolding delete_flow_def
  by (rule triple_delete_one)
    (auto simp: tables_ok_def delete_where_def intro: table_ok_filter children_ok_remove [simplified] keyed_filter split: if_splits)

lemma tables_ok_flow_put:
  "tables_ok t \<Longrightarrow> upsert_flow env f t = Some t' \<Longrightarrow> flow_saved (f_id f) t'"
  using put_row_keys [of FLOW_COLUMNS FLOW_UPDATES "flow_args env f" "tb_flows t"]
  by (auto simp: upsert_flow_def flow_saved_def tables_ok_def columns_ok flow_args_def row_key_def
      intro!: table_ok_put intro: children_ok_mono)

lemma clear_operations_ok: "flow_saved i t \<Longrightarrow> clear_operations j t = Some t' \<Longrightarrow> flow_saved i t'"
  by (auto simp: flow_saved_def tables_ok_def clear_operations_def children_ok_filter keyed_filter)

lemma op_row_ids [simp]:
  "op_row env i op ! 0 = SqlText (op_id op)" "op_row env i op ! 1 = SqlText i"
  "op_row env i op ! Suc 0 = SqlText i" "row_key (op_row env i op) = SqlText (op_id op)"
  by (simp_all add: op_row_def row_key_def)

lemma insert_operation_ok:
  assumes "flow_saved i t" "insert_operation (op_row env i op) t = Some t'"
  shows "flow_saved i t'"
proof -
  have none: "select_key (SqlText (op_id op)) (tb_operations t) = None"
    and t': "t' = t\<lparr>tb_operations := tb_operations t @ [op_row env i op]\<rparr>"
    using assms(2) by (auto simp: insert_operation_def split: if_splits)
  have "q ! 0 = row_key q" if "q \<in> set (tb_operations t)" for q
    using assms(1) that by (cases q) (auto simp: flow_saved_def tables_ok_def children_ok_def row_key_def)
  then have "\<not> list_ex (\<lambda>q. q ! 0 = op_row env i op ! 0 \<and> q ! 1 = op_row env i op ! 1) (tb_operations t)"
    using none unfolding select_key_None by (force simp: list_ex_iff)
  moreover have "keyed (tb_operations t @ [op_row env i op])"
    using assms(1) none by (auto simp: flow_saved_def tables_ok_def keyed_def select_key_None)
  ultimately show ?thesis
    using assms(1) children_ok_insert [of 10 "tb_flows t" "tb_operations t" "op_row env i op"]
    by (auto simp: t' flow_saved_def tables_ok_def)
qed

lemma save_operation_ok: "triple (flow_saved i) (save_operation env i io) (flow_saved i)"
proof (cases io)
  case (Pair idx src)
  have "triple (flow_saved i) (exec_unit env (insert_operation (op_row env i (prepared_op i idx src)))) (flow_saved i)"
    by (rule triple_exec_unit) (rule insert_operation_ok)
  then show ?thesis
    using Pair by (cases "op_id src = []") (auto simp: save_operation_def triple_def)
qed

lemma save_flow_ok: "triple tables_ok (save_flow env f) tables_ok"
proof (cases "f_id f = []")
  case True
  then show ?thesis by (intro tripleI) (auto simp: save_flow_def)
next
  case False
  let ?S = "flow_saved (f_id f)"
  have 1: "triple tables_ok (exec_unit env (upsert_flow env f)) ?S"
    by (rule triple_exec_unit) (rule tables_ok_flow_put)
  have 2: "triple ?S (exec_unit env (clear_operations (f_id f))) ?S"
    by (rule triple_exec_unit) (rule clear_operations_ok)
  have 3: "triple ?S (exec_all (save_operation env (f_id f)) (enumerate 0 (f_operations f))) ?S"
    by (rule triple_exec_all) (rule save_operation_ok)
  have sub: "?S t \<Longrightarrow> tables_ok t" for t by (simp add: flow_saved_def)
  have "triple tables_ok
     (transaction env
        (and_then (exec_unit env (upsert_flow env f))
        (and_then (exec_unit env (clear_operations (f_id f)))
                  (exec_all (save_operation env (f_id f)) (enumerate 0 (f_operations f)))))) tables_ok"
    by (rule triple_transaction, rule triple_weaken [OF _ sub], rule triple_and_then [OF 1 _ sub],
        rule triple_and_then [OF 2 3])
  then show ?thesis using False by (simp add: save_flow_def triple_def)
qed

lemma migrate_ok: "triple tables_ok (apply_migrations env [(1, None)]) tables_ok"
proof -
  have q: "triple tables_ok (run_query env tb_user_version) tables_ok" by (rule triple_query)
  have e: "triple tables_ok (exec_unit env (\<lambda>t. Some (t\<lparr>tb_user_version := 1\<rparr>))) tables_ok"
    by (rule triple_exec_unit) (auto simp: tables_ok_def)
  show ?thesis
    by (rule tripleI)
      (auto simp: apply_migrations_def dest: triple_Ok [OF q] triple_Err [OF q] triple_Ok [OF e] triple_Err [OF e]
        split: prod.splits sum.splits if_splits)
qed

lemma triple_snd: "triple P f P \<Longrightarrow> holds P st \<Longrightarrow> holds P (snd (f st))"
  by (cases "f st"; cases "fst (f st)") (auto dest: triple_Ok triple_Err)

lemma run_call_ok: "holds tables_ok st \<Longrightarrow> holds tables_ok (run_call env c st)"
  by (cases c)
    (simp_all add: triple_snd [OF setting_ok] save_profile_ok triple_snd [OF delete_profile_ok]
      triple_snd [OF save_schedule_ok] triple_snd [OF delete_schedule_ok] triple_snd [OF insert_history_ok]
      triple_snd [OF clear_history_ok] triple_snd [OF save_board_graph_ok] triple_snd [OF delete_board_ok]
      triple_snd [OF save_flow_ok] triple_snd [OF delete_flow_ok] triple_snd [OF full_sync_ok]
      triple_snd [OF triple_query] triple_snd [OF migrate_ok] db_close_def, simp add: holds_def)

lemma store_new_ok: "holds tables_ok (store_new faults)"
  by (simp add: holds_def store_new_def tables_ok_def tables_empty_def table_ok_def children_ok_def keyed_def)

text \<open>
  C19: whatever calls are made on a new database and whichever of their statements fail (COMMIT and
  ROLLBACK included), the tables keep their keys unique, every row its columns, and no node, edge
  or operation outlives its board or flow.
\<close>

theorem tables_stay_consistent:
  "holds tables_ok (fold (run_call env) calls (store_new faults))"
proof -
  have "holds tables_ok st \<Longrightarrow> holds tables_ok (fold (run_call env) calls st)" for st
    by (induction calls arbitrary: st) (simp_all add: run_call_ok)
  then show ?thesis by (simp add: store_new_ok)
qed

section \<open>Transactions are all or nothing\<close>

text \<open>
  \<open>effect body G\<close>: a successful \<open>body\<close> did exactly what \<open>G\<close> does to the tables, and without
  faults it succeeds exactly when \<open>G\<close> does.
\<close>

definition effect :: "(store \<Rightarrow> (store_error, unit) result \<times> store) \<Rightarrow> (tables \<Rightarrow> tables option) \<Rightarrow> bool" where
  "effect body G \<longleftrightarrow> (\<forall>st t. ss_tables st = Some t \<longrightarrow>
     ss_in_tx (snd (body st)) = ss_in_tx st \<and> ss_tables (snd (body st)) \<noteq> None \<and>
     (fst (body st) = Ok () \<longrightarrow> G t \<noteq> None \<and> ss_tables (snd (body st)) = G t) \<and>
     (ss_faults st = [] \<longrightarrow> ss_faults (snd (body st)) = [] \<and> (G t \<noteq> None \<longrightarrow> fst (body st) = Ok ())))"

lemma effectI:
  assumes "\<And>st t. ss_tables st = Some t \<Longrightarrow>
     ss_in_tx (snd (body st)) = ss_in_tx st \<and> ss_tables (snd (body st)) \<noteq> None \<and>
     (fst (body st) = Ok () \<longrightarrow> G t \<noteq> None \<and> ss_tables (snd (body st)) = G t) \<and>
     (ss_faults st = [] \<longrightarrow> ss_faults (snd (body st)) = [] \<and> (G t \<noteq> None \<longrightarrow> fst (body st) = Ok ()))"
  shows "effect body G"
  using assms unfolding effect_def by blast

lemma exec_unit_cases:
  "ss_tables st = Some t \<Longrightarrow> statement st = (ok, st1) \<Longrightarrow>
     exec_unit env f st =
       (if ok then (case f t of None \<Rightarrow> (Err (store_error_of (DbStep (sv_message env))), st1)
                    | Some t' \<Rightarrow> (Ok (), st1\<lparr>ss_tables := Some t'\<rparr>))
        else (Err (store_error_of (DbStep (sv_message env))), st1))"
  by (simp add: exec_unit_def exec_def count1_def split: option.split bool.split)

lemma statement_no_faults: "ss_faults st = [] \<Longrightarrow> statement st = (True, st)"
  by (simp add: statement_def)

lemma effect_exec_unit: "effect (exec_unit env f) f"
proof (rule effectI)
  fix st :: store and t
  assume t: "ss_tables st = Some t"
  obtain ok st1 where s: "statement st = (ok, st1)" by fastforce
  note st1 = ss_statement [OF s]
  show "ss_in_tx (snd (exec_unit env f st)) = ss_in_tx st \<and> ss_tables (snd (exec_unit env f st)) \<noteq> None \<and>
     (fst (exec_unit env f st) = Ok () \<longrightarrow> f t \<noteq> None \<and> ss_tables (snd (exec_unit env f st)) = f t) \<and>
     (ss_faults st = [] \<longrightarrow> ss_faults (snd (exec_unit env f st)) = [] \<and>
        (f t \<noteq> None \<longrightarrow> fst (exec_unit env f st) = Ok ()))"
    unfolding exec_unit_cases [OF t s]
    using st1 t s by (cases ok; cases "f t") (auto simp: statement_no_faults)
qed

lemma effect_and_then:
  assumes "effect f F" "effect g G"
  shows "effect (and_then f g) (\<lambda>t. Option.bind (F t) G)"
proof (rule effectI)
  fix st :: store and t
  assume t: "ss_tables st = Some t"
  obtain r st1 where f: "f st = (r, st1)" by fastforce
  note F = assms(1) [unfolded effect_def, rule_format, OF t, unfolded f, simplified]
  show "ss_in_tx (snd (and_then f g st)) = ss_in_tx st \<and> ss_tables (snd (and_then f g st)) \<noteq> None \<and>
     (fst (and_then f g st) = Ok () \<longrightarrow> Option.bind (F t) G \<noteq> None \<and>
        ss_tables (snd (and_then f g st)) = Option.bind (F t) G) \<and>
     (ss_faults st = [] \<longrightarrow> ss_faults (snd (and_then f g st)) = [] \<and>
        (Option.bind (F t) G \<noteq> None \<longrightarrow> fst (and_then f g st) = Ok ()))"
  proof (cases r)
    case (Inl e)
    then have "and_then f g st = (Err e, st1)" by (simp add: and_then_def f)
    then show ?thesis using F Inl by (cases "F t") auto
  next
    case (Inr u)
    then have a: "and_then f g st = g st1" by (simp add: and_then_def f)
    from Inr F obtain t1 where t1: "F t = Some t1" "ss_tables st1 = Some t1" by auto
    show ?thesis using assms(2) [unfolded effect_def, rule_format, OF t1(2)] F t1(1) by (simp add: a)
  qed
qed

fun all_effects :: "('a \<Rightarrow> tables \<Rightarrow> tables option) \<Rightarrow> 'a list \<Rightarrow> tables \<Rightarrow> tables option" where
  "all_effects f [] t = Some t"
| "all_effects f (x # xs) t = Option.bind (f x t) (all_effects f xs)"

lemma effect_exec_all:
  assumes "\<And>x. effect (f x) (F x)"
  shows "effect (exec_all f xs) (all_effects F xs)"
proof (induction xs)
  case Nil
  then show ?case by (simp add: effect_def)
next
  case (Cons x xs)
  have "exec_all f (x # xs) = and_then (f x) (exec_all f xs)" by (rule ext) (simp add: and_then_def)
  moreover have "all_effects F (x # xs) = (\<lambda>t. Option.bind (F x t) (all_effects F xs))" by (rule ext) simp
  ultimately show ?case using effect_and_then [OF assms Cons.IH] by simp
qed

text \<open>What a transaction may leave, given the effect of its body.\<close>

lemma transaction_atomic:
  assumes "effect body G" "ss_tables st = Some t" "\<not> ss_in_tx st" "transaction env body st = (r, st')"
  shows "(if r = Ok () then ss_tables st' = G t \<and> G t \<noteq> None \<and> \<not> ss_in_tx st'
          else ss_tables st' = Some t \<or> ss_in_tx st') \<and>
    (ss_faults st = [] \<longrightarrow> ss_faults st' = [] \<and> \<not> ss_in_tx st' \<and> (r = Ok () \<longleftrightarrow> G t \<noteq> None))"
proof -
  obtain ok st1 where s1: "statement st = (ok, st1)" by fastforce
  obtain r2 st2 where b: "body (st1\<lparr>ss_in_tx := True\<rparr>) = (r2, st2)" by fastforce
  obtain ok' st3 where s3: "statement st2 = (ok', st3)" by fastforce
  have t1: "ss_tables (st1\<lparr>ss_in_tx := True\<rparr>) = Some t" using assms(2) ss_statement [OF s1] by simp
  note B = assms(1) [unfolded effect_def, rule_format, OF t1, unfolded b, simplified]
  have f1: "ok \<and> ss_faults st1 = []" if "ss_faults st = []"
    using s1 that by (simp add: statement_def)
  have f3: "ok' \<and> ss_faults st3 = []" if "ss_faults st2 = []"
    using s3 that by (simp add: statement_def)
  show ?thesis
  proof (cases ok)
    case False
    then show ?thesis
      using assms(2-4) s1 f1 ss_statement [OF s1] by (auto simp: transaction_def)
  next
    case True
    have n: "\<not> ss_in_tx st1" using assms(3) ss_statement [OF s1] by simp
    have e: "transaction env body st =
      (case r2 of Ok v \<Rightarrow> if ok' then (Ok v, st3\<lparr>ss_in_tx := False\<rparr>)
                          else (Err (store_error_of (DbStep (sv_message env))), st3)
       | Err e \<Rightarrow> if ok' then (Err e, st3\<lparr>ss_tables := Some t, ss_in_tx := False\<rparr>) else (Err e, st3))"
      using True n s1 b s3 assms(2) by (simp add: transaction_def split: sum.split bool.split)
    have f2: "ss_faults st2 = [] \<and> (G t \<noteq> None \<longrightarrow> r2 = Ok ())" if "ss_faults st = []"
      using B f1 [OF that] by simp
    have t3: "ss_tables st3 = ss_tables st2" "ss_in_tx st3" using ss_statement [OF s3] B by simp_all
    show ?thesis
    proof (cases r2)
      case (Inl x)
      then have "G t = None" if "ss_faults st = []" using f2 [OF that] by auto
      then show ?thesis using Inl e assms(4) t3 f2 f3 by (cases ok') auto
    next
      case (Inr u)
      then have "ss_tables st3 = G t" "G t \<noteq> None" using B t3 by auto
      then show ?thesis using Inr e assms(4) t3 f2 f3 by (cases ok') auto
    qed
  qed
qed

definition operation_effect :: "store_env \<Rightarrow> string \<Rightarrow> nat \<times> flow_operation \<Rightarrow> tables \<Rightarrow> tables option" where
  "operation_effect env fid io t =
     (if op_id (snd io) = [] then None
      else insert_operation (op_row env fid (prepared_op fid (fst io) (snd io))) t)"

definition flow_written :: "store_env \<Rightarrow> flow \<Rightarrow> tables \<Rightarrow> tables option" where
  "flow_written env f t = Option.bind (upsert_flow env f t) (\<lambda>t. Option.bind (clear_operations (f_id f) t)
     (all_effects (operation_effect env (f_id f)) (enumerate 0 (f_operations f))))"

definition board_written :: "store_env \<Rightarrow> board \<Rightarrow> tables \<Rightarrow> tables option" where
  "board_written env bd t = Option.bind (upsert_board env bd t) (\<lambda>t. Option.bind (clear_nodes (b_id bd) t)
     (\<lambda>t. Option.bind (all_effects (insert_node (b_id bd)) (b_nodes bd) t)
       (\<lambda>t. Option.bind (clear_edges (b_id bd) t) (all_effects (insert_edge (b_id bd)) (b_edges bd)))))"

lemma effect_save_operation: "effect (save_operation env fid io) (operation_effect env fid io)"
proof (cases "op_id (snd io) = []")
  case True
  then show ?thesis by (cases io) (auto simp: effect_def save_operation_def operation_effect_def)
next
  case False
  then have "save_operation env fid io = exec_unit env (operation_effect env fid io)"
    by (intro ext, cases io)
      (simp add: save_operation_def operation_effect_def [abs_def])
  then show ?thesis by (simp add: effect_exec_unit)
qed

lemma effect_save_flow:
  "effect (and_then (exec_unit env (upsert_flow env f))
     (and_then (exec_unit env (clear_operations (f_id f)))
               (exec_all (save_operation env (f_id f)) (enumerate 0 (f_operations f))))) (flow_written env f)"
  unfolding flow_written_def [abs_def]
  by (intro effect_and_then effect_exec_unit effect_exec_all effect_save_operation)

lemma effect_save_board_graph:
  "effect (and_then (exec_unit env (upsert_board env bd))
       (and_then (exec_unit env (clear_nodes (b_id bd)))
       (and_then (exec_all (\<lambda>n. exec_unit env (insert_node (b_id bd) n)) (b_nodes bd))
       (and_then (exec_unit env (clear_edges (b_id bd)))
                 (exec_all (\<lambda>e. exec_unit env (insert_edge (b_id bd) e)) (b_edges bd)))))) (board_written env bd)"
  unfolding board_written_def [abs_def]
  by (intro effect_and_then effect_exec_unit effect_exec_all)


section \<open>Round trips\<close>

lemma sort_key_map: "sort_key f (map g xs) = map g (sort_key (\<lambda>x. f (g x)) xs)"
proof -
  have "insort_key f (g x) (map g ys) = map g (insort_key (\<lambda>x. f (g x)) x ys)" for x ys
    by (induction ys) simp_all
  then show ?thesis by (induction xs) simp_all
qed

lemma run_query_ready: "ss_tables st = Some t \<Longrightarrow> ss_faults st = [] \<Longrightarrow> run_query env q st = (Ok (q t), st)"
  by (simp add: run_query_def statement_no_faults)

lemma query_one_ready:
  "ss_tables st = Some t \<Longrightarrow> ss_faults st = [] \<Longrightarrow>
     query_one env q scan st = (case q t of None \<Rightarrow> Err NotFound | Some r \<Rightarrow> Ok (scan r), st)"
  by (simp add: query_one_def run_query_ready split: option.split)

lemma exec_unit_ready:
  "ss_tables st = Some t \<Longrightarrow> ss_faults st = [] \<Longrightarrow> f t = Some t' \<Longrightarrow>
     exec_unit env f st = (Ok (), st\<lparr>ss_tables := Some t'\<rparr>)"
  using exec_unit_cases [of st t True st env f] by (simp add: statement_no_faults)

lemma select_key_ok: "tables_ok t \<Longrightarrow> select_key k (tb_profiles t) = Some r \<Longrightarrow> length r = 48 \<and> row_key r = k"
  using select_key_row [of k "tb_profiles t" r] by (auto simp: tables_ok_def table_ok_def columns_ok)

lemma profile_columns_set: "set (tl PROFILE_COLUMNS) \<subseteq> set PROFILE_UPDATES"
  by (simp add: PROFILE_COLUMNS_def PROFILE_UPDATES_def)

lemma profile_put_get:
  assumes "tables_ok t"
  shows "select_key k (upsert (set_columns PROFILE_COLUMNS PROFILE_UPDATES) (profile_args env p) (tb_profiles t)) =
    (if k = row_key (profile_args env p) then Some (profile_args env p) else select_key k (tb_profiles t))"
proof -
  have "set_columns PROFILE_COLUMNS PROFILE_UPDATES q (profile_args env p) = profile_args env p"
    if "select_key (row_key (profile_args env p)) (tb_profiles t) = Some q" for q
    using select_key_ok [OF assms that] by (intro set_columns_key) (simp_all add: columns_ok profile_columns_set)
  then show ?thesis
    using profile_rows.lookup_put [where v = "profile_args env p" and s = "tb_profiles t" and k = k]
    by (auto simp: put_row_def split: option.splits)
qed

lemma profile_row_key: "row_key (profile_args env p) = SqlText (p_name p)"
  by (simp add: row_key_def profile_args_def)

lemma opt_double_back:
  assumes "v \<noteq> Some NaN"
  shows "sv_is_null (stored (from_opt_double v)) \<longleftrightarrow> v = None"
    "v \<noteq> None \<Longrightarrow> Some (sv_double (stored (from_opt_double v))) = v"
  using assms by (cases v; simp add: stored_opt_double)+

lemma scan_profile_args:
  assumes "p_tps_limit p \<noteq> Some NaN"
    "string_slice env (json_string env (p_included_paths p)) = p_included_paths p"
    "string_slice env (json_string env (p_excluded_paths p)) = p_excluded_paths p"
  shows "scan_profile env (profile_args env p) = p"
  by (rule profile.equality) (simp_all add: scan_profile_def profile_args_def assms opt_double_back [OF assms(1)])

lemma delete_one_ready:
  "ss_tables st = Some t \<Longrightarrow> ss_faults st = [] \<Longrightarrow>
     delete_one env f st = (if fst (f t) = 0 then Err NotFound else Ok (), st\<lparr>ss_tables := Some (snd (f t))\<rparr>)"
  by (cases "f t") (simp add: delete_one_def exec_def statement_no_faults)

text \<open>
  C20: a profile that was saved reads back as it was given, with its direction trimmed; the other
  profiles read as before; and once deleted it is not found. The JSON codec is assumed to read
  back the profile's own two path lists, and a NaN rate limit is excluded, which SQLite stores as
  NULL.
\<close>

theorem profile_roundtrip:
  assumes "ss_tables st = Some t" "ss_faults st = []" "tables_ok t"
    "p_name p \<noteq> []" "direction_is_valid (saved_direction (p_direction p))" "p_tps_limit p \<noteq> Some NaN"
    "string_slice env (json_string env (p_included_paths p)) = p_included_paths p"
    "string_slice env (json_string env (p_excluded_paths p)) = p_excluded_paths p"
    "save_profile env p st = (r, p', st')"
  shows "r = Ok () \<and> p' = p\<lparr>p_direction := saved_direction (p_direction p)\<rparr> \<and>
    get_profile env (p_name p) st' = (Ok p', st') \<and>
    (\<forall>n. n = p_name p \<or> fst (get_profile env n st') = fst (get_profile env n st)) \<and>
    (case delete_profile env (p_name p) st' of (d, st'') \<Rightarrow>
       d = Ok () \<and> get_profile env (p_name p) st'' = (Err NotFound, st''))"
proof -
  define q where "q = p\<lparr>p_direction := saved_direction (p_direction p)\<rparr>"
  define tbl where "tbl = upsert (set_columns PROFILE_COLUMNS PROFILE_UPDATES) (profile_args env q) (tb_profiles t)"
  have s: "r = Ok ()" "p' = q" "st' = st\<lparr>ss_tables := Some (t\<lparr>tb_profiles := tbl\<rparr>)\<rparr>"
    using assms(1,2,4,5,9) by (auto simp: save_profile_def Let_def exec_unit_ready q_def tbl_def)
  have scan: "scan_profile env (profile_args env q) = q"
    using assms(6-8) by (intro scan_profile_args) (simp_all add: q_def)
  have get: "select_key k tbl = (if k = SqlText (p_name p) then Some (profile_args env q) else select_key k (tb_profiles t))"
    for k using profile_put_get [OF assms(3), of k env q] by (simp add: tbl_def profile_row_key q_def)
  have ready: "ss_tables st' = Some (t\<lparr>tb_profiles := tbl\<rparr>)" "ss_faults st' = []"
    using s(3) assms(2) by simp_all
  have del: "delete_profile env (p_name p) st' =
     (if filter (\<lambda>r. row_key r = SqlText (p_name p)) tbl = [] then Err NotFound else Ok (),
      st'\<lparr>ss_tables := Some (t\<lparr>tb_profiles := filter (\<lambda>r. row_key r \<noteq> SqlText (p_name p)) tbl\<rparr>)\<rparr>)"
    using delete_one_ready [OF ready] by (simp add: delete_profile_def delete_where_def)
  have "SqlText (p_name p) \<in> row_key ` set tbl"
    using get [of "SqlText (p_name p)"] select_key_None [of "SqlText (p_name p)" tbl] by auto
  then have "filter (\<lambda>r. row_key r = SqlText (p_name p)) tbl \<noteq> []"
    by (auto simp: filter_empty_conv)
  moreover have "get_profile env n st' =
      (if n = p_name p then Ok q else fst (get_profile env n st), st')" for n
    using assms(1,2) ready by (simp add: get_profile_def query_one_ready get scan)
  ultimately show ?thesis
    using s(1,2) ready by (simp add: del get_profile_def query_one_ready select_filter_key flip: q_def)
qed

text \<open>The operation a reader gets for the one that was saved at \<open>idx\<close>.\<close>

definition stored_op :: "string \<Rightarrow> nat \<Rightarrow> flow_operation \<Rightarrow> flow_operation" where
  "stored_op fid idx src = (let op = prepared_op fid idx src in
     op\<lparr>op_source_path := path_or_root (op_source_path op), op_target_path := path_or_root (op_target_path op)\<rparr>)"

lemma normalize_action_fields [simp]:
  "op_id (normalize_action op) = op_id op" "op_flow_id (normalize_action op) = op_flow_id op"
  "op_source_remote (normalize_action op) = op_source_remote op" "op_source_path (normalize_action op) = op_source_path op"
  "op_target_remote (normalize_action op) = op_target_remote op" "op_target_path (normalize_action op) = op_target_path op"
  "op_is_expanded (normalize_action op) = op_is_expanded op" "op_sort_order (normalize_action op) = op_sort_order op"
  by (simp_all add: normalize_action_def Let_def)

lemma normalize_action_congruence:
  assumes "op_action a = op_action b" "op_sync_config a = op_sync_config b"
  shows "op_action (normalize_action a) = op_action (normalize_action b)"
    "op_sync_config (normalize_action a) = op_sync_config (normalize_action b)"
  using assms by (simp_all add: normalize_action_def resolved_action_def Let_def)

lemma prepared_op_fields [simp]:
  "op_id (prepared_op fid idx src) = op_id src" "op_flow_id (prepared_op fid idx src) = fid"
  "op_source_remote (prepared_op fid idx src) = op_source_remote src"
  "op_source_path (prepared_op fid idx src) = op_source_path src"
  "op_target_remote (prepared_op fid idx src) = op_target_remote src"
  "op_target_path (prepared_op fid idx src) = op_target_path src"
  "op_is_expanded (prepared_op fid idx src) = op_is_expanded src"
  "op_sync_config (prepared_op fid idx src) = op_sync_config (normalize_action src)"
  "op_action (prepared_op fid idx src) = op_action (normalize_action src)"
  using normalize_action_congruence [of "src\<lparr>op_flow_id := fid,
      op_sort_order := (if op_sort_order src = 0 then int idx else op_sort_order src)\<rparr>" src]
  by (simp_all add: prepared_op_def)

lemma scan_op_row:
  assumes "parse_config env (sv_dict_json env (op_sync_config (normalize_action src))) =
    op_sync_config (normalize_action src)"
  shows "scan_operation env (op_row env fid (prepared_op fid idx src)) = stored_op fid idx src"
proof -
  let ?op = "stored_op fid idx src"
  have scan: "scan_operation env (op_row env fid (prepared_op fid idx src)) = normalize_action ?op"
    unfolding scan_operation_def
    by (rule arg_cong [where f = normalize_action], rule flow_operation.equality)
      (simp_all add: op_row_def stored_op_def Let_def assms)
  have "op_action (normalize_action ?op) = op_action (normalize_action (normalize_action src))"
    "op_sync_config (normalize_action ?op) = op_sync_config (normalize_action (normalize_action src))"
    by (rule normalize_action_congruence; simp add: stored_op_def Let_def)+
  then have "normalize_action ?op = ?op"
    by (intro flow_operation.equality) (simp_all add: normalize_action_idem, simp_all add: stored_op_def Let_def)
  with scan show ?thesis by simp
qed

definition op_rows :: "store_env \<Rightarrow> string \<Rightarrow> nat \<Rightarrow> flow_operation list \<Rightarrow> table" where
  "op_rows env fid n ops = map (\<lambda>(idx, op). op_row env fid (prepared_op fid idx op)) (enumerate n ops)"

lemma insert_all_operations:
  assumes "list_all (\<lambda>op. op_id op \<noteq> [] \<and> select_key (SqlText (op_id op)) (tb_operations t) = None) ops"
    "distinct (map op_id ops)"
  shows "all_effects (operation_effect env fid) (enumerate n ops) t =
    Some (t\<lparr>tb_operations := tb_operations t @ op_rows env fid n ops\<rparr>)"
  using assms
proof (induction ops arbitrary: n t)
  case Nil
  then show ?case by (simp add: op_rows_def)
next
  case (Cons op ops)
  let ?r = "op_row env fid (prepared_op fid n op)"
  let ?t = "t\<lparr>tb_operations := tb_operations t @ [?r]\<rparr>"
  have e: "operation_effect env fid (n, op) t = Some ?t"
    using Cons.prems(1) by (simp add: operation_effect_def insert_operation_def)
  have "list_all (\<lambda>op. op_id op \<noteq> [] \<and> select_key (SqlText (op_id op)) (tb_operations ?t) = None) ops"
    using Cons.prems by (auto simp: list_all_iff select_key_append split: option.split)
  from Cons.IH [OF this, of "Suc n"] Cons.prems(2) e show ?case
    by (simp add: op_rows_def)
qed

lemma op_rows_flow: "r \<in> set (op_rows env fid n ops) \<Longrightarrow> r ! 1 = SqlText fid"
  by (auto simp: op_rows_def)

lemma filter_op_rows:
  "filter (\<lambda>r. r ! 1 = SqlText j) (filter (\<lambda>r. r ! 1 \<noteq> SqlText fid) tbl @ op_rows env fid n ops) =
     (if j = fid then op_rows env fid n ops else filter (\<lambda>r. r ! 1 = SqlText j) tbl)"
proof -
  have "filter (\<lambda>r. r ! 1 = SqlText fid) (op_rows env fid n ops) = op_rows env fid n ops"
    "j \<noteq> fid \<Longrightarrow> filter (\<lambda>r. r ! 1 = SqlText j) (op_rows env fid n ops) = []"
    by (auto simp: filter_id_conv filter_empty_conv dest: op_rows_flow)
  then show ?thesis by (auto intro!: filter_cong)
qed

lemma list_operations_ready:
  "ss_tables st = Some t \<Longrightarrow> ss_faults st = [] \<Longrightarrow>
     list_operations env j st = (Ok (map (scan_operation env) (sort_key (\<lambda>r. sv_int (r ! 9))
       (sort_key (\<lambda>r. sv_text (r ! 0)) (filter (\<lambda>r. r ! 1 = SqlText j) (tb_operations t))))), st)"
  by (simp add: list_operations_def run_query_ready)

text \<open>What \<open>list_operations\<close> gives for the operations just saved.\<close>

definition stored_ops :: "string \<Rightarrow> flow_operation list \<Rightarrow> flow_operation list" where
  "stored_ops fid ops = sort_key op_sort_order (sort_key op_id (map (\<lambda>(idx, op). stored_op fid idx op) (enumerate 0 ops)))"

lemma scan_op_rows:
  assumes "list_all (\<lambda>op. parse_config env (sv_dict_json env (op_sync_config (normalize_action op))) =
    op_sync_config (normalize_action op)) ops"
  shows "map (scan_operation env) (sort_key (\<lambda>r. sv_int (r ! 9))
      (sort_key (\<lambda>r. sv_text (r ! 0)) (op_rows env fid 0 ops))) = stored_ops fid ops"
proof -
  have "scan_operation env (op_row env fid (prepared_op fid i op)) = stored_op fid i op"
    if "(i, op) \<in> set (enumerate 0 ops)" for i op
    using assms that by (intro scan_op_row) (auto simp: list_all_iff in_set_enumerate_eq)
  then have "map (\<lambda>io. scan_operation env (case io of (i, op) \<Rightarrow> op_row env fid (prepared_op fid i op))) (enumerate 0 ops)
     = map (\<lambda>(i, op). stored_op fid i op) (enumerate 0 ops)" by auto
  moreover have k: "(\<lambda>io. sv_int ((case io of (i, op) \<Rightarrow> op_row env fid (prepared_op fid i op)) ! 9)) =
      (\<lambda>io. op_sort_order (case io of (i, op) \<Rightarrow> stored_op fid i op))"
    "(\<lambda>io. sv_text ((case io of (i, op) \<Rightarrow> op_row env fid (prepared_op fid i op)) ! 0)) =
      (\<lambda>io. op_id (case io of (i, op) \<Rightarrow> stored_op fid i op))"
    by (auto simp: op_row_def stored_op_def Let_def split: prod.splits)
  ultimately show ?thesis
    by (auto simp: stored_ops_def op_rows_def sort_key_map k intro!: map_cong)
qed

definition stored_flow :: "store_env \<Rightarrow> row option \<Rightarrow> flow \<Rightarrow> flow" where
  "stored_flow env old f = f\<lparr>f_operations := stored_ops (f_id f) (f_operations f),
     f_canvas_json := canvas_or_empty (f_canvas_json f),
     f_created_at := (case old of Some r \<Rightarrow> sv_text (r ! 6)
                      | None \<Rightarrow> if f_created_at f = [] then sv_now env else f_created_at f),
     f_updated_at := sv_now env\<rparr>"

lemma scan_flow_args:
  "scan_flow (flow_args env f) = f\<lparr>f_operations := [], f_canvas_json := canvas_or_empty (f_canvas_json f),
     f_created_at := (if f_created_at f = [] then sv_now env else f_created_at f), f_updated_at := sv_now env\<rparr>"
  by (rule flow.equality) (simp_all add: scan_flow_def flow_args_def canvas_or_empty_def)

lemma scan_flow_merged:
  assumes "length r = 9" "row_key r = SqlText (f_id f)"
  shows "scan_flow (set_columns FLOW_COLUMNS FLOW_UPDATES r (flow_args env f)) =
    (scan_flow (flow_args env f))\<lparr>f_created_at := sv_text (r ! 6)\<rparr>"
proof -
  obtain a0 a1 a2 a3 a4 a5 a6 a7 a8 where r: "r = [a0, a1, a2, a3, a4, a5, a6, a7, a8]"
    using assms(1) by (auto simp: eval_nat_numeral length_Suc_conv)
  then have "a0 = SqlText (f_id f)" using assms(2) by (simp add: row_key_def)
  then show ?thesis
    by (simp add: r flow_args_def FLOW_COLUMNS_def FLOW_UPDATES_def scan_flow_def)
qed

lemma flow_row_key: "row_key (flow_args env f) = SqlText (f_id f)"
  by (simp add: row_key_def flow_args_def)

lemma flow_put_get:
  assumes "tables_ok t" "upsert_flow env f t = Some t'"
  shows "map_option scan_flow (select_key (SqlText j) (tb_flows t')) =
    (if j = f_id f then Some ((stored_flow env (select_key (SqlText j) (tb_flows t)) f)\<lparr>f_operations := []\<rparr>)
     else map_option scan_flow (select_key (SqlText j) (tb_flows t)))"
proof -
  have len: "length q = 9 \<and> row_key q = SqlText (f_id f)" if "select_key (SqlText (f_id f)) (tb_flows t) = Some q" for q
    using assms(1) select_key_row [OF that] by (auto simp: tables_ok_def table_ok_def columns_ok)
  have t': "t' = t\<lparr>tb_flows := put_row FLOW_COLUMNS FLOW_UPDATES (flow_args env f) (tb_flows t)\<rparr>"
    using assms(2) by (simp add: upsert_flow_def put_row_def)
  show ?thesis
    using flow_rows.lookup_put [where v = "flow_args env f" and s = "tb_flows t" and k = "SqlText j"]
    by (auto simp: t' flow_row_key scan_flow_merged len scan_flow_args stored_flow_def split: option.split)
qed

lemma get_flow_ready:
  assumes "ss_tables st = Some t" "ss_faults st = []"
  shows "get_flow env j st = (case map_option scan_flow (select_key (SqlText j) (tb_flows t)) of
      None \<Rightarrow> Err NotFound
    | Some f \<Rightarrow> Ok (f\<lparr>f_operations := map (scan_operation env) (sort_key (\<lambda>r. sv_int (r ! 9))
        (sort_key (\<lambda>r. sv_text (r ! 0)) (filter (\<lambda>r. r ! 1 = SqlText (f_id f)) (tb_operations t))))\<rparr>), st)"
  using assms by (simp add: get_flow_def query_one_ready list_operations_ready split: option.split)

lemma select_key_flow_id: "select_key (SqlText j) tbl = Some r \<Longrightarrow> length r = 9 \<Longrightarrow> f_id (scan_flow r) = j"
  using select_key_row [of "SqlText j" tbl r] by (cases r) (auto simp: scan_flow_def row_key_def)

text \<open>
  C13: a flow that was saved reads back with its operations in the order of their sort numbers,
  each with its action normalised, empty paths as the root and a sort number of its own; its
  creation time is kept from the first save; and every other flow reads as before. The JSON codec
  is assumed to read back the operations' own settings.
\<close>

theorem flow_roundtrip:
  assumes st: "ss_tables st = Some t" "ss_faults st = []" "\<not> ss_in_tx st" "tables_ok t"
    and ids: "f_id f \<noteq> []" "distinct (map op_id (f_operations f))"
      "list_all (\<lambda>op. op_id op \<noteq> [] \<and>
         select_key (SqlText (op_id op)) (filter (\<lambda>r. r ! 1 \<noteq> SqlText (f_id f)) (tb_operations t)) = None)
         (f_operations f)"
    and json: "list_all (\<lambda>op. parse_config env (sv_dict_json env (op_sync_config (normalize_action op))) =
      op_sync_config (normalize_action op)) (f_operations f)"
    and save: "save_flow env f st = (r, st')"
  shows "r = Ok () \<and>
    get_flow env (f_id f) st' = (Ok (stored_flow env (select_key (SqlText (f_id f)) (tb_flows t)) f), st') \<and>
    (\<forall>j. j = f_id f \<or> fst (get_flow env j st') = fst (get_flow env j st))"
proof -
  obtain t1 where t1: "upsert_flow env f t = Some t1" by (simp add: upsert_flow_def)
  define t2 where "t2 = t1\<lparr>tb_operations :=
    filter (\<lambda>r. r ! 1 \<noteq> SqlText (f_id f)) (tb_operations t) @ op_rows env (f_id f) 0 (f_operations f)\<rparr>"
  have ops1: "tb_operations t1 = tb_operations t" using t1 by (auto simp: upsert_flow_def)
  have "flow_written env f t = Some t2"
    using t1 ids insert_all_operations [where ops = "f_operations f" and env = env and fid = "f_id f" and n = 0
        and t = "t1\<lparr>tb_operations := filter (\<lambda>r. r ! 1 \<noteq> SqlText (f_id f)) (tb_operations t)\<rparr>"]
    by (simp add: flow_written_def clear_operations_def ops1 t2_def)
  then have s: "r = Ok ()" "ss_tables st' = Some t2" "ss_faults st' = []"
    using transaction_atomic [OF effect_save_flow [of env f] st(1,3)] save ids(1) st(2)
    by (auto simp: save_flow_def split: if_splits)
  have flows: "tb_flows t2 = tb_flows t1" by (simp add: t2_def)
  have mine: "map_option scan_flow (select_key (SqlText (f_id f)) (tb_flows t2)) =
      Some ((stored_flow env (select_key (SqlText (f_id f)) (tb_flows t)) f)\<lparr>f_operations := []\<rparr>)"
    using flow_put_get [OF st(4) t1, of "f_id f"] by (simp add: flows)
  have rows: "filter (\<lambda>r. r ! 1 = SqlText j) (tb_operations t2) =
      (if j = f_id f then op_rows env (f_id f) 0 (f_operations f)
       else filter (\<lambda>r. r ! 1 = SqlText j) (tb_operations t))" for j
    by (simp add: t2_def filter_op_rows [simplified])
  have "get_flow env (f_id f) st' =
      (Ok ((stored_flow env (select_key (SqlText (f_id f)) (tb_flows t)) f)
         \<lparr>f_operations := stored_ops (f_id f) (f_operations f)\<rparr>), st')"
    using scan_op_rows [OF json, of "f_id f"] rows [of "f_id f"]
    by (simp add: get_flow_ready [OF s(2,3)] mine stored_flow_def)
  moreover have "fst (get_flow env j st') = fst (get_flow env j st)" if j: "j \<noteq> f_id f" for j
  proof -
    have same: "map_option scan_flow (select_key (SqlText j) (tb_flows t2)) =
        map_option scan_flow (select_key (SqlText j) (tb_flows t))"
      using flow_put_get [OF st(4) t1, of j] j by (simp add: flows)
    have "f_id (scan_flow q) = j" if "select_key (SqlText j) (tb_flows t) = Some q" for q
      using select_key_flow_id [OF that] select_key_row [OF that] st(4)
      by (auto simp: tables_ok_def table_ok_def columns_ok)
    then show ?thesis
      using rows [of j] j
      by (cases "select_key (SqlText j) (tb_flows t)") (simp_all add: get_flow_ready [OF s(2,3)] get_flow_ready [OF st(1,2)] same)
  qed
  ultimately show ?thesis using s(1) by (auto simp: stored_flow_def)
qed

section \<open>A concrete store\<close>

definition demo_store_env :: store_env where
  "demo_store_env = \<lparr> sv_list_json = (\<lambda>xs. ''[]''), sv_list_parse = (\<lambda>s. Some []), sv_dict_json = (\<lambda>d. ''{}''),
     sv_parse = (\<lambda>s. Some (JObject [(''action'', JString ''push'')])), sv_now = ''2026-01-01 00:00:00'',
     sv_clock = ''2026-01-01T00:00:00Z'', sv_cast = (\<lambda>s. 0), sv_message = ''disk I/O error'' \<rparr>"

definition demo_saved_flow :: flow where
  "demo_saved_flow = \<lparr> f_id = ''f'', f_name = ''nightly'', f_is_collapsed = False, f_schedule_enabled = False,
     f_schedule_cron = [], f_sort_order = 0,
     f_operations = [flow_operation_default\<lparr>op_id := ''b''\<rparr>, flow_operation_default\<lparr>op_id := ''a'', op_source_path := []\<rparr>],
     f_canvas_json = [], f_created_at = [], f_updated_at = [] \<rparr>"

definition demo_empty_board :: board where
  "demo_empty_board = \<lparr> b_id = ''b'', b_name = [], b_created_at = [], b_updated_at = [], b_nodes = [], b_edges = [] \<rparr>"

lemma tables_empty_ok: "tables_ok tables_empty"
  using store_new_ok [of "[]"] by (simp add: holds_def store_new_def)

lemma normalize_default:
  "op_sync_config (normalize_action (flow_operation_default\<lparr>op_id := i\<rparr>)) = [(''action'', JString ''push'')]"
  "op_sync_config (normalize_action (flow_operation_default\<lparr>op_id := i, op_source_path := p\<rparr>)) =
     [(''action'', JString ''push'')]"
  using direction_normalize_fixed [of DIRECTION_PUSH] trim_direction(1)
  by (simp_all add: normalize_action_def resolved_action_def flow_operation_default_def Let_def DIRECTION_PUSH_def)


theorem profile_roundtrip_witness:
  "\<exists>st'. get_profile demo_store_env ''p'' st' = (Ok (profile_default\<lparr>p_name := ''p'', p_direction := ''bi''\<rparr>), st')"
proof -
  let ?p = "profile_default\<lparr>p_name := ''p'', p_direction := '' bi''\<rparr>"
  obtain r p' st' where s: "save_profile demo_store_env ?p (store_new []) = (r, p', st')"
    by (metis prod_cases3)
  have d: "saved_direction '' bi'' = ''bi''" by (simp add: saved_direction_def trim_by_def)
  have v: "direction_is_valid ''bi''" using direction_values_valid(2) by (simp add: DIRECTION_BI_def)
  have "get_profile demo_store_env (p_name ?p) st' = (Ok p', st')"
    "p' = ?p\<lparr>p_direction := saved_direction (p_direction ?p)\<rparr>"
    using profile_roundtrip [of "store_new []" tables_empty ?p demo_store_env, OF _ _ tables_empty_ok _ _ _ _ _ s] d v
    by (simp_all add: store_new_def profile_default_def string_slice_def json_string_def demo_store_env_def)
  then show ?thesis by (auto simp: d)
qed

theorem flow_roundtrip_witness:
  "\<exists>st'. get_flow demo_store_env ''f'' st' = (Ok (stored_flow demo_store_env None demo_saved_flow), st')"
proof -
  obtain r st' where s: "save_flow demo_store_env demo_saved_flow (store_new []) = (r, st')" by fastforce
  have "get_flow demo_store_env (f_id demo_saved_flow) st' =
     (Ok (stored_flow demo_store_env (select_key (SqlText (f_id demo_saved_flow)) (tb_flows tables_empty)) demo_saved_flow), st')"
    using flow_roundtrip [of "store_new []" tables_empty demo_saved_flow demo_store_env, OF _ _ _ tables_empty_ok _ _ _ _ s]
    by (simp add: store_new_def demo_saved_flow_def tables_empty_def normalize_default parse_config_def demo_store_env_def)
  then show ?thesis by (auto simp: demo_saved_flow_def tables_empty_def)
qed

section \<open>After a failed COMMIT\<close>

lemma commit_fault_stuck:
  "ss_in_tx (snd (save_board_graph demo_store_env demo_empty_board (store_new [False, False, False, False, True])))"
  by (simp add: save_board_graph_def transaction_def store_new_def statement_def and_then_def exec_unit_def exec_def
      count1_def upsert_board_def clear_nodes_def clear_edges_def demo_empty_board_def)

text \<open>From then on every save of a flow or a board fails: BEGIN is refused inside a transaction.\<close>

lemma stuck_in_transaction:
  assumes "ss_in_tx st" "ss_tables st \<noteq> None"
  shows "\<exists>e. fst (save_board_graph env bd st) = Err e" "\<exists>e. fst (save_flow env f st) = Err e"
proof -
  obtain t where t: "ss_tables st = Some t" using assms(2) by auto
  have "\<exists>e. fst (transaction env body st) = Err e" for body :: "store \<Rightarrow> (store_error, unit) result \<times> store"
  proof (cases "statement st")
    case (Pair ok st1)
    then show ?thesis using assms(1) t ss_statement [OF Pair] by (cases ok) (simp_all add: transaction_def)
  qed
  then show "\<exists>e. fst (save_board_graph env bd st) = Err e" "\<exists>e. fst (save_flow env f st) = Err e"
    by (auto simp: save_board_graph_def save_flow_def)
qed

lemma get_flow_id:
  assumes "holds tables_ok st" "get_flow env i st = (Ok f, st')"
  shows "f_id f = i"
proof -
  from assms(2) obtain t where t: "ss_tables st = Some t"
    by (cases "ss_tables st") (auto simp: get_flow_def query_one_def run_query_def)
  obtain ok st1 where s: "statement st = (ok, st1)" by fastforce
  have "ok" using assms(2) t s by (cases ok) (auto simp: get_flow_def query_one_def run_query_def)
  then obtain r where r: "select_key (SqlText i) (tb_flows t) = Some r"
    using assms(2) t s by (auto simp: get_flow_def query_one_def run_query_def split: option.splits)
  then have "f_id (scan_flow r) = i"
    using assms(1) t select_key_row [OF r] by (intro select_key_flow_id) (auto simp: holds_def tables_ok_def table_ok_def columns_ok)
  then show ?thesis
    using assms(2) t s \<open>ok\<close> r by (auto simp: get_flow_def query_one_def run_query_def split: prod.splits sum.splits)
qed

end
