(* ===== verification/Dispatcher.thy ===== *)
theory Dispatcher
  imports LogBuffer StoreLaws
begin

text \<open>
  \<open>crates/gn-drive-core/src/rpc/dispatcher.rs\<close>: the methods of the protocol over the container.
  A handler takes the container's state and answers a result with the new state, or panics; it
  runs to its end before the next request (the threads it spawns are recorded in \<open>app_threads\<close>).
  \<open>host\<close> holds what a request finds outside: the time, random values, the answer of opening the
  database and of running rclone, and the log buffer. The methods of \<open>handlers_remotes.rs\<close> and
  \<open>doctor\<close> see the container only through the rclone client and the bus: \<open>rq_rest\<close> is their
  answer and what they publish.
\<close>

section \<open>Handlers\<close>

record 'k host =
  rq_env :: "'k app_env"
  rq_json :: rpc_env
  rq_now :: int
  rq_later :: int \<comment> \<open>the time after the sleep of \<open>unlock\<close>\<close>
  rq_salt :: "byte list"
  rq_nonce :: "string \<Rightarrow> byte list"
  rq_serde :: "json_dict \<Rightarrow> string" \<comment> \<open>serde's message for a profile it cannot read\<close>
  rq_display :: "auth_error \<Rightarrow> string"
  rq_opened :: "(store_error, store) result"
  rq_rclone :: "rclone_error option"
  rq_remotes :: "remote list option" \<comment> \<open>\<open>list_remotes().ok()\<close>\<close>
  rq_rclone_version :: "string option"
  rq_names :: "history_stats \<Rightarrow> string list" \<comment> \<open>iteration order of \<open>by_profile\<close>\<close>
  rq_version :: string
  rq_paths :: json
  rq_log :: log_buffer
  rq_rest :: "string \<Rightarrow> params \<Rightarrow> json rpc \<times> bus_event list"

type_synonym ('k, 'a) handler = "'k app \<Rightarrow> ('a rpc \<times> 'k app) outcome"

definition h_ret :: "'a \<Rightarrow> ('k, 'a) handler" where "h_ret v a = Returns (Ok v, a)"
definition h_fail :: "rpc_error \<Rightarrow> ('k, 'a) handler" where "h_fail e a = Returns (Err e, a)"
definition h_lift :: "'a rpc \<Rightarrow> ('k, 'a) handler" where "h_lift r a = Returns (r, a)"
definition h_do :: "('k app \<Rightarrow> 'k app) \<Rightarrow> ('k, unit) handler" where "h_do f a = Returns (Ok (), f a)"
definition h_get :: "('k app \<Rightarrow> 'a) \<Rightarrow> ('k, 'a) handler" where "h_get f a = Returns (Ok (f a), a)"

definition h_bind :: "('k, 'a) handler \<Rightarrow> ('a \<Rightarrow> ('k, 'b) handler) \<Rightarrow> ('k, 'b) handler" where
  "h_bind m f a =
     (case m a of
        Panics \<Rightarrow> Panics
      | Returns (Err e, a') \<Rightarrow> Returns (Err e, a')
      | Returns (Ok v, a') \<Rightarrow> f v a')"

definition h_if :: "bool \<Rightarrow> rpc_error \<Rightarrow> ('k, unit) handler" where
  "h_if c e = (if c then h_fail e else h_ret ())"

fun h_each :: "('a \<Rightarrow> ('k, 'b) handler) \<Rightarrow> 'a list \<Rightarrow> ('k, 'b list) handler" where
  "h_each f [] = h_ret []"
| "h_each f (x # xs) = h_bind (f x) (\<lambda>y. h_bind (h_each f xs) (\<lambda>ys. h_ret (y # ys)))"

text \<open>A call of the store: \<open>require_store\<close>, and errors mapped; \<open>h_find\<close> names what is not found.\<close>

definition h_call :: "'k host \<Rightarrow> (store_error \<Rightarrow> rpc_error) \<Rightarrow> (store \<Rightarrow> (store_error, 'a) result \<times> store) \<Rightarrow>
    ('k, 'a) handler" where
  "h_call q err call a =
     (case app_store a of
        None \<Rightarrow> Returns (Err rpc_locked, a)
      | Some st \<Rightarrow> (case call st of
                     (Err e, st') \<Rightarrow> Returns (Err (err e), set_store (rq_env q) st' a)
                   | (Ok v, st') \<Rightarrow> Returns (Ok v, set_store (rq_env q) st' a)))"

definition h_store :: "'k host \<Rightarrow> (store \<Rightarrow> (store_error, 'a) result \<times> store) \<Rightarrow> ('k, 'a) handler" where
  "h_store q call = h_call q from_store call"

definition not_found :: "string \<Rightarrow> string \<Rightarrow> store_error \<Rightarrow> rpc_error" where
  "not_found code message e = (case e of NotFound \<Rightarrow> rpc_error_new code message | _ \<Rightarrow> from_store e)"

definition h_find :: "'k host \<Rightarrow> string \<Rightarrow> string \<Rightarrow> (store \<Rightarrow> (store_error, 'a) result \<times> store) \<Rightarrow> ('k, 'a) handler" where
  "h_find q code message call = h_call q (not_found code message) call"

text \<open>A call whose error is looked at instead of returned.\<close>

definition h_try :: "'k host \<Rightarrow> (store \<Rightarrow> (store_error, 'a) result \<times> store) \<Rightarrow>
    ('k, (store_error, 'a) result) handler" where
  "h_try q call = h_store q (\<lambda>st. case call st of (r, st') \<Rightarrow> (Ok r, st'))"

definition require_store :: "('k, unit) handler" where
  "require_store a = Returns (if app_store a = None then Err rpc_locked else Ok (), a)"

definition h_auth :: "'k host \<Rightarrow> (auth_error \<Rightarrow> 'k auth_world \<Rightarrow> rpc_error) \<Rightarrow>
    ('k auth_world \<Rightarrow> (auth_error, unit) result \<times> 'k auth_world) \<Rightarrow> ('k, unit) handler" where
  "h_auth q err call a =
     (case call (app_auth a) of
        (Err e, w) \<Rightarrow> Returns (Err (err e w), a\<lparr>app_auth := w\<rparr>)
      | (Ok _, w) \<Rightarrow> Returns (Ok (), a\<lparr>app_auth := w\<rparr>))"

definition auth_rpc_error :: "'k host \<Rightarrow> auth_error \<Rightarrow> 'k auth_world \<Rightarrow> rpc_error" where
  "auth_rpc_error q e w = from_auth (rq_json q) (rq_display q) e"

definition after_unlock :: "'k host \<Rightarrow> ('k, unit) handler" where
  "after_unlock q a =
     (case open_data_plane (rq_env q) (rq_opened q) (rq_rclone q) (rq_now q) a of
        Panics \<Rightarrow> Panics
      | Returns (Err e, a') \<Rightarrow> Returns (Err (from_app (rq_json q) (rq_display q) e), a')
      | Returns (Ok _, a') \<Rightarrow> Returns (Ok (), a'))"

definition h_schedule :: "'k host \<Rightarrow> flow \<Rightarrow> ('k, unit) handler" where
  "h_schedule q f a =
     (case sync_flow_schedule (en_clock (rq_env q)) (rq_now q) f (app_sync a) of
        Panics \<Rightarrow> Panics
      | Returns se \<Rightarrow> Returns (Ok (), a\<lparr>app_sync := se\<rparr>))"

definition new_uuid :: "'k host \<Rightarrow> ('k, string) handler" where
  "new_uuid q a = Returns (Ok (en_uuid (rq_env q) (app_ids a)), a\<lparr>app_ids := app_ids a + 1\<rparr>)"

definition id_or_new :: "'k host \<Rightarrow> string \<Rightarrow> ('k, string) handler" where
  "id_or_new q i = (if i = [] then new_uuid q else h_ret i)"

definition h_publish :: "bus_event \<Rightarrow> ('k, unit) handler" where
  "h_publish e = h_do (publish_bus e)"

definition emit_state_changed :: "'k host \<Rightarrow> string \<Rightarrow> string \<Rightarrow> ('k, unit) handler" where
  "emit_state_changed q domain i = h_publish (ev_state_changed (rq_now q) domain i)"

definition auth_status_json :: "'k host \<Rightarrow> ('k, json) handler" where
  "auth_status_json q = h_get (\<lambda>a. json_auth_status (rq_json q)
     (auth_status_of (en_auth (rq_env q)) (rq_now q) (app_auth a)))"

section \<open>Gating\<close>

definition ALWAYS_METHODS :: "string list" where
  "ALWAYS_METHODS = [''ping'', ''state.snapshot'', ''app.quit'', ''doctor'', ''logs.read'', ''auth.status'',
     ''auth.setup'', ''auth.unlock'', ''auth.lock'', ''auth.changePassword'', ''auth.removePassword'',
     ''remotes.providers'', ''settings.get'', ''settings.set'', ''service.status'', ''service.install'',
     ''service.uninstall'', ''service.start'', ''service.stop'', ''service.restart'', ''service.health'',
     ''update.check'', ''update.apply'']"

definition LOCKED_GATED_METHODS :: "string list" where
  "LOCKED_GATED_METHODS = [''flows.list'', ''flows.get'', ''flows.create'', ''flows.save'', ''flows.delete'',
     ''flows.execute'', ''flows.stop'', ''operations.create'', ''operations.update'', ''operations.delete'',
     ''operations.reorder'', ''runtime.snapshot'', ''runtime.tasks'', ''remotes.list'', ''remotes.add'',
     ''remotes.test'', ''remotes.delete'', ''remotes.oauth.start'', ''remotes.oauth.complete'',
     ''remotes.oauth.cancel'', ''fs.list'', ''profiles.list'', ''profiles.get'', ''profiles.save'',
     ''profiles.delete'', ''schedules.list'', ''sync.profile'', ''sync.stop'', ''boards.list'', ''boards.get'',
     ''boards.save'', ''boards.delete'', ''boards.execute'', ''boards.stop'', ''boards.status'',
     ''history.list'', ''history.stats'', ''history.clear'']"

definition is_locked :: "'k app \<Rightarrow> bool" where
  "is_locked a \<longleftrightarrow> is_setup (app_auth a) \<and> \<not> is_unlocked (app_auth a) \<and> app_store a = None"

definition unknown_method :: "string \<Rightarrow> rpc_error" where
  "unknown_method m = rpc_error_new ''unknown_method'' (''unknown method: '' @ m)"

section \<open>System\<close>

definition ping :: "'k host \<Rightarrow> json" where
  "ping q = JObject [(''pong'', JBool True), (''protocol'', JInt 1), (''version'', JString (rq_version q)),
     (''now'', JString (rj_rfc3339 (rq_json q) (rq_now q)))]"

definition SECTIONS :: "string list" where
  "SECTIONS = [''auth'', ''flows'', ''remotes'', ''profiles'', ''history'', ''settings'', ''runtime'']"

definition app_snapshot :: "'k host \<Rightarrow> 'k app \<Rightarrow> runtime_snapshot_event" where
  "app_snapshot q a = hub_snapshot (rq_now q) (Some (app_flow a)) (Some (app_sync a)) (app_hub a)"

text \<open>A list from the store for the snapshot, empty when the call fails.\<close>

definition section_list :: "'k host \<Rightarrow> bool \<Rightarrow> string \<Rightarrow> ('a \<Rightarrow> json) \<Rightarrow>
    (store \<Rightarrow> (store_error, 'a list) result \<times> store) \<Rightarrow> ('k, json_dict) handler" where
  "section_list q wanted k enc call =
     (if \<not> wanted then h_ret []
      else h_bind (h_try q call) (\<lambda>r. h_ret [(k, JArray (case r of Ok xs \<Rightarrow> map enc xs | Err _ \<Rightarrow> []))]))"

definition state_snapshot :: "'k host \<Rightarrow> params \<Rightarrow> ('k, json) handler" where
  "state_snapshot q p =
     h_bind (h_lift (string_array p ''sections'')) (\<lambda>req.
     let sections = (case req of Some r \<Rightarrow> filter (\<lambda>s. s \<in> set SECTIONS) r | None \<Rightarrow> SECTIONS);
         has = (\<lambda>s. s \<in> set sections)
     in h_bind (h_get (\<lambda>a. a)) (\<lambda>a.
     let status = auth_status_of (en_auth (rq_env q)) (rq_now q) (app_auth a);
         locked = \<not> au_is_unlocked status;
         out = [(''locked'', JBool locked), (''auth'', json_auth_status (rq_json q) status),
                (''version'', JString (rq_version q)), (''paths'', rq_paths q)] @
               (if has ''settings'' then [(''appSettings'', json_app_settings (ad_app_settings (aw_data (app_auth a))))] else []) @
               (if has ''runtime'' then [(''runtime'', if locked then JObject [(''revision'', JInt 0), (''flows'', JArray [])]
                                         else json_runtime_snapshot (app_snapshot q a))] else [])
     in if locked \<or> app_store a = None
        then h_ret (JObject (out @ map (\<lambda>k. (k, JArray [])) (filter has [''flows'', ''remotes'', ''profiles'', ''history''])))
        else
          h_bind (section_list q (has ''flows'') ''flows'' (json_flow (rq_json q)) (list_flows (en_store (rq_env q)))) (\<lambda>fl.
          h_bind (section_list q (has ''profiles'') ''profiles'' (\<lambda>x. JObject (json_profile x)) (list_profiles (en_store (rq_env q)))) (\<lambda>pr.
          h_bind (section_list q (has ''history'') ''history'' json_history (list_history (en_store (rq_env q)) 100 0)) (\<lambda>hi.
          h_ret (JObject (out @ fl @
            (if has ''remotes'' then [(''remotes'', JArray (map json_remote (case rq_remotes q of Some r \<Rightarrow> r | None \<Rightarrow> [])))] else []) @
            pr @ hi @ (case rq_rclone_version q of Some v \<Rightarrow> [(''rcloneVersion'', JString v)] | None \<Rightarrow> []))))))))"

definition logs_read :: "'k host \<Rightarrow> params \<Rightarrow> ('k, json) handler" where
  "logs_read q p =
     h_lift (r_bind (or_default 200 (p_int p ''limit'')) (\<lambda>limit.
       if limit < 0 then Err (invalid_params ''limit'' None)
       else r_bind (p_string p ''level'') (\<lambda>level.
         r_bind (case level of None \<Rightarrow> Ok None
           | Some l \<Rightarrow> (case level_from_label l of Some m \<Rightarrow> Ok (Some m) | None \<Rightarrow> Err (invalid_params ''level'' None))) (\<lambda>m.
         r_bind (p_int p ''since'') (\<lambda>since.
           Ok (buffer_read (rq_json q) (nat (min limit 2000)) m since (rq_log q)))))))"

section \<open>Authentication\<close>

definition publish_and_status :: "'k host \<Rightarrow> bus_event \<Rightarrow> ('k, json) handler" where
  "publish_and_status q e = h_bind (h_publish e) (\<lambda>_. auth_status_json q)"

definition auth_setup :: "'k host \<Rightarrow> params \<Rightarrow> ('k, json) handler" where
  "auth_setup q p =
     h_bind (h_lift (require_string p ''password'')) (\<lambda>password.
     h_bind (h_auth q (auth_rpc_error q) (setup_password (en_auth (rq_env q)) (rq_salt q) password)) (\<lambda>_.
     h_bind (after_unlock q) (\<lambda>_. publish_and_status q (AuthUnlocked (rq_now q)))))"

definition unlock_error :: "'k host \<Rightarrow> auth_error \<Rightarrow> 'k auth_world \<Rightarrow> rpc_error" where
  "unlock_error q e w =
     (let l = lockout_status_of (en_auth (rq_env q)) (rq_now q) (aw_data w) in
      case e of
        InvalidPassword \<Rightarrow> with_data (JObject [(''failedAttempts'', JInt (ls_failed_attempts l))])
          (rpc_error_new ''invalid_password'' ''auth: invalid password'')
      | AuthLockedOut r \<Rightarrow>
          with_data (JObject [(''retryAfterSecs'', JInt r), (''lockedUntil'', JString (ls_locked_until l))])
            (rpc_error_new ''locked_out'' (''auth: locked '' @ rj_dash (rq_json q) @ '' retry in '' @ show_int r @ ''s''))
      | _ \<Rightarrow> auth_rpc_error q e w)"

definition auth_unlock :: "'k host \<Rightarrow> params \<Rightarrow> ('k, json) handler" where
  "auth_unlock q p =
     h_bind (h_lift (require_string p ''password'')) (\<lambda>password.
     h_bind (h_auth q (unlock_error q) (unlock (en_auth (rq_env q)) (rq_now q) (rq_later q) password)) (\<lambda>_.
     h_bind (after_unlock q) (\<lambda>_. publish_and_status q (AuthUnlocked (rq_now q)))))"

definition auth_lock_method :: "'k host \<Rightarrow> ('k, json) handler" where
  "auth_lock_method q =
     h_bind (h_do before_lock) (\<lambda>_.
     h_bind (h_auth q (auth_rpc_error q) (auth_lock (en_auth (rq_env q)) (rq_nonce q) (rq_now q))) (\<lambda>_.
     publish_and_status q (AuthLocked (rq_now q))))"

definition auth_change_password :: "'k host \<Rightarrow> params \<Rightarrow> ('k, json) handler" where
  "auth_change_password q p =
     h_bind (h_lift (require_string p ''oldPassword'')) (\<lambda>old.
     h_bind (h_lift (require_string p ''newPassword'')) (\<lambda>new.
     h_bind (h_auth q (auth_rpc_error q) (change_password (en_auth (rq_env q)) (rq_nonce q) (rq_salt q) old new)) (\<lambda>_.
     auth_status_json q)))"

definition auth_remove_password :: "'k host \<Rightarrow> params \<Rightarrow> ('k, json) handler" where
  "auth_remove_password q p =
     h_bind (h_lift (require_string p ''password'')) (\<lambda>password.
     h_bind (h_do before_lock) (\<lambda>_.
     h_bind (h_auth q (auth_rpc_error q) (remove_password (en_auth (rq_env q)) password)) (\<lambda>_.
     h_bind (after_unlock q) (\<lambda>_. publish_and_status q (AuthUnlocked (rq_now q))))))"

section \<open>Flows\<close>

definition flow_busy :: "'k host \<Rightarrow> string \<Rightarrow> rpc_error" where
  "flow_busy q i = rpc_error_new ''flow_busy''
     (''flow '' @ i @ '' is running '' @ rj_dash (rq_json q) @ '' stop it first'')"

definition flow_mutable :: "'k host \<Rightarrow> string \<Rightarrow> 'k app \<Rightarrow> bool" where
  "flow_mutable q i a \<longleftrightarrow> \<not> flow_is_running i (app_flow a) \<and>
     (case find (\<lambda>f. rfs_id f = i) (rse_flows (app_snapshot q a)) of
        None \<Rightarrow> True | Some f \<Rightarrow> rfs_status f \<noteq> ''running'' \<and> rfs_status f \<noteq> ''cancelling'')"

definition ensure_flow_mutable :: "'k host \<Rightarrow> string \<Rightarrow> ('k, unit) handler" where
  "ensure_flow_mutable q i a = Returns (if flow_mutable q i a then Ok () else Err (flow_busy q i), a)"

definition flow_result :: "'k host \<Rightarrow> flow \<Rightarrow> json" where
  "flow_result q f = JObject [(''flow'', json_flow (rq_json q) f)]"

definition store_get_flow :: "'k host \<Rightarrow> string \<Rightarrow> ('k, flow) handler" where
  "store_get_flow q i = h_store q (get_flow (en_store (rq_env q)) i)"

definition store_save_flow :: "'k host \<Rightarrow> flow \<Rightarrow> ('k, unit) handler" where
  "store_save_flow q f = h_store q (save_flow (en_store (rq_env q)) f)"

definition load_flow :: "'k host \<Rightarrow> string \<Rightarrow> ('k, flow) handler" where
  "load_flow q i = h_find q ''flow_not_found'' (''flow '' @ i @ '' not found'') (get_flow (en_store (rq_env q)) i)"

definition flows_list :: "'k host \<Rightarrow> ('k, json) handler" where
  "flows_list q = h_bind (h_store q (list_flows (en_store (rq_env q))))
     (\<lambda>fs. h_ret (JObject [(''flows'', JArray (map (json_flow (rq_json q)) fs))]))"

definition flows_get :: "'k host \<Rightarrow> params \<Rightarrow> ('k, json) handler" where
  "flows_get q p =
     h_bind require_store (\<lambda>_.
     h_bind (h_lift (require_string p ''id'')) (\<lambda>i.
     h_bind (load_flow q i) (\<lambda>f. h_ret (flow_result q f))))"

definition flows_create :: "'k host \<Rightarrow> params \<Rightarrow> ('k, json) handler" where
  "flows_create q p =
     h_bind require_store (\<lambda>_.
     h_bind (h_lift (or_default [] (p_string p ''name''))) (\<lambda>name.
     h_bind (h_lift (or_default [] (p_string p ''id''))) (\<lambda>i0.
     h_bind (id_or_new q i0) (\<lambda>i.
     h_bind (h_try q (get_flow (en_store (rq_env q)) i)) (\<lambda>r.
     h_bind (h_if (case r of Ok _ \<Rightarrow> True | Err _ \<Rightarrow> False)
       (rpc_error_new ''flow_exists'' (''flow '' @ i @ '' already exists''))) (\<lambda>_.
     h_bind (h_lift (parse_canvas (rq_json q) p)) (\<lambda>canvas.
     h_bind (store_save_flow q \<lparr> f_id = i, f_name = (if blank name then ''Untitled flow'' else name), f_is_collapsed = False,
       f_schedule_enabled = False, f_schedule_cron = [], f_sort_order = 0, f_operations = [], f_canvas_json = canvas,
       f_created_at = [], f_updated_at = [] \<rparr>) (\<lambda>_.
     h_bind (store_get_flow q i) (\<lambda>saved.
     h_bind (emit_state_changed q ''flows'' i) (\<lambda>_. h_ret (flow_result q saved)))))))))))"

definition flow_warnings :: "flow \<Rightarrow> json list" where
  "flow_warnings f =
     (if f_schedule_enabled f \<and> \<not> blank (f_schedule_cron f) \<and>
         (case cron_parse (f_schedule_cron f) of Err _ \<Rightarrow> True | Ok _ \<Rightarrow> False)
      then [JObject [(''code'', JString ''invalid_cron''),
                     (''message'', JString (''invalid cron expression: '' @ f_schedule_cron f))]]
      else [])"

text \<open>The rewrite of the operation at position \<open>idx\<close> once it has an id.\<close>

definition placed_op :: "string \<Rightarrow> nat \<Rightarrow> flow_operation \<Rightarrow> flow_operation" where
  "placed_op fid idx op = normalize_action (op\<lparr>op_flow_id := fid,
     op_sort_order := (if op_sort_order op = 0 then int idx else op_sort_order op)\<rparr>)"

definition flows_save :: "'k host \<Rightarrow> params \<Rightarrow> ('k, json) handler" where
  "flows_save q p =
     h_bind require_store (\<lambda>_.
     h_bind (h_lift (p_dict p ''flow'')) (\<lambda>raw. case raw of None \<Rightarrow> h_fail (invalid_params ''flow'' None) | Some d \<Rightarrow>
     h_bind (h_lift (parse_flow (rq_json q) d)) (\<lambda>f.
     h_bind (h_if (f_id f = []) (invalid_params ''flow.id'' None)) (\<lambda>_.
     h_bind (ensure_flow_mutable q (f_id f)) (\<lambda>_.
     h_bind (h_each (\<lambda>(idx, op). h_bind (id_or_new q (op_id op)) (\<lambda>i. h_ret (placed_op (f_id f) idx (op\<lparr>op_id := i\<rparr>))))
       (enumerate 0 (f_operations f))) (\<lambda>ops.
     let f1 = f\<lparr>f_operations := ops\<rparr> in
     h_bind (store_save_flow q f1) (\<lambda>_.
     h_bind (h_schedule q f1) (\<lambda>_.
     h_bind (emit_state_changed q ''flows'' (f_id f1)) (\<lambda>_.
     h_bind (store_get_flow q (f_id f1)) (\<lambda>saved.
     h_ret (JObject [(''flow'', json_flow (rq_json q) saved), (''warnings'', JArray (flow_warnings f1))])))))))))))"

definition flows_delete :: "'k host \<Rightarrow> params \<Rightarrow> ('k, json) handler" where
  "flows_delete q p =
     h_bind require_store (\<lambda>_.
     h_bind (h_lift (require_string p ''id'')) (\<lambda>i.
     h_bind (load_flow q i) (\<lambda>_.
     h_bind (ensure_flow_mutable q i) (\<lambda>_.
     h_bind (h_store q (delete_flow (en_store (rq_env q)) i)) (\<lambda>_.
     h_bind (h_do (\<lambda>a. a\<lparr>app_sync := unregister_flow_schedule i (app_sync a)\<rparr>)) (\<lambda>_.
     h_bind (h_do (\<lambda>a. a\<lparr>app_hub := hub_forget i (app_hub a)\<rparr>)) (\<lambda>_.
     h_bind (emit_state_changed q ''flows'' i) (\<lambda>_.
     h_ret (JObject [(''deleted'', JBool True), (''id'', JString i)])))))))))"

text \<open>Calls of the flow engine; a started run is a new thread.\<close>

definition begin_flow_run :: "'k host \<Rightarrow> string \<Rightarrow> ('k, unit) handler" where
  "begin_flow_run q i a =
     (case flow_begin (rq_now q) i (app_flow a) of
        (Err e, fe) \<Rightarrow> Returns (Err (from_flow e), a\<lparr>app_flow := fe\<rparr>)
      | (Ok f, fe) \<Rightarrow>
          Returns (Ok (), a\<lparr>app_flow := fe, app_threads := app_threads a @ [FlowThread (flow_worker_new f)]\<rparr>))"

definition stop_flow_run :: "'k host \<Rightarrow> string \<Rightarrow> ('k, unit) handler" where
  "stop_flow_run q i a =
     (case flow_stop (rq_now q) i (app_flow a) of
        (Err e, fe) \<Rightarrow> Returns (Err (from_flow e), a\<lparr>app_flow := fe\<rparr>)
      | (Ok _, fe) \<Rightarrow> Returns (Ok (), a\<lparr>app_flow := fe\<rparr>))"

definition flows_execute :: "'k host \<Rightarrow> params \<Rightarrow> ('k, json) handler" where
  "flows_execute q p =
     h_bind (h_lift (require_string p ''id'')) (\<lambda>i.
     h_bind (begin_flow_run q i) (\<lambda>_.
     h_ret (JObject [(''flowID'', JString i), (''status'', JString ''running'')])))"

definition flows_stop :: "'k host \<Rightarrow> params \<Rightarrow> ('k, json) handler" where
  "flows_stop q p =
     h_bind (h_lift (require_string p ''id'')) (\<lambda>i.
     h_bind (stop_flow_run q i) (\<lambda>_.
     h_ret (JObject [(''flowID'', JString i), (''status'', JString ''cancelling'')])))"

section \<open>Operations\<close>

text \<open>Saving the changed flow, as every operation method ends.\<close>

definition store_changed_flow :: "'k host \<Rightarrow> string \<Rightarrow> flow \<Rightarrow> ('k, flow) handler" where
  "store_changed_flow q fid f =
     h_bind (store_save_flow q f) (\<lambda>_.
     h_bind (h_schedule q f) (\<lambda>_.
     h_bind (emit_state_changed q ''flows'' fid) (\<lambda>_. store_get_flow q fid)))"

definition operation_result :: "'k host \<Rightarrow> flow_operation \<Rightarrow> flow \<Rightarrow> json" where
  "operation_result q op saved =
     JObject [(''flow'', json_flow (rq_json q) saved),
       (''operation'', JObject (json_operation (case find (\<lambda>o'. op_id o' = op_id op) (f_operations saved) of
          Some o' \<Rightarrow> o' | None \<Rightarrow> op)))]"

definition wrap_i64 :: "int \<Rightarrow> int" where
  "wrap_i64 n = (n + 2 ^ 63) mod 2 ^ 64 - 2 ^ 63"

definition next_sort_order :: "flow_operation list \<Rightarrow> int" where
  "next_sort_order ops = wrap_i64 ((if ops = [] then -1 else Max (set (map op_sort_order ops))) + 1)"

definition operations_create :: "'k host \<Rightarrow> params \<Rightarrow> ('k, json) handler" where
  "operations_create q p =
     h_bind require_store (\<lambda>_.
     h_bind (h_lift (require_string p ''flowID'')) (\<lambda>fid.
     h_bind (h_lift (p_dict p ''operation'')) (\<lambda>raw. case raw of None \<Rightarrow> h_fail (invalid_params ''operation'' None) | Some d \<Rightarrow>
     h_bind (load_flow q fid) (\<lambda>f.
     h_bind (ensure_flow_mutable q fid) (\<lambda>_.
     h_bind (h_lift (parse_operation (rq_json q) fid d)) (\<lambda>op0.
     h_bind (id_or_new q (op_id op0)) (\<lambda>i.
     let op = normalize_action (op0\<lparr>op_id := i, op_sort_order := next_sort_order (f_operations f)\<rparr>) in
     h_bind (store_changed_flow q fid (f\<lparr>f_operations := f_operations f @ [op]\<rparr>)) (\<lambda>saved.
     h_ret (operation_result q op saved)))))))))"

definition operation_not_found :: "string \<Rightarrow> rpc_error" where
  "operation_not_found i = rpc_error_new ''operation_not_found'' (''operation '' @ i @ '' not found'')"

fun position :: "('a \<Rightarrow> bool) \<Rightarrow> 'a list \<Rightarrow> nat option" where
  "position P [] = None"
| "position P (x # xs) = (if P x then Some 0 else map_option Suc (position P xs))"

text \<open>The patch over the shown operation; identity and position are not taken from it.\<close>

definition patched :: "json_dict \<Rightarrow> json_dict \<Rightarrow> json_dict" where
  "patched patch base =
     fold (\<lambda>(k, v) m. if k \<in> {''id'', ''flowID'', ''sortOrder''} then m else AList.update k v m) patch base"

definition operations_update :: "'k host \<Rightarrow> params \<Rightarrow> ('k, json) handler" where
  "operations_update q p =
     h_bind require_store (\<lambda>_.
     h_bind (h_lift (require_string p ''flowID'')) (\<lambda>fid.
     h_bind (h_lift (require_string p ''operationID'')) (\<lambda>oid.
     h_bind (h_lift (p_dict p ''patch'')) (\<lambda>raw. case raw of None \<Rightarrow> h_fail (invalid_params ''patch'' None) | Some patch \<Rightarrow>
     h_bind (load_flow q fid) (\<lambda>f.
     h_bind (ensure_flow_mutable q fid) (\<lambda>_.
     case position (\<lambda>o'. op_id o' = oid) (f_operations f) of None \<Rightarrow> h_fail (operation_not_found oid) | Some idx \<Rightarrow>
     let old = f_operations f ! idx in
     h_bind (h_lift (parse_operation (rq_json q) fid (patched patch (json_operation old)))) (\<lambda>op0.
     let op = normalize_action (op0\<lparr>op_id := oid, op_sort_order := op_sort_order old\<rparr>) in
     h_bind (store_changed_flow q fid (f\<lparr>f_operations := (f_operations f)[idx := op]\<rparr>)) (\<lambda>saved.
     h_ret (operation_result q op saved)))))))))"

definition operations_delete :: "'k host \<Rightarrow> params \<Rightarrow> ('k, json) handler" where
  "operations_delete q p =
     h_bind require_store (\<lambda>_.
     h_bind (h_lift (require_string p ''flowID'')) (\<lambda>fid.
     h_bind (h_lift (require_string p ''operationID'')) (\<lambda>oid.
     h_bind (load_flow q fid) (\<lambda>f.
     h_bind (ensure_flow_mutable q fid) (\<lambda>_.
     h_bind (h_if (\<not> list_ex (\<lambda>o'. op_id o' = oid) (f_operations f)) (operation_not_found oid)) (\<lambda>_.
     let ops = filter (\<lambda>o'. op_id o' \<noteq> oid) (f_operations f) in
     h_bind (store_changed_flow q fid (f\<lparr>f_operations := map (\<lambda>(i, o'). o'\<lparr>op_sort_order := int i\<rparr>) (enumerate 0 ops)\<rparr>)) (\<lambda>saved.
     h_ret (flow_result q saved))))))))"

definition is_permutation :: "string list \<Rightarrow> flow_operation list \<Rightarrow> bool" where
  "is_permutation ids ops \<longleftrightarrow> length ids = length ops \<and> card (set ids) = length ids \<and> set ids = set (map op_id ops)"

text \<open>The operations in the given order, numbered; \<open>None\<close> where an id is unknown.\<close>

fun reorder :: "flow_operation list \<Rightarrow> nat \<Rightarrow> string list \<Rightarrow> flow_operation list option" where
  "reorder ops i [] = Some []"
| "reorder ops i (x # xs) =
     (case find (\<lambda>o'. op_id o' = x) ops of
        None \<Rightarrow> None
      | Some op \<Rightarrow> map_option ((#) (op\<lparr>op_sort_order := int i\<rparr>)) (reorder ops (Suc i) xs))"

definition operations_reorder :: "'k host \<Rightarrow> params \<Rightarrow> ('k, json) handler" where
  "operations_reorder q p =
     h_bind require_store (\<lambda>_.
     h_bind (h_lift (require_string p ''flowID'')) (\<lambda>fid.
     h_bind (h_lift (or_default [] (string_array p ''operationIDs''))) (\<lambda>ids.
     h_bind (load_flow q fid) (\<lambda>f.
     h_bind (ensure_flow_mutable q fid) (\<lambda>_.
     h_bind (h_if (\<not> is_permutation ids (f_operations f)) (invalid_params ''operationIDs''
       (Some (''operationIDs must be a permutation of the flow'' @ [CHR 0x27] @ ''s operations'')))) (\<lambda>_.
     case reorder (f_operations f) 0 ids of None \<Rightarrow> h_fail (invalid_params ''operationIDs'' None) | Some ops \<Rightarrow>
     h_bind (store_changed_flow q fid (f\<lparr>f_operations := ops\<rparr>)) (\<lambda>saved.
     h_ret (flow_result q saved))))))))"

section \<open>Profiles and schedules\<close>

definition profile_result :: "profile \<Rightarrow> json" where
  "profile_result p = JObject [(''profile'', JObject (json_profile p))]"

definition profile_not_found :: "string \<Rightarrow> string" where
  "profile_not_found name = ''profile '' @ name @ '' not found''"

definition profiles_list :: "'k host \<Rightarrow> ('k, json) handler" where
  "profiles_list q = h_bind (h_store q (list_profiles (en_store (rq_env q))))
     (\<lambda>ps. h_ret (JObject [(''profiles'', JArray (map (\<lambda>p. JObject (json_profile p)) ps))]))"

definition profiles_get :: "'k host \<Rightarrow> params \<Rightarrow> ('k, json) handler" where
  "profiles_get q p =
     h_bind require_store (\<lambda>_.
     h_bind (h_lift (require_string p ''name'')) (\<lambda>name.
     h_bind (h_find q ''profile_not_found'' (profile_not_found name) (get_profile (en_store (rq_env q)) name)) (\<lambda>pr.
     h_ret (profile_result pr))))"

text \<open>\<open>save_profile\<close> writes the trimmed direction back into the profile.\<close>

definition profiles_save :: "'k host \<Rightarrow> params \<Rightarrow> ('k, json) handler" where
  "profiles_save q p =
     h_bind require_store (\<lambda>_.
     h_bind (h_lift (p_dict p ''profile'')) (\<lambda>raw. case raw of None \<Rightarrow> h_fail (invalid_params ''profile'' None) | Some d \<Rightarrow>
     h_bind (h_lift (parse_profile (rq_serde q) d)) (\<lambda>pr.
     h_bind (h_store q (\<lambda>st. case save_profile (en_store (rq_env q)) pr st of
         (Err e, _, st') \<Rightarrow> (Err e, st') | (Ok _, pr', st') \<Rightarrow> (Ok pr', st'))) (\<lambda>pr'.
     h_bind (emit_state_changed q ''profiles'' (p_name pr')) (\<lambda>_.
     h_bind (h_store q (get_profile (en_store (rq_env q)) (p_name pr'))) (\<lambda>saved.
     h_ret (profile_result saved)))))))"

definition profiles_delete :: "'k host \<Rightarrow> params \<Rightarrow> ('k, json) handler" where
  "profiles_delete q p =
     h_bind require_store (\<lambda>_.
     h_bind (h_lift (require_string p ''name'')) (\<lambda>name.
     h_bind (h_find q ''profile_not_found'' (profile_not_found name) (delete_profile (en_store (rq_env q)) name)) (\<lambda>_.
     h_bind (emit_state_changed q ''profiles'' name) (\<lambda>_.
     h_ret (JObject [(''deleted'', JBool True), (''name'', JString name)])))))"

definition schedules_list :: "'k host \<Rightarrow> ('k, json) handler" where
  "schedules_list q = h_bind (h_store q (list_schedules (en_store (rq_env q))))
     (\<lambda>ss. h_ret (JObject [(''schedules'', JArray (map json_schedule ss))]))"

section \<open>Sync\<close>

text \<open>
  \<open>sync.profile\<close> with \<open>wait\<close> ends in the loop of \<open>wait_task\<close> while other threads run; the
  method then has the answer \<open>Waits\<close>, and \<open>wait_answer\<close> is one look of the loop.
\<close>

datatype reply = Answer json | Waits string string string \<comment> \<open>task, profile, action\<close>

definition sync_result_json :: "string \<Rightarrow> string \<Rightarrow> string \<Rightarrow> string \<Rightarrow> json" where
  "sync_result_json tid name action state = JObject [(''taskID'', JString tid), (''profile'', JString name),
     (''action'', JString action), (''state'', JString state)]"

definition sync_action :: "profile \<Rightarrow> string \<Rightarrow> string rpc" where
  "sync_action pr requested =
     (if requested = [] then Ok (direction_normalize (p_direction pr))
      else if requested \<in> {''pull'', ''push'', ''bi'', ''bi-resync'', ''dry-run''} then Ok requested
      else Err (rpc_error_new ''invalid_action'' (''unknown sync action: '' @ requested)))"

definition start_profile_sync :: "'k host \<Rightarrow> bool \<Rightarrow> profile \<Rightarrow> string \<Rightarrow> string \<Rightarrow> ('k, string) handler" where
  "start_profile_sync q dry pr action tid a =
     (case (if dry
           then start_path_sync (rq_now q) tid action (p_name pr) (p_from pr) (p_to pr) (Some (pr\<lparr>p_dry_run := True\<rparr>)) (app_sync a)
           else start_sync (rq_now q) tid action (p_name pr) (app_sync a)) of
        (Err e, se) \<Rightarrow> Returns (Err (from_sync e), a\<lparr>app_sync := se\<rparr>)
      | (Ok (t, given), se) \<Rightarrow>
          Returns (Ok t, a\<lparr>app_sync := se, app_threads := app_threads a @ [SyncThread t action given]\<rparr>))"

definition sync_profile :: "'k host \<Rightarrow> params \<Rightarrow> ('k, reply) handler" where
  "sync_profile q p =
     h_bind require_store (\<lambda>_.
     h_bind (h_lift (require_string p ''profile'')) (\<lambda>name.
     h_bind (h_find q ''profile_not_found'' (profile_not_found name) (get_profile (en_store (rq_env q)) name)) (\<lambda>pr.
     h_bind (h_lift (r_bind (or_default [] (p_string p ''action'')) (sync_action pr))) (\<lambda>action.
     h_bind (h_lift (or_default False (p_bool p ''dryRun''))) (\<lambda>dry.
     h_bind (h_lift (or_default False (p_bool p ''wait''))) (\<lambda>wait.
     h_bind (new_uuid q) (\<lambda>tid.
     h_bind (start_profile_sync q dry pr action tid) (\<lambda>t.
     h_ret (if wait then Waits t name action else Answer (sync_result_json t name action ''running''))))))))))"

definition wait_answer :: "string \<Rightarrow> string \<Rightarrow> string \<Rightarrow> 'k app \<Rightarrow> json rpc option \<times> 'k app" where
  "wait_answer tid name action a =
     (case wait_poll tid False (app_sync a) of
        (None, se) \<Rightarrow> (None, a\<lparr>app_sync := se\<rparr>)
      | (Some r, se) \<Rightarrow>
          (Some (case r of
             Ok _ \<Rightarrow> Ok (sync_result_json tid name action ''completed'')
           | Err (TaskFailed msg) \<Rightarrow>
               Err (with_data (JObject [(''taskID'', JString tid)]) (rpc_error_new ''task_failed'' (sanitize msg)))
           | Err TaskCancelled \<Rightarrow>
               Err (with_data (JObject [(''taskID'', JString tid)]) (rpc_error_new ''task_cancelled'' ''task was cancelled''))
           | Err e \<Rightarrow> Err (from_sync e)), a\<lparr>app_sync := se\<rparr>))"

definition stop_task :: "string \<Rightarrow> ('k, unit) handler" where
  "stop_task tid a =
     (case stop_sync tid (app_sync a) of
        (Err e, se) \<Rightarrow> Returns (Err (if e = TaskNotFound then rpc_error_new ''task_not_found'' (''task '' @ tid @ '' not found'')
                                 else from_sync e), a\<lparr>app_sync := se\<rparr>)
      | (Ok _, se) \<Rightarrow> Returns (Ok (), a\<lparr>app_sync := se\<rparr>))"

definition sync_stop_method :: "'k host \<Rightarrow> params \<Rightarrow> ('k, json) handler" where
  "sync_stop_method q p =
     h_bind (h_lift (require_string p ''taskID'')) (\<lambda>tid.
     h_bind (stop_task tid) (\<lambda>_.
     h_ret (JObject [(''cancelled'', JBool True), (''taskID'', JString tid)])))"

section \<open>Boards\<close>

definition board_not_found :: "string \<Rightarrow> string" where
  "board_not_found i = ''board '' @ i @ '' not found''"

definition boards_list :: "'k host \<Rightarrow> ('k, json) handler" where
  "boards_list q = h_bind (h_store q (list_boards (en_store (rq_env q))))
     (\<lambda>bs. h_ret (JObject [(''boards'', JArray (map (\<lambda>b. JObject [(''id'', JString (b_id b)), (''name'', JString (b_name b)),
        (''createdAt'', JString (b_created_at b)), (''updatedAt'', JString (b_updated_at b))]) bs))]))"

definition boards_get :: "'k host \<Rightarrow> params \<Rightarrow> ('k, json) handler" where
  "boards_get q p =
     h_bind require_store (\<lambda>_.
     h_bind (h_lift (require_string p ''id'')) (\<lambda>i.
     h_bind (h_find q ''board_not_found'' (board_not_found i) (load_board_graph (en_store (rq_env q)) i)) (\<lambda>b.
     h_ret (JObject [(''board'', json_board (rq_json q) b)]))))"

definition check_board :: "board \<Rightarrow> unit rpc" where
  "check_board b =
     (if blank (b_id b) then Err (invalid_params ''board.id'' None)
      else if blank (b_name b) then Err (invalid_params ''board.name'' None)
      else case position (\<lambda>n. bn_id n = []) (b_nodes b) of
             Some i \<Rightarrow> Err (invalid_params (''board.nodes['' @ show_nat i @ ''].id'') None)
           | None \<Rightarrow> Ok ())"

definition boards_save :: "'k host \<Rightarrow> params \<Rightarrow> ('k, json) handler" where
  "boards_save q p =
     h_bind require_store (\<lambda>_.
     h_bind (h_lift (p_dict p ''board'')) (\<lambda>raw. case raw of None \<Rightarrow> h_fail (invalid_params ''board'' None) | Some d \<Rightarrow>
     h_bind (h_lift (parse_board (rq_json q) d)) (\<lambda>b.
     h_bind (h_lift (check_board b)) (\<lambda>_.
     h_bind (h_each (\<lambda>e. h_bind (id_or_new q (be_id e)) (\<lambda>i. h_ret (e\<lparr>be_id := i\<rparr>))) (b_edges b)) (\<lambda>es.
     h_bind (h_store q (save_board_graph (en_store (rq_env q)) (b\<lparr>b_edges := es\<rparr>))) (\<lambda>_.
     h_bind (h_store q (load_board_graph (en_store (rq_env q)) (b_id b))) (\<lambda>saved.
     h_ret (JObject [(''board'', json_board (rq_json q) saved)]))))))))"

definition boards_delete :: "'k host \<Rightarrow> params \<Rightarrow> ('k, json) handler" where
  "boards_delete q p =
     h_bind require_store (\<lambda>_.
     h_bind (h_lift (require_string p ''id'')) (\<lambda>i.
     h_bind (h_find q ''board_not_found'' (board_not_found i) (delete_board (en_store (rq_env q)) i)) (\<lambda>_.
     h_ret (JObject [(''deleted'', JBool True), (''id'', JString i)]))))"

definition board_exists :: "'k host \<Rightarrow> string \<Rightarrow> ('k, unit) handler" where
  "board_exists q i =
     h_bind (h_find q ''board_not_found'' (board_not_found i) (get_board (en_store (rq_env q)) i)) (\<lambda>_. h_ret ())"

text \<open>The board id of a request that needs an existing board.\<close>

definition existing_board :: "'k host \<Rightarrow> params \<Rightarrow> ('k, string) handler" where
  "existing_board q p =
     h_bind require_store (\<lambda>_.
     h_bind (h_lift (require_string p ''id'')) (\<lambda>i. h_bind (board_exists q i) (\<lambda>_. h_ret i)))"

definition start_board_run :: "string \<Rightarrow> string \<Rightarrow> bool \<Rightarrow> ('k, unit) handler" where
  "start_board_run i rid stop a =
     (case board_execute (app_board a) i rid of
        Err e \<Rightarrow> Returns (Err (from_board e), a)
      | Ok (b, be) \<Rightarrow> Returns (Ok (), a\<lparr>app_board := be, app_threads := app_threads a @ [BoardThread i rid stop b]\<rparr>))"

definition stop_board_run :: "string \<Rightarrow> ('k, unit) handler" where
  "stop_board_run i a =
     (case board_stop (app_board a) i of
        Err e \<Rightarrow> Returns (Err (from_board e), a) | Ok be \<Rightarrow> Returns (Ok (), a\<lparr>app_board := be\<rparr>))"

definition boards_execute :: "'k host \<Rightarrow> params \<Rightarrow> ('k, json) handler" where
  "boards_execute q p =
     h_bind (existing_board q p) (\<lambda>i.
     h_bind (h_lift (or_default True (p_bool p ''stopOnError''))) (\<lambda>stop.
     h_bind (new_uuid q) (\<lambda>rid.
     h_bind (start_board_run i rid stop) (\<lambda>_.
     h_ret (JObject [(''runID'', JString rid), (''boardID'', JString i), (''status'', JString ''running'')])))))"

definition boards_stop :: "'k host \<Rightarrow> params \<Rightarrow> ('k, json) handler" where
  "boards_stop q p =
     h_bind (existing_board q p) (\<lambda>i.
     h_bind (stop_board_run i) (\<lambda>_.
     h_ret (JObject [(''boardID'', JString i), (''status'', JString ''cancelling'')])))"

definition boards_status :: "'k host \<Rightarrow> params \<Rightarrow> ('k, json) handler" where
  "boards_status q p =
     h_bind (existing_board q p) (\<lambda>i.
     h_get (\<lambda>a. JObject [(''run'', case board_status (app_board a) i of
        None \<Rightarrow> JNull
      | Some st \<Rightarrow> JObject [(''runID'', JString (brs_run_id st)), (''boardID'', JString (brs_board_id st)),
          (''status'', JString (brs_status st)), (''error'', JString (brs_error st))])]))"

section \<open>History and settings\<close>

definition history_list :: "'k host \<Rightarrow> params \<Rightarrow> ('k, json) handler" where
  "history_list q p =
     h_bind require_store (\<lambda>_.
     h_bind (h_lift (or_default 20 (p_int p ''limit''))) (\<lambda>limit.
     h_bind (h_if (limit < 0) (invalid_params ''limit'' None)) (\<lambda>_.
     h_bind (h_lift (or_default 0 (p_int p ''offset''))) (\<lambda>off.
     h_bind (h_if (off < 0) (invalid_params ''offset'' None)) (\<lambda>_.
     h_bind (h_lift (or_default [] (p_string p ''profile''))) (\<lambda>profile.
     h_bind (h_store q (if profile \<noteq> [] then list_history_for_profile (en_store (rq_env q)) profile (min limit 1000) off
                        else list_history (en_store (rq_env q)) (min limit 1000) off)) (\<lambda>es.
     h_ret (JObject [(''entries'', JArray (map json_history es)), (''total'', JNull)]))))))))"

definition history_stats_method :: "'k host \<Rightarrow> ('k, json) handler" where
  "history_stats_method q = h_bind (h_store q (read_history_stats (en_store (rq_env q))))
     (\<lambda>s. h_ret (json_history_stats (rq_names q s) s))"

definition history_clear :: "'k host \<Rightarrow> ('k, json) handler" where
  "history_clear q = h_bind (h_store q (clear_history (en_store (rq_env q))))
     (\<lambda>_. h_ret (JObject [(''cleared'', JBool True)]))"

definition optional_bool :: "json_dict \<Rightarrow> string \<Rightarrow> bool \<Rightarrow> bool rpc" where
  "optional_bool d key old =
     (case map_of d key of
        None \<Rightarrow> Ok old
      | Some v \<Rightarrow> if v = JNull then Ok old
                  else (case bool_value v of Some b \<Rightarrow> Ok b | None \<Rightarrow> Err (invalid_params (''settings.'' @ key) None)))"

definition patched_settings :: "json_dict \<Rightarrow> app_settings \<Rightarrow> app_settings rpc" where
  "patched_settings d s =
     r_bind (optional_bool d ''notificationsEnabled'' (as_notifications_enabled s)) (\<lambda>n.
     r_bind (optional_bool d ''debugMode'' (as_debug_mode s)) (\<lambda>dm.
     r_bind (optional_bool d ''minimizeToTray'' (as_minimize_to_tray s)) (\<lambda>mt.
     r_bind (optional_bool d ''startAtLogin'' (as_start_at_login s)) (\<lambda>sl.
       Ok \<lparr> as_debug_mode = dm, as_minimize_to_tray = mt, as_notifications_enabled = n, as_start_at_login = sl \<rparr>))))"

definition settings_result :: "app_settings \<Rightarrow> json" where
  "settings_result s = JObject [(''settings'', json_app_settings s)]"

definition current_settings :: "'k app \<Rightarrow> app_settings" where
  "current_settings a = ad_app_settings (aw_data (app_auth a))"

definition settings_set :: "'k host \<Rightarrow> params \<Rightarrow> ('k, json) handler" where
  "settings_set q p =
     h_bind (h_lift (p_dict p ''settings'')) (\<lambda>raw. case raw of None \<Rightarrow> h_fail (invalid_params ''settings'' None) | Some d \<Rightarrow>
     h_bind (h_get current_settings) (\<lambda>s0.
     h_bind (h_lift (patched_settings d s0)) (\<lambda>s.
     h_bind (h_auth q (auth_rpc_error q) (set_app_settings (en_auth (rq_env q)) s)) (\<lambda>_.
     h_ret (settings_result s)))))"

section \<open>Dispatch\<close>

text \<open>\<open>doctor\<close> and the methods of \<open>handlers_remotes.rs\<close>; the gated ones need the rclone client.\<close>

definition rest_method :: "'k host \<Rightarrow> string \<Rightarrow> params \<Rightarrow> ('k, json) handler" where
  "rest_method q m p =
     (case rq_rest q m p of
        (r, evs) \<Rightarrow> h_bind (h_do (fold publish_bus evs)) (\<lambda>_. h_lift r))"

definition answer :: "('k, json) handler \<Rightarrow> ('k, reply) handler" where
  "answer m = h_bind m (\<lambda>v. h_ret (Answer v))"

definition method_of :: "'k host \<Rightarrow> string \<Rightarrow> params \<Rightarrow> ('k, reply) handler" where
  "method_of q m p =
     (if m = ''ping'' then answer (h_ret (ping q))
      else if m = ''state.snapshot'' then answer (state_snapshot q p)
      else if m = ''app.quit'' then answer (h_ret (JObject [(''quitting'', JBool True)]))
      else if m = ''logs.read'' then answer (logs_read q p)
      else if m = ''auth.status'' then answer (auth_status_json q)
      else if m = ''auth.setup'' then answer (auth_setup q p)
      else if m = ''auth.unlock'' then answer (auth_unlock q p)
      else if m = ''auth.lock'' then answer (auth_lock_method q)
      else if m = ''auth.changePassword'' then answer (auth_change_password q p)
      else if m = ''auth.removePassword'' then answer (auth_remove_password q p)
      else if m = ''flows.list'' then answer (flows_list q)
      else if m = ''flows.get'' then answer (flows_get q p)
      else if m = ''flows.create'' then answer (flows_create q p)
      else if m = ''flows.save'' then answer (flows_save q p)
      else if m = ''flows.delete'' then answer (flows_delete q p)
      else if m = ''flows.execute'' then answer (flows_execute q p)
      else if m = ''flows.stop'' then answer (flows_stop q p)
      else if m = ''operations.create'' then answer (operations_create q p)
      else if m = ''operations.update'' then answer (operations_update q p)
      else if m = ''operations.delete'' then answer (operations_delete q p)
      else if m = ''operations.reorder'' then answer (operations_reorder q p)
      else if m = ''runtime.snapshot'' then answer (h_get (\<lambda>a. json_runtime_snapshot (app_snapshot q a)))
      else if m = ''runtime.tasks'' then answer (h_get (\<lambda>a. JObject
        [(''tasks'', JArray (map (json_task (rq_json q)) (active_tasks (app_sync a))))]))
      else if m = ''profiles.list'' then answer (profiles_list q)
      else if m = ''profiles.get'' then answer (profiles_get q p)
      else if m = ''profiles.save'' then answer (profiles_save q p)
      else if m = ''profiles.delete'' then answer (profiles_delete q p)
      else if m = ''schedules.list'' then answer (schedules_list q)
      else if m = ''sync.profile'' then sync_profile q p
      else if m = ''sync.stop'' then answer (sync_stop_method q p)
      else if m = ''boards.list'' then answer (boards_list q)
      else if m = ''boards.get'' then answer (boards_get q p)
      else if m = ''boards.save'' then answer (boards_save q p)
      else if m = ''boards.delete'' then answer (boards_delete q p)
      else if m = ''boards.execute'' then answer (boards_execute q p)
      else if m = ''boards.stop'' then answer (boards_stop q p)
      else if m = ''boards.status'' then answer (boards_status q p)
      else if m = ''history.list'' then answer (history_list q p)
      else if m = ''history.stats'' then answer (history_stats_method q)
      else if m = ''history.clear'' then answer (history_clear q)
      else if m = ''settings.get'' then answer (h_get (\<lambda>a. settings_result (current_settings a)))
      else if m = ''settings.set'' then answer (settings_set q p)
      else answer (rest_method q m p))"

definition handle :: "'k host \<Rightarrow> string \<Rightarrow> json \<Rightarrow> ('k, reply) handler" where
  "handle q m params a =
     (let always = m \<in> set ALWAYS_METHODS in
      if \<not> always \<and> m \<notin> set LOCKED_GATED_METHODS then Returns (Err (unknown_method m), a)
      else if \<not> always \<and> is_locked a then Returns (Err rpc_locked, a)
      else h_bind (h_lift (params_new params)) (method_of q m) a)"

end
