(* ===== verification/DispatchLaws.thy ===== *)
theory DispatchLaws
  imports Dispatcher
begin

text \<open>
  What the protocol's methods keep. \<open>keeps P m\<close> is a triple for handlers with one predicate. The
  locale \<open>effect_invariant\<close> is for a predicate that every effect on the container keeps apart from
  those on the authentication state; it is kept by every method that does not log in or out.
  \<open>request_invariant\<close> extends it by those effects: such a predicate is kept by every request. The
  first is interpreted on the locked container, the second on the wholeness of the data plane.
\<close>

section \<open>Handlers that keep a predicate\<close>

definition keeps :: "('k app \<Rightarrow> bool) \<Rightarrow> ('k, 'a) handler \<Rightarrow> bool" where
  "keeps P m \<longleftrightarrow> (\<forall>a. P a \<longrightarrow> (case m a of Panics \<Rightarrow> True | Returns (r, a') \<Rightarrow> P a'))"

lemma keepsI: "(\<And>a r a'. P a \<Longrightarrow> m a = Returns (r, a') \<Longrightarrow> P a') \<Longrightarrow> keeps P m"
  by (auto simp: keeps_def split: outcome.split prod.split)

lemma keepsD: "keeps P m \<Longrightarrow> P a \<Longrightarrow> m a = Returns (r, a') \<Longrightarrow> P a'"
  by (auto simp: keeps_def dest!: spec [of _ a])

named_theorems keeps_intros \<open>composition of handlers that keep a predicate\<close>

lemma keeps_pure [keeps_intros]:
  "keeps P (h_ret v)" "keeps P (h_fail e)" "keeps P (h_lift r)" "keeps P (h_get f)" "keeps P require_store"
  "keeps P (h_if c e)" "keeps P (ensure_flow_mutable q i)" "keeps P (auth_status_json q)"
  by (auto intro!: keepsI simp: h_ret_def h_fail_def h_lift_def h_get_def require_store_def h_if_def
      ensure_flow_mutable_def auth_status_json_def split: if_splits)

lemma keeps_bind [keeps_intros]:
  assumes "keeps P m" "\<And>v. keeps P (f v)"
  shows "keeps P (h_bind m f)"
  by (rule keepsI)
    (auto simp: h_bind_def split: outcome.splits prod.splits sum.splits dest: keepsD [OF assms(1)] keepsD [OF assms(2)])

lemma keeps_if: "(c \<Longrightarrow> keeps P m) \<Longrightarrow> (\<not> c \<Longrightarrow> keeps P m') \<Longrightarrow> keeps P (if c then m else m')"
  by simp

lemma keeps_each [keeps_intros]: "(\<And>x. keeps P (f x)) \<Longrightarrow> keeps P (h_each f xs)"
  by (induction xs) (auto intro!: keeps_intros)

lemma keeps_cases [keeps_intros]:
  "keeps P m \<Longrightarrow> (\<And>x. keeps P (f x)) \<Longrightarrow> keeps P (case z of None \<Rightarrow> m | Some x \<Rightarrow> f x)"
  "keeps P m \<Longrightarrow> keeps P m' \<Longrightarrow> keeps P (if c then m else m')"
  "(\<And>x y. keeps P (g x y)) \<Longrightarrow> keeps P (case w of (x, y) \<Rightarrow> g x y)"
  "keeps P (h y) \<Longrightarrow> keeps P (let x = y in h x)"
  by (simp_all split: option.split prod.split)

section \<open>Invariants of all requests\<close>

locale effect_invariant =
  fixes q :: "'k host" and P :: "'k app \<Rightarrow> bool"
  assumes eff_store: "P a \<Longrightarrow> app_store a \<noteq> None \<Longrightarrow> P (set_store (rq_env q) st a)"
    and eff_lock: "P a \<Longrightarrow> P (before_lock a)"
    and eff_sync: "P a \<Longrightarrow> same_plane (app_sync a) se \<Longrightarrow> P (a\<lparr>app_sync := se\<rparr>)"
    and eff_flow: "P a \<Longrightarrow> fe_source fe = fe_source (app_flow a) \<Longrightarrow> P (a\<lparr>app_flow := fe\<rparr>)"
    and eff_board: "P a \<Longrightarrow> eng_store be = eng_store (app_board a) \<Longrightarrow> eng_sync be = eng_sync (app_board a) \<Longrightarrow>
      P (a\<lparr>app_board := be\<rparr>)"
    and eff_hub: "P a \<Longrightarrow> P (a\<lparr>app_hub := h\<rparr>)"
    and eff_ids: "P a \<Longrightarrow> P (a\<lparr>app_ids := n\<rparr>)"
    and eff_threads: "P a \<Longrightarrow> P (a\<lparr>app_threads := t\<rparr>)"
    and eff_publish: "P a \<Longrightarrow> P (publish_bus e a)"
begin

lemma keeps_call: "keeps P (h_call q err call)"
  by (rule keepsI) (auto simp: h_call_def eff_store split: option.splits prod.splits sum.splits)

lemma keeps_calls: "keeps P (h_store q call)" "keeps P (h_find q code message call)" "keeps P (h_try q call')"
  by (simp_all add: h_store_def h_find_def h_try_def keeps_call)

lemma keeps_schedule: "keeps P (h_schedule q f)"
  by (rule keepsI) (auto simp: h_schedule_def intro: eff_sync same_plane_flow_schedule split: outcome.splits)

lemma keeps_uuid: "keeps P (new_uuid q)" "keeps P (id_or_new q i)"
  by (auto intro!: keepsI simp: new_uuid_def id_or_new_def h_ret_def eff_ids split: if_splits)

lemma keeps_publish: "keeps P (h_publish e)" "keeps P (emit_state_changed q d i)" "keeps P (publish_and_status q e)"
  by (auto intro!: keepsI simp: h_publish_def emit_state_changed_def publish_and_status_def h_bind_def h_do_def
      auth_status_json_def h_get_def eff_publish)

lemma keeps_lock: "keeps P (h_do before_lock)"
  by (rule keepsI) (auto simp: h_do_def eff_lock)

lemma keeps_flow_runs: "keeps P (begin_flow_run q i)" "keeps P (stop_flow_run q i)"
  by (auto intro!: keepsI eff_flow eff_threads [where a = "_\<lparr>app_flow := _\<rparr>"]
      simp: begin_flow_run_def stop_flow_run_def flow_publish_def flow_begin_def flow_stop_def
      split: prod.splits sum.splits option.splits if_splits)

lemma keeps_board_runs: "keeps P (start_board_run i rid stop)" "keeps P (stop_board_run i)"
  by (auto intro!: keepsI eff_board eff_threads [where a = "_\<lparr>app_board := _\<rparr>"]
      simp: start_board_run_def stop_board_run_def board_execute_def board_stop_def
      split: prod.splits sum.splits option.splits if_splits)

lemma keeps_tasks: "keeps P (start_profile_sync q dry pr act tid)" "keeps P (stop_task tid)"
  by (auto intro!: keepsI eff_sync eff_threads [where a = "_\<lparr>app_sync := _\<rparr>"]
      simp: start_profile_sync_def stop_task_def start_path_sync_def start_sync_def start_with_profile_def reserve_def
        admit_def publish_event_def stop_sync_def update_task_def same_plane_def
      split: prod.splits sum.splits option.splits if_splits)

lemma keeps_forget: "keeps P (h_do (\<lambda>a. a\<lparr>app_sync := unregister_flow_schedule i (app_sync a)\<rparr>))"
    "keeps P (h_do (\<lambda>a. a\<lparr>app_hub := hub_forget i (app_hub a)\<rparr>))"
  by (auto intro!: keepsI eff_sync eff_hub simp: h_do_def unregister_flow_schedule_def same_plane_unregister)

lemma keeps_rest: "keeps P (rest_method q m p)"
proof -
  have "P a \<Longrightarrow> P (fold publish_bus evs a)" for a evs by (induction evs arbitrary: a) (auto intro: eff_publish)
  then have "keeps P (h_do (fold publish_bus evs))" for evs by (auto intro!: keepsI simp: h_do_def)
  then show ?thesis by (auto simp: rest_method_def intro!: keeps_intros split: prod.split)
qed

lemmas keeps_effects = keeps_calls keeps_schedule keeps_uuid keeps_publish keeps_lock
  keeps_flow_runs keeps_board_runs keeps_tasks keeps_forget keeps_rest

lemma keeps_system: "keeps P (state_snapshot q p)" "keeps P (logs_read q p)"
  unfolding state_snapshot_def section_list_def logs_read_def Let_def
  by (intro keeps_intros keeps_effects)+

lemma keeps_flow_calls: "keeps P (store_get_flow q i)" "keeps P (store_save_flow q f)" "keeps P (load_flow q i)"
    "keeps P (store_changed_flow q i f)"
  unfolding store_get_flow_def store_save_flow_def load_flow_def store_changed_flow_def
  by (intro keeps_intros keeps_effects)+

lemma keeps_flow_methods: "keeps P (flows_list q)" "keeps P (flows_get q p)" "keeps P (flows_create q p)"
    "keeps P (flows_save q p)" "keeps P (flows_delete q p)" "keeps P (flows_execute q p)" "keeps P (flows_stop q p)"
  unfolding flows_list_def flows_get_def flows_create_def flows_save_def flows_delete_def flows_execute_def
    flows_stop_def Let_def
  by (intro keeps_intros keeps_effects keeps_flow_calls)+

lemma keeps_operation_methods: "keeps P (operations_create q p)" "keeps P (operations_update q p)"
    "keeps P (operations_delete q p)" "keeps P (operations_reorder q p)"
  unfolding operations_create_def operations_update_def operations_delete_def operations_reorder_def Let_def
  by (intro keeps_intros keeps_effects keeps_flow_calls)+

lemma keeps_profile_methods: "keeps P (profiles_list q)" "keeps P (profiles_get q p)" "keeps P (profiles_save q p)"
    "keeps P (profiles_delete q p)" "keeps P (schedules_list q)" "keeps P (sync_profile q p)" "keeps P (sync_stop_method q p)"
  unfolding profiles_list_def profiles_get_def profiles_save_def profiles_delete_def schedules_list_def
    sync_profile_def sync_stop_method_def
  by (intro keeps_intros keeps_effects)+

lemma keeps_board_methods: "keeps P (boards_list q)" "keeps P (boards_get q p)" "keeps P (boards_save q p)"
    "keeps P (boards_delete q p)" "keeps P (boards_execute q p)" "keeps P (boards_stop q p)" "keeps P (boards_status q p)"
  unfolding boards_list_def boards_get_def boards_save_def boards_delete_def boards_execute_def boards_stop_def
    boards_status_def existing_board_def board_exists_def
  by (intro keeps_intros keeps_effects)+

lemma keeps_history_methods: "keeps P (history_list q p)" "keeps P (history_stats_method q)" "keeps P (history_clear q)"
  unfolding history_list_def history_stats_method_def history_clear_def
  by (intro keeps_intros keeps_effects)+

lemma keeps_method_if:
  assumes "m = ''auth.setup'' \<Longrightarrow> keeps P (auth_setup q p)" "m = ''auth.unlock'' \<Longrightarrow> keeps P (auth_unlock q p)"
    "m = ''auth.lock'' \<Longrightarrow> keeps P (auth_lock_method q)"
    "m = ''auth.changePassword'' \<Longrightarrow> keeps P (auth_change_password q p)"
    "m = ''auth.removePassword'' \<Longrightarrow> keeps P (auth_remove_password q p)"
    "m = ''settings.set'' \<Longrightarrow> keeps P (settings_set q p)"
  shows "keeps P (method_of q m p)"
  unfolding method_of_def answer_def
  by (intro keeps_if keeps_bind keeps_pure keeps_effects keeps_system keeps_flow_methods keeps_operation_methods
      keeps_profile_methods keeps_board_methods keeps_history_methods assms)

end

locale request_invariant = effect_invariant q P for q :: "'k host" and P :: "'k app \<Rightarrow> bool" +
  assumes eff_auth: "P a \<Longrightarrow> P (a\<lparr>app_auth := w\<rparr>)"
    and eff_open: "P a \<Longrightarrow> open_data_plane (rq_env q) opened rclone now a = Returns (r, a') \<Longrightarrow> P a'"
begin

lemma keeps_auth: "keeps P (h_auth q err call')"
  by (rule keepsI) (auto simp: h_auth_def eff_auth split: prod.splits sum.splits)

lemma keeps_after_unlock: "keeps P (after_unlock q)"
  by (rule keepsI) (auto simp: after_unlock_def dest: eff_open split: outcome.splits prod.splits sum.splits)

lemma keeps_auth_methods: "keeps P (auth_setup q p)" "keeps P (auth_unlock q p)" "keeps P (auth_lock_method q)"
    "keeps P (auth_change_password q p)" "keeps P (auth_remove_password q p)" "keeps P (settings_set q p)"
  unfolding auth_setup_def auth_unlock_def auth_lock_method_def auth_change_password_def auth_remove_password_def
    settings_set_def
  by (intro keeps_intros keeps_effects keeps_auth keeps_after_unlock)+

lemma handle_keeps: "P a \<Longrightarrow> handle q m params a = Returns (r, a') \<Longrightarrow> P a'"
  using keepsD [OF keeps_bind [OF keeps_pure(3) keeps_method_if [OF keeps_auth_methods]]]
  by (auto simp: handle_def Let_def split: if_splits)

end

section \<open>The data plane stays whole\<close>

lemma plane_same:
  "plane_ok env a \<Longrightarrow> same_plane (app_sync a) se \<Longrightarrow> plane_ok env (a\<lparr>app_sync := se\<rparr>)"
  "plane_ok env a \<Longrightarrow> fe_source fe = fe_source (app_flow a) \<Longrightarrow> plane_ok env (a\<lparr>app_flow := fe\<rparr>)"
  "plane_ok env a \<Longrightarrow> eng_store be = eng_store (app_board a) \<Longrightarrow> eng_sync be = eng_sync (app_board a) \<Longrightarrow>
    plane_ok env (a\<lparr>app_board := be\<rparr>)"
  "plane_ok env a \<Longrightarrow> plane_ok env (a\<lparr>app_hub := h\<rparr>)" "plane_ok env a \<Longrightarrow> plane_ok env (a\<lparr>app_ids := n\<rparr>)"
  "plane_ok env a \<Longrightarrow> plane_ok env (a\<lparr>app_threads := t\<rparr>)"
  by (auto simp: plane_ok_def same_plane_def split: option.splits)

interpretation plane: request_invariant q "plane_ok (rq_env q)" for q
  by unfold_locales (auto simp: plane_set_store plane_same dest: plane_open)

text \<open>A run of requests on one environment, left at a panic.\<close>

type_synonym 'k request = "'k host \<times> string \<times> json"

fun serve :: "'k app_env \<Rightarrow> 'k request list \<Rightarrow> 'k app \<Rightarrow> 'k app outcome" where
  "serve env [] a = Returns a"
| "serve env ((q, m, params) # rs) a =
     (case handle (q\<lparr>rq_env := env\<rparr>) m params a of Panics \<Rightarrow> Panics | Returns (_, a') \<Rightarrow> serve env rs a')"

lemma serve_induct:
  assumes "\<And>q m params a r a'. P a \<Longrightarrow> (q, m, params) \<in> set rs \<Longrightarrow>
      handle (q\<lparr>rq_env := env\<rparr>) m params a = Returns (r, a') \<Longrightarrow> P a'"
  shows "P a \<Longrightarrow> serve env rs a = Returns a' \<Longrightarrow> P a'"
  using assms
proof (induction rs arbitrary: a)
  case (Cons x rs)
  obtain q m params where x: "x = (q, m, params)" by (cases x)
  from Cons.prems(2) obtain r a1 where s: "handle (q\<lparr>rq_env := env\<rparr>) m params a = Returns (r, a1)" "serve env rs a1 = Returns a'"
    by (auto simp: x split: outcome.splits prod.splits)
  have "P a1" using Cons.prems(3) [OF Cons.prems(1) _ s(1)] by (simp add: x)
  then show ?case by (rule Cons.IH [OF _ s(2)]) (rule Cons.prems(3), simp_all)
qed simp


section \<open>A locked container stays locked\<close>

definition config_names :: "string list" where "config_names = CONFIG_FILES @ ENC_FILES"

definition sealed_world :: "string \<Rightarrow> (string \<rightharpoonup> byte list) \<Rightarrow> 'k auth_world \<Rightarrow> bool" where
  "sealed_world h fs w \<longleftrightarrow> ad_enabled (aw_data w) \<and> \<not> st_unlocked (aw_state w) \<and> ad_password_hash (aw_data w) = h \<and>
     list_all (\<lambda>n. ds_files (aw_dir w) n = fs n) config_names"

definition sealed :: "string \<Rightarrow> (string \<rightharpoonup> byte list) \<Rightarrow> 'k app \<Rightarrow> bool" where
  "sealed h fs a \<longleftrightarrow> app_store a = None \<and> sealed_world h fs (app_auth a)"

lemma write_auth_file:
  "write_atomic AUTH_FILE b d = (ok, d') \<Longrightarrow> n \<in> set config_names \<Longrightarrow> ds_files d' n = ds_files d n"
  by (auto simp: write_atomic_def dir_next_files config_names_def CONFIG_FILES_def ENC_FILES_def AUTH_FILE_def
      split: prod.splits if_splits)

lemma sealed_save: "sealed_world h fs w \<Longrightarrow> sealed_world h fs (snd (save_auth_data env w))"
  by (auto simp: sealed_world_def save_auth_data_def list_all_iff write_auth_file split: prod.split)

lemma sealed_data:
  "sealed_world h fs w \<Longrightarrow> (\<And>d. ad_enabled (f d) = ad_enabled d \<and> ad_password_hash (f d) = ad_password_hash d) \<Longrightarrow>
     sealed_world h fs (set_data f w)"
  by (simp add: sealed_world_def set_data_def set_state_def)

lemma sealed_unlock:
  assumes "sealed_world h fs w" "\<not> verify (ae_argon env) pw h" "unlock env now now' pw w = (r, w')"
  shows "sealed_world h fs w' \<and> (\<exists>e. r = Err e)"
proof -
  define w1 where "w1 = set_data (\<lambda>a. a\<lparr>ad_lockout_until := []\<rparr>) w"
  have w1: "sealed_world h fs w1" unfolding w1_def by (rule sealed_data [OF assms(1)]) simp
  have v: "sealed_world h fs (snd (unlock_verify env t pw w1)) \<and> fst (unlock_verify env t pw w1) = Err InvalidPassword" for t
  proof -
    have "ad_password_hash (aw_data w1) = h" using w1 by (simp add: sealed_world_def)
    moreover have "sealed_world h fs (unlock_wrong env t w1)"
      unfolding unlock_wrong_def by (intro sealed_save sealed_data [OF w1]) (simp add: Let_def)
    ultimately show ?thesis using assms(2) by (simp add: unlock_verify_def)
  qed
  have u: "\<not> st_unlocked (aw_state w1)" using w1 by (simp add: sealed_world_def)
  have w: "ad_enabled (aw_data w)" "\<not> st_unlocked (aw_state w)" using assms(1) by (simp_all add: sealed_world_def)
  show ?thesis
  proof (cases "active_lockout_remaining env now (aw_data w)")
    case (Some k)
    then show ?thesis using assms(1,3) w by (auto simp: unlock_def unlock_check_def)
  next
    case None
    then have "(r, w') = unlock_verify env now pw w1 \<or> (r, w') = unlock_verify env now' pw w1"
      using assms(3) w u by (auto simp: unlock_def unlock_check_def unlock_resume_def Let_def simp flip: w1_def split: if_splits)
    then show ?thesis using v [of now] v [of now'] by (metis fst_conv snd_conv)
  qed
qed

lemma sealed_world_steps:
  assumes w: "sealed_world h fs w"
  shows "\<exists>e. setup_password env salt pw w = (Err e, w)" "\<exists>e. remove_password env pw w = (Err e, w)"
    "\<exists>e. change_password env nonce salt old new w = (Err e, w)"
    "sealed_world h fs (snd (auth_lock env nonce now w))" "sealed_world h fs (snd (set_app_settings env s w))"
proof -
  have d: "sealed_world h fs (w\<lparr>aw_store := k\<rparr>)" for k using w by (simp add: sealed_world_def)
  have u: "\<not> st_unlocked (aw_state w)" "ad_enabled (aw_data w)" using w by (simp_all add: sealed_world_def)
  then show "\<exists>e. setup_password env salt pw w = (Err e, w)" "\<exists>e. remove_password env pw w = (Err e, w)"
    "\<exists>e. change_password env nonce salt old new w = (Err e, w)"
    by (simp_all add: setup_password_def remove_password_def change_password_def)
  show "sealed_world h fs (snd (auth_lock env nonce now w))"
    using u w d by (auto simp: auth_lock_def auth_suspend_def forget_remembered_key_def split: option.split prod.split sum.split)
  show "sealed_world h fs (snd (set_app_settings env s w))"
    unfolding set_app_settings_def by (intro sealed_save sealed_data [OF w]) simp
qed

text \<open>A request that offers the right password to \<open>auth.unlock\<close>.\<close>

definition right_unlock :: "'k app_env \<Rightarrow> string \<Rightarrow> string \<Rightarrow> json \<Rightarrow> bool" where
  "right_unlock env h m params \<longleftrightarrow> m = ''auth.unlock'' \<and>
     (case params_new params of
        Err _ \<Rightarrow> False
      | Ok p \<Rightarrow> (case require_string p ''password'' of
                  Err _ \<Rightarrow> False | Ok pw \<Rightarrow> verify (ae_argon (en_auth env)) pw h))"

interpretation seal: effect_invariant q "sealed h fs" for q h fs
  by unfold_locales (auto simp: sealed_def before_lock_def publish_bus_def)

lemma keeps_sealed_auth:
  assumes "\<And>w. sealed_world h fs w \<Longrightarrow> sealed_world h fs (snd (call w))"
  shows "keeps (sealed h fs) (h_auth q err call)"
proof (rule keepsI)
  fix a r a'
  assume "sealed h fs a" "h_auth q err call a = Returns (r, a')"
  then show "sealed h fs a'" using assms [of "app_auth a"]
    by (auto simp: sealed_def h_auth_def split: prod.splits sum.splits)
qed

text \<open>A call that only fails: what follows it is not reached.\<close>

lemma keeps_sealed_refused:
  assumes "\<And>w. sealed_world h fs w \<Longrightarrow> sealed_world h fs (snd (call w)) \<and> (\<exists>e. fst (call w) = Err e)"
  shows "keeps (sealed h fs) (h_bind (h_auth q err call) f)"
proof (rule keepsI)
  fix a r a'
  assume a: "sealed h fs a" "h_bind (h_auth q err call) f a = Returns (r, a')"
  obtain e w where c: "call (app_auth a) = (Err e, w)" "sealed_world h fs w"
    using assms [of "app_auth a"] a(1) by (cases "call (app_auth a)") (auto simp: sealed_def)
  then show "sealed h fs a'" using a by (auto simp: sealed_def h_bind_def h_auth_def)
qed

lemma keeps_sealed_methods:
  "keeps (sealed h fs) (settings_set q p)" "keeps (sealed h fs) (auth_setup q p)"
  "keeps (sealed h fs) (auth_change_password q p)" "keeps (sealed h fs) (auth_remove_password q p)"
  "keeps (sealed h fs) (auth_lock_method q)"
proof -
  note refused = keeps_sealed_refused [where h = h and fs = fs]
  show "keeps (sealed h fs) (settings_set q p)"
    unfolding settings_set_def by (intro keeps_intros keeps_sealed_auth sealed_world_steps)
  show "keeps (sealed h fs) (auth_setup q p)"
    unfolding auth_setup_def
    by (intro refused keeps_bind keeps_pure) (metis fst_conv snd_conv sealed_world_steps(1))
  show "keeps (sealed h fs) (auth_change_password q p)"
    unfolding auth_change_password_def
    by (intro refused keeps_bind keeps_pure) (metis fst_conv snd_conv sealed_world_steps(3))
  show "keeps (sealed h fs) (auth_remove_password q p)"
    unfolding auth_remove_password_def
    by (intro refused keeps_bind keeps_pure seal.keeps_lock) (metis fst_conv snd_conv sealed_world_steps(2))
  show "keeps (sealed h fs) (auth_lock_method q)"
    unfolding auth_lock_method_def
    by (intro keeps_bind seal.keeps_effects keeps_sealed_auth sealed_world_steps)
qed

lemma sealed_wrong_unlock:
  assumes "params_new params = Ok p" "\<not> right_unlock (rq_env q) h ''auth.unlock'' params"
  shows "keeps (sealed h fs) (auth_unlock q p)"
proof (cases "require_string p ''password''")
  case (Inl e)
  then show ?thesis by (auto simp: auth_unlock_def h_bind_def h_lift_def intro!: keepsI)
next
  case (Inr pw)
  then have "\<not> verify (ae_argon (en_auth (rq_env q))) pw h" using assms by (simp add: right_unlock_def)
  then have "keeps (sealed h fs) (h_bind (h_auth q (unlock_error q)
      (unlock (en_auth (rq_env q)) (rq_now q) (rq_later q) pw)) f)" for f :: "unit \<Rightarrow> ('a, json) handler"
    by (intro keeps_sealed_refused) (metis prod.collapse sealed_unlock)
  then show ?thesis by (simp add: auth_unlock_def Inr h_bind_def h_lift_def keeps_def)
qed

lemma sealed_handle:
  assumes "sealed h fs a" "\<not> right_unlock (rq_env q) h m params" "handle q m params a = Returns (r, a')"
  shows "sealed h fs a'"
proof (cases "m \<in> set ALWAYS_METHODS")
  case False
  moreover have "is_locked a"
    using assms(1) by (simp add: sealed_def sealed_world_def is_locked_def is_setup_def is_unlocked_def)
  ultimately show ?thesis using assms by (auto simp: handle_def split: if_splits)
next
  case True
  show ?thesis
  proof (cases "params_new params")
    case (Inl e)
    then show ?thesis using assms True by (simp add: handle_def h_bind_def h_lift_def)
  next
    case (Inr p)
    have "keeps (sealed h fs) (method_of q m p)"
      using sealed_wrong_unlock [OF Inr] assms(2) by (intro seal.keeps_method_if keeps_sealed_methods) simp
    then show ?thesis using assms True by (auto simp: handle_def h_bind_def h_lift_def Inr dest: keepsD)
  qed
qed

text \<open>
  C1: a locked container serves nothing and changes nothing until it is given the password.
  Whatever requests it gets, wrong passwords included, if none of them is an \<open>auth.unlock\<close> with a
  password that verifies against the stored hash, then the container is still locked, has no
  store, and the configuration files and their encrypted copies are what they were.
\<close>

theorem locked_until_the_password:
  assumes "is_locked a"
    and "list_all (\<lambda>(q, m, params). \<not> right_unlock env (ad_password_hash (aw_data (app_auth a))) m params) rs"
    and "serve env rs a = Returns a'"
  shows "is_locked a' \<and>
    list_all (\<lambda>n. ds_files (aw_dir (app_auth a')) n = ds_files (aw_dir (app_auth a)) n) config_names"
proof -
  define h fs where "h = ad_password_hash (aw_data (app_auth a))" and "fs = ds_files (aw_dir (app_auth a))"
  have "sealed h fs a"
    using assms(1) by (auto simp: sealed_def sealed_world_def is_locked_def is_setup_def is_unlocked_def h_def fs_def list_all_iff)
  then have "sealed h fs a'"
  proof (rule serve_induct [where P = "sealed h fs" and rs = rs and env = env, rotated, OF _ assms(3)])
    fix q m params b r b'
    assume "sealed h fs b" "(q, m, params) \<in> set rs" "handle (q\<lparr>rq_env := env\<rparr>) m params b = Returns (r, b')"
    moreover from this(2) have "\<not> right_unlock (rq_env (q\<lparr>rq_env := env\<rparr>)) h m params"
      using assms(2) by (auto simp: list_all_iff h_def)
    ultimately show "sealed h fs b'" using sealed_handle by blast
  qed
  then show ?thesis by (simp add: sealed_def sealed_world_def is_locked_def is_setup_def is_unlocked_def fs_def)
qed

theorem locked_until_the_password_witness:
  "\<forall>env q. let a = app_wired demo_locked in
     serve env [(q, ''flows.list'', JNull), (q, ''settings.get'', JNull)] a = Returns a \<and> is_locked a"
proof (intro allI)
  fix env :: "memory_store app_env" and q :: "memory_store host"
  define a where "a = app_wired demo_locked"
  have l: "is_locked a"
    by (simp add: a_def is_locked_def is_setup_def is_unlocked_def app_wired_def demo_locked_def demo_world_def demo_data_def
        set_state_def)
  have s: "serve env [(q, ''flows.list'', JNull), (q, ''settings.get'', JNull)] a = Returns a"
    using l by (simp add: handle_def ALWAYS_METHODS_def LOCKED_GATED_METHODS_def params_new_def h_bind_def h_lift_def
        method_of_def answer_def h_get_def h_ret_def Let_def)
  have "is_locked a"
    using locked_until_the_password [OF l _ s] by (simp add: right_unlock_def)
  with s show "let a = app_wired demo_locked in
     serve env [(q, ''flows.list'', JNull), (q, ''settings.get'', JNull)] a = Returns a \<and> is_locked a"
    by (simp add: a_def Let_def)
qed

section \<open>Ways to lose the data plane\<close>

lemma h_bind_steps:
  "m a = Returns (Ok v, a') \<Longrightarrow> h_bind m f a = f v a'" "m a = Returns (Err e, a') \<Longrightarrow> h_bind m f a = Returns (Err e, a')"
  by (simp_all add: h_bind_def)

lemma h_bind_pure [simp]:
  "h_bind (h_ret v) f a = f v a" "h_bind (h_lift (Ok v)) f a = f v a" "h_bind (h_lift (Err e)) f a = Returns (Err e, a)"
  "h_bind (h_get g) f a = f (g a) a" "h_bind (h_do d) k a = k () (d a)" "h_bind (h_fail e) f a = Returns (Err e, a)"
  by (simp_all add: h_bind_def h_ret_def h_lift_def h_get_def h_do_def h_fail_def)

lemma before_lock_fields [simp]:
  "app_auth (before_lock a) = app_auth a" "app_store (before_lock a) = None" "app_closed (before_lock a) = app_closed a"
  by (simp_all add: before_lock_def)

lemma publish_fields [simp]:
  "app_auth (publish_bus e a) = app_auth a" "app_store (publish_bus e a) = app_store a"
  by (simp_all add: publish_bus_def)

text \<open>
  \<open>auth.lock\<close> while no password is set closes the data plane but does not lock: every method that
  needs the store then answers \<open>locked\<close>, and \<open>auth.unlock\<close> that no password is configured.
\<close>

lemma lock_without_password:
  assumes "\<not> ad_enabled (aw_data (app_auth a))" "st_enc_key (aw_state (app_auth a)) = None"
    and "forget_remembered_key (en_auth (rq_env q)) (app_auth a) = (Ok (), w)" "aw_state w = aw_state (app_auth a)"
  shows "\<exists>j a'. auth_lock_method q a = Returns (Ok j, a') \<and> app_store a' = None \<and> \<not> is_locked a' \<and>
    flows_list q a' = Returns (Err rpc_locked, a') \<and>
    unlock (en_auth (rq_env q)) now now' pw (app_auth a') = (Err NotSetup, app_auth a')"
proof -
  have "auth_lock (en_auth (rq_env q)) (rq_nonce q) (rq_now q) (app_auth a) = (Ok (), w)"
    using assms by (simp add: auth_lock_def auth_suspend_def lock_internal_def)
  then show ?thesis using assms
    by (simp add: auth_lock_method_def h_auth_def h_bind_def h_do_def publish_and_status_def h_publish_def auth_status_json_def
        h_get_def is_locked_def is_setup_def flows_list_def h_store_def h_call_def unlock_def unlock_check_def)
qed

text \<open>\<open>auth.removePassword\<close> with a wrong password leaves an unlocked container without its data plane.\<close>

lemma wrong_remove_closes_plane:
  assumes "ad_enabled (aw_data (app_auth a))" "st_unlocked (aw_state (app_auth a))"
    and "require_string p ''password'' = Ok pw" "\<not> verify (ae_argon (en_auth (rq_env q))) pw (ad_password_hash (aw_data (app_auth a)))"
  shows "\<exists>e a'. auth_remove_password q p a = Returns (Err e, a') \<and> app_store a' = None \<and> is_unlocked (app_auth a')"
  using assms
  by (simp add: auth_remove_password_def h_auth_def h_bind_def h_lift_def h_do_def remove_password_def is_unlocked_def)

text \<open>\<open>flows.execute\<close> of a flow that is not stored answers \<open>not_found\<close>.\<close>

lemma execute_missing_flow:
  assumes "require_string p ''id'' = Ok i" "fe_source (app_flow a) = Some g" "g i = Err NotFound"
  shows "\<exists>a'. flows_execute q p a = Returns (Err (rpc_error_new ''not_found'' ''record not found''), a')"
  using assms by (simp add: flows_execute_def begin_flow_run_def flow_begin_def from_flow_def from_store_def h_bind_def h_lift_def)

section \<open>A running flow is not edited\<close>

text \<open>What a request asks to edit: the flow named by a flow-editing method.\<close>

definition edited_flow :: "'k host \<Rightarrow> string \<Rightarrow> params \<Rightarrow> string option" where
  "edited_flow q m p =
     (if m = ''flows.save'' then
        (case p_dict p ''flow'' of Ok (Some d) \<Rightarrow> (case parse_flow (rq_json q) d of Ok f \<Rightarrow> Some (f_id f) | Err _ \<Rightarrow> None)
         | _ \<Rightarrow> None)
      else if m = ''flows.delete'' then (case require_string p ''id'' of Ok i \<Rightarrow> Some i | Err _ \<Rightarrow> None)
      else if m \<in> {''operations.create'', ''operations.update'', ''operations.delete'', ''operations.reorder''}
      then (case require_string p ''flowID'' of Ok i \<Rightarrow> Some i | Err _ \<Rightarrow> None)
      else None)"

definition app_tables :: "'k app \<Rightarrow> tables option" where
  "app_tables a = Option.bind (app_store a) ss_tables"

definition runs_on :: "string \<Rightarrow> tables option \<Rightarrow> 'k app \<Rightarrow> bool" where
  "runs_on i t a \<longleftrightarrow> flow_is_running i (app_flow a) \<and> app_tables a = t"

text \<open>
  A handler that answers an error and leaves the stored tables alone, and one that leaves the
  tables and the run of the flow alone, whatever it answers.
\<close>

definition refuses :: "string \<Rightarrow> tables option \<Rightarrow> ('k, 'a) handler \<Rightarrow> bool" where
  "refuses i t m \<longleftrightarrow> (\<forall>a. runs_on i t a \<longrightarrow> (\<exists>e a'. m a = Returns (Err e, a') \<and> app_tables a' = t))"

definition reads :: "string \<Rightarrow> tables option \<Rightarrow> ('k, 'a) handler \<Rightarrow> bool" where
  "reads i t m \<longleftrightarrow> (\<forall>a. runs_on i t a \<longrightarrow> (\<exists>r a'. m a = Returns (r, a') \<and> runs_on i t a'))"

lemma refusesD: "refuses i t m \<Longrightarrow> runs_on i t a \<Longrightarrow> \<exists>e a'. m a = Returns (Err e, a') \<and> app_tables a' = t"
  by (simp add: refuses_def)

lemma refuses_bind:
  fixes m :: "('k, 'a) handler" and f :: "'a \<Rightarrow> ('k, 'b) handler"
  assumes "reads i t m" "\<And>v. refuses i t (f v)"
  shows "refuses i t (h_bind m f)"
  unfolding refuses_def
proof (intro allI impI)
  fix a :: "'k app"
  assume "runs_on i t a"
  then obtain r a' where r: "m a = Returns (r, a')" "runs_on i t a'" using assms(1) by (auto simp: reads_def)
  then show "\<exists>e a'. h_bind m f a = Returns (Err e, a') \<and> app_tables a' = t"
    using refusesD [OF assms(2) r(2)] by (cases r) (auto simp: h_bind_def runs_on_def)
qed

lemma refuses_now: "refuses i t m \<Longrightarrow> refuses i t (h_bind m f)"
  by (auto simp: refuses_def h_bind_def)

lemma refuses_fail: "refuses i t (h_fail e)" "refuses i t (ensure_flow_mutable q i)"
  by (auto simp: refuses_def h_fail_def ensure_flow_mutable_def flow_mutable_def runs_on_def)

lemma reads_pure: "reads i t (h_ret v)" "reads i t (h_lift r)" "reads i t require_store" "reads i t (h_if c e)"
  by (auto simp: reads_def h_ret_def h_lift_def require_store_def h_if_def h_fail_def)


text \<open>Reading the store uses up statements, but changes no table.\<close>

lemma query_tables: "ss_tables (snd (run_query env f st)) = ss_tables st"
proof (cases "ss_tables st")
  case (Some t)
  then show ?thesis by (cases "ss_faults st") (simp_all add: run_query_def statement_def split: bool.split)
qed (simp add: run_query_def)

lemma query_one_tables: "ss_tables (snd (query_one env f g st)) = ss_tables st"
proof -
  obtain r st' where r: "run_query env f st = (r, st')" by fastforce
  then have "ss_tables st' = ss_tables st" using query_tables [of env f st] by simp
  then show ?thesis by (simp add: query_one_def r split: sum.split option.split)
qed

lemma get_flow_tables: "ss_tables (snd (get_flow env i st)) = ss_tables st"
proof -
  obtain r st1 where r: "query_one env (\<lambda>t. select_key (SqlText i) (tb_flows t)) scan_flow st = (r, st1)" by fastforce
  then have one: "ss_tables st1 = ss_tables st"
    using query_one_tables [of env "\<lambda>t. select_key (SqlText i) (tb_flows t)" scan_flow st] by simp
  show ?thesis
  proof (cases r)
    case (Inl e)
    then show ?thesis using one by (simp add: get_flow_def r)
  next
    case (Inr f)
    obtain r2 st2 where r2: "list_operations env (f_id f) st1 = (r2, st2)" by fastforce
    then have "ss_tables st2 = ss_tables st1" using query_tables unfolding list_operations_def by (metis snd_conv)
    then show ?thesis using one by (simp add: get_flow_def r Inr r2 split: sum.split)
  qed
qed

lemma reads_load_flow:
  fixes q :: "'k host"
  shows "reads i t (load_flow q j)"
proof -
  have set: "app_tables (set_store e st' a) = ss_tables st'" "app_flow (set_store e st' a) = (app_flow a)\<lparr>fe_source :=
      map_option (\<lambda>_. flow_view (en_store e) st') (fe_source (app_flow a))\<rparr>" for e st' and a :: "'k app"
    by (simp_all add: app_tables_def set_store_def)
  show ?thesis
    unfolding reads_def
  proof (intro allI impI)
    fix a :: "'k app"
    assume a: "runs_on i t a"
    show "\<exists>r a'. load_flow q j a = Returns (r, a') \<and> runs_on i t a'"
    proof (cases "app_store a")
      case None
      then show ?thesis using a by (simp add: load_flow_def h_find_def h_call_def)
    next
      case (Some st)
      then have "app_tables a = ss_tables st" by (simp add: app_tables_def)
      then show ?thesis
        using a Some get_flow_tables [of "en_store (rq_env q)" j st]
        by (auto simp: load_flow_def h_find_def h_call_def runs_on_def set flow_is_running_def split: prod.split sum.split)
    qed
  qed
qed

lemma refuses_case: "refuses i t m \<Longrightarrow> (\<And>x. refuses i t (f x)) \<Longrightarrow> refuses i t (case z of None \<Rightarrow> m | Some x \<Rightarrow> f x)"
  by (simp split: option.split)

lemma refuses_known: "refuses i t (f v) \<Longrightarrow> refuses i t (h_bind (h_lift (Ok v)) f)"
  by (simp add: refuses_def)

lemma refuses_read:
  "(\<And>v. refuses i t (f v)) \<Longrightarrow> refuses i t (h_bind require_store f)"
  "(\<And>v. refuses i t (g v)) \<Longrightarrow> refuses i t (h_bind (h_lift r) g)"
  "(\<And>v. refuses i t (f v)) \<Longrightarrow> refuses i t (h_bind (h_if c e) f)"
  "(\<And>v. refuses i t (k v)) \<Longrightarrow> refuses i t (h_bind (load_flow q j) k)"
  by (auto intro: refuses_bind reads_pure reads_load_flow)

lemma refuses_busy: "refuses i t (h_bind (ensure_flow_mutable q i) f)"
  by (intro refuses_now refuses_fail)

lemma edits_refused:
  assumes "edited_flow q m p = Some i"
  shows "refuses i t (method_of q m p)"
proof -
  note ok = require_string_def
  consider (save) d f where "m = ''flows.save''" "p_dict p ''flow'' = Ok (Some d)" "parse_flow (rq_json q) d = Ok f" "i = f_id f"
    | (delete) "m = ''flows.delete''" "require_string p ''id'' = Ok i"
    | (operation) "m \<in> {''operations.create'', ''operations.update'', ''operations.delete'', ''operations.reorder''}"
        "require_string p ''flowID'' = Ok i"
    using assms by (auto simp: edited_flow_def split: if_splits sum.splits option.splits)
  then show ?thesis
  proof cases
    case save
    have "refuses i t (flows_save q p)"
      unfolding flows_save_def save(2)
      by (rule refuses_read, rule refuses_known, unfold option.case save(3), rule refuses_known, rule refuses_read)
        (use save(4) in \<open>simp add: refuses_busy\<close>)
    then show ?thesis using save(1) by (simp add: method_of_def answer_def refuses_now)
  next
    case delete
    have "refuses i t (flows_delete q p)"
      unfolding flows_delete_def delete(2) by (intro refuses_busy refuses_known refuses_read)
    then show ?thesis using delete(1) by (simp add: method_of_def answer_def refuses_now)
  next
    case operation
    have "refuses i t (operations_create q p)" "refuses i t (operations_update q p)"
      "refuses i t (operations_delete q p)" "refuses i t (operations_reorder q p)"
      unfolding operations_create_def operations_update_def operations_delete_def operations_reorder_def operation(2)
      by (intro refuses_busy refuses_known refuses_read refuses_case refuses_fail)+
    note r = this [THEN refuses_now]
    consider "m = ''operations.create''" | "m = ''operations.update''" | "m = ''operations.delete''" | "m = ''operations.reorder''"
      using operation(1) by blast
    then show ?thesis by cases (simp_all add: method_of_def answer_def r)
  qed
qed

text \<open>
  C3: a flow that is running is not edited. Every method that would change it or its operations
  answers an error and leaves the stored tables as they are, whatever statements of the store
  fail on the way.
\<close>

theorem running_flow_is_not_edited:
  assumes "params_new params = Ok p" "edited_flow q m p = Some i" "flow_is_running i (app_flow a)"
  shows "\<exists>e a'. handle q m params a = Returns (Err e, a') \<and> app_tables a' = app_tables a"
proof -
  have "\<exists>e a'. method_of q m p a = Returns (Err e, a') \<and> app_tables a' = app_tables a"
    using edits_refused [OF assms(2)] assms(3) by (auto simp: refuses_def runs_on_def)
  then show ?thesis using assms(1) by (auto simp: handle_def Let_def)
qed

theorem running_flow_is_not_edited_witness:
  "\<forall>q. let a = (app_wired demo_world)\<lparr>app_flow := flow_engine_new\<lparr>fe_runs := [(''f'', \<lparr>fr_cancelled = False, fr_status = ''running''\<rparr>)]\<rparr>\<rparr> in
     \<exists>e a'. handle q ''flows.delete'' (JObject [(''id'', JString ''f'')]) a = Returns (Err e, a') \<and> app_tables a' = app_tables a"
proof (intro allI)
  fix q :: "memory_store host"
  let ?a = "(app_wired demo_world)\<lparr>app_flow := flow_engine_new\<lparr>fe_runs := [(''f'', \<lparr>fr_cancelled = False, fr_status = ''running''\<rparr>)]\<rparr>\<rparr>"
  have p: "params_new (JObject [(''id'', JString ''f'')]) = Ok [(''id'', JString ''f'')]"
    by (simp add: params_new_def)
  have e: "edited_flow q ''flows.delete'' [(''id'', JString ''f'')] = Some ''f''" by code_simp
  have r: "flow_is_running ''f'' (app_flow ?a)" by (simp add: flow_is_running_def)
  show "let a = ?a in
     \<exists>e a'. handle q ''flows.delete'' (JObject [(''id'', JString ''f'')]) a = Returns (Err e, a') \<and> app_tables a' = app_tables a"
    using running_flow_is_not_edited [OF p e r] by (simp add: Let_def)
qed

end
