(* ===== verification/Framing.thy ===== *)
theory Framing
  imports Prelude
begin

text \<open>
  The reading side of \<open>crates/gn-drive-core/src/rpc/stdio.rs\<close>: \<open>ReaderLineSource\<close> cuts the bytes of
  its reader into lines of bounded length. A byte is a \<open>char\<close>; the reader is the list of its
  answers, after which it is at its end. The main result compares the incremental reader, with its
  scan position and its discard mode, with splitting the whole input at the newlines.
\<close>

section \<open>The line source\<close>

datatype line_read = Line string | TooLong | Eof

text \<open>An answer of \<open>read\<close>: bytes (none at the end of the input), \<open>EINTR\<close>, or another error.\<close>

datatype read_answer = Got string | Interrupted | ReadFailed

type_synonym line_source = "string \<times> read_answer list" \<comment> \<open>buffer, reads to come\<close>

definition newline :: char where "newline = CHR 0x0A"

definition MAX_REQUEST_BYTES :: nat where "MAX_REQUEST_BYTES = 2 ^ 20"

fun find_newline :: "string \<Rightarrow> nat option" where
  "find_newline [] = None"
| "find_newline (c # s) = (if c = newline then Some 0 else map_option Suc (find_newline s))"

text \<open>The buffer holds a whole line that ends before \<open>idx\<close>: cut it off.\<close>

definition cut_line :: "nat \<Rightarrow> bool \<Rightarrow> nat \<Rightarrow> string \<Rightarrow> line_read \<times> string" where
  "cut_line max_bytes discarding idx buf =
     (if discarding \<or> max_bytes < length (take idx buf) then TooLong else Line (take idx buf), drop (idx + 1) buf)"

fun next_line_loop :: "nat \<Rightarrow> bool \<Rightarrow> nat \<Rightarrow> string \<Rightarrow> read_answer list \<Rightarrow> line_read \<times> line_source" where
  "next_line_loop max_bytes discarding scanned buf [] =
     (case find_newline (drop scanned buf) of
        Some rel \<Rightarrow> (case cut_line max_bytes discarding (scanned + rel) buf of (r, rest) \<Rightarrow> (r, rest, []))
      | None \<Rightarrow> (Eof, if max_bytes < length buf then [] else buf, []))"
| "next_line_loop max_bytes discarding scanned buf (ans # reads) =
     (case find_newline (drop scanned buf) of
        Some rel \<Rightarrow> (case cut_line max_bytes discarding (scanned + rel) buf of (r, rest) \<Rightarrow> (r, rest, ans # reads))
      | None \<Rightarrow>
          (let over = max_bytes < length buf;
               buf1 = (if over then [] else buf)
           in case ans of
                Got bytes \<Rightarrow> if bytes = [] then (Eof, buf1, reads)
                  else next_line_loop max_bytes (discarding \<or> over) (length buf1) (buf1 @ bytes) reads
              | Interrupted \<Rightarrow> next_line_loop max_bytes (discarding \<or> over) (length buf1) buf1 reads
              | ReadFailed \<Rightarrow> (Eof, buf1, reads)))"

definition next_line :: "nat \<Rightarrow> line_source \<Rightarrow> line_read \<times> line_source" where
  "next_line max_bytes src = (case src of (buf, reads) \<Rightarrow> next_line_loop max_bytes False 0 buf reads)"

section \<open>What is read\<close>

text \<open>The bytes up to the end of the input or a failed read.\<close>

fun stream :: "read_answer list \<Rightarrow> string" where
  "stream [] = []"
| "stream (Got bytes # reads) = (if bytes = [] then [] else bytes @ stream reads)"
| "stream (Interrupted # reads) = stream reads"
| "stream (ReadFailed # reads) = []"

definition unread :: "line_source \<Rightarrow> string" where
  "unread src = fst src @ stream (snd src)"

definition line_of :: "nat \<Rightarrow> string \<Rightarrow> line_read" where
  "line_of max_bytes l = (if max_bytes < length l then TooLong else Line l)"

lemma find_newline_None: "find_newline s = None \<longleftrightarrow> newline \<notin> set s"
  by (induction s) auto

lemma find_newline_Some: "find_newline s = Some i \<Longrightarrow> \<exists>l rest. s = l @ newline # rest \<and> length l = i \<and> newline \<notin> set l"
proof (induction s arbitrary: i)
  case (Cons c s)
  show ?case
  proof (cases "c = newline")
    case True
    then show ?thesis using Cons.prems by (intro exI [of _ "[]"] exI [of _ s]) simp
  next
    case False
    then obtain j where j: "find_newline s = Some j" "i = Suc j" using Cons.prems by auto
    then obtain l rest where "s = l @ newline # rest" "length l = j" "newline \<notin> set l" using Cons.IH by blast
    then show ?thesis using False j by (intro exI [of _ "c # l"] exI [of _ rest]) auto
  qed
qed simp

text \<open>What a call answers when \<open>s\<close> is unread: the first line of \<open>s\<close>, or the end if there is none.\<close>

definition reads_first :: "nat \<Rightarrow> bool \<Rightarrow> string \<Rightarrow> line_read \<times> line_source \<Rightarrow> bool" where
  "reads_first max_bytes d s res \<longleftrightarrow>
     newline \<notin> set s \<and> fst res = Eof \<or>
     (\<exists>l. s = l @ newline # unread (snd res) \<and> newline \<notin> set l \<and>
       fst res = (if d then TooLong else line_of max_bytes l))"

lemma reads_first_end: "newline \<notin> set s \<Longrightarrow> reads_first max_bytes d s (Eof, src)"
  by (simp add: reads_first_def)

text \<open>A newline in the buffer, when none is in the scanned part.\<close>

lemma cut_line_first:
  assumes "find_newline (drop scanned buf) = Some rel" "newline \<notin> set (take scanned buf)" "scanned \<le> length buf"
  shows "reads_first max_bytes d (buf @ stream reads)
    (case cut_line max_bytes d (scanned + rel) buf of (r, rest) \<Rightarrow> (r, rest, reads))"
proof -
  obtain l rest where d: "drop scanned buf = l @ newline # rest" "length l = rel" "newline \<notin> set l"
    using find_newline_Some [OF assms(1)] by blast
  have b: "buf = (take scanned buf @ l) @ newline # rest" using append_take_drop_id [of scanned buf] d(1) by simp
  have len: "scanned + rel = length (take scanned buf @ l)" using d(2) assms(3) by simp
  have cut: "take (length p) (p @ newline # r) = p" "drop (length p + 1) (p @ newline # r) = r" for p r by simp_all
  have "take (scanned + rel) buf = take scanned buf @ l" "drop (scanned + rel + 1) buf = rest"
    using cut [of "take scanned buf @ l" rest] unfolding b [symmetric] len [symmetric] by simp_all
  then have "cut_line max_bytes d (scanned + rel) buf = (if d then TooLong else line_of max_bytes (take scanned buf @ l), rest)"
    by (simp add: cut_line_def line_of_def)
  moreover have "buf @ stream reads = (take scanned buf @ l) @ newline # unread (rest, reads)"
    by (subst b) (simp add: unread_def)
  ultimately show ?thesis using assms(2) d(3)
    by (auto simp: reads_first_def intro!: exI [of _ "take scanned buf @ l"])
qed

text \<open>Dropping an over-long start of a line.\<close>

lemma reads_first_drop:
  assumes "reads_first max_bytes True s res" "newline \<notin> set buf" "max_bytes < length buf"
  shows "reads_first max_bytes d (buf @ s) res"
  using assms(1) unfolding reads_first_def
proof (elim disjE exE conjE)
  fix l
  assume "s = l @ newline # unread (snd res)" "newline \<notin> set l" "fst res = (if True then TooLong else line_of max_bytes l)"
  then show "newline \<notin> set (buf @ s) \<and> fst res = Eof \<or>
    (\<exists>l. buf @ s = l @ newline # unread (snd res) \<and> newline \<notin> set l \<and>
       fst res = (if d then TooLong else line_of max_bytes l))"
    using assms(2,3) by (intro disjI2 exI [of _ "buf @ l"]) (simp add: line_of_def)
qed (use assms(2) in simp)

lemma reads_first_more:
  assumes "reads_first max_bytes (d \<or> max_bytes < length buf) ((if max_bytes < length buf then [] else buf) @ s) res"
    and "newline \<notin> set buf"
  shows "reads_first max_bytes d (buf @ s) res"
proof (cases "max_bytes < length buf")
  case True
  with assms(1) have "reads_first max_bytes True s res" by simp
  then show ?thesis using assms(2) True by (rule reads_first_drop)
qed (use assms(1) in simp)

lemma next_line_loop_first:
  assumes "newline \<notin> set (take scanned buf)" "scanned \<le> length buf"
  shows "reads_first max_bytes d (buf @ stream reads) (next_line_loop max_bytes d scanned buf reads)"
  using assms
proof (induction max_bytes d scanned buf reads rule: next_line_loop.induct)
  case (1 max_bytes d scanned buf)
  show ?case
  proof (cases "find_newline (drop scanned buf)")
    case None
    then have "newline \<notin> set (take scanned buf @ drop scanned buf)"
      using 1 by (simp add: find_newline_None del: append_take_drop_id)
    then show ?thesis using None by (simp add: reads_first_end)
  next
    case (Some rel)
    with cut_line_first [OF Some 1, of max_bytes d "[]"] show ?thesis by simp
  qed
next
  case (2 max_bytes d scanned buf ans reads)
  show ?case
  proof (cases "find_newline (drop scanned buf)")
    case (Some rel)
    with cut_line_first [OF Some 2(3,4), of max_bytes d "ans # reads"] show ?thesis by simp
  next
    case None
    have no: "newline \<notin> set buf"
      using None 2(3) append_take_drop_id [of scanned buf] by (metis UnE find_newline_None set_append)
    then have no1: "newline \<notin> set (if max_bytes < length buf then [] else buf)" by simp
    show ?thesis
    proof (cases ans)
      case (Got bytes)
      show ?thesis
      proof (cases "bytes = []")
        case True
        then show ?thesis using no by (simp add: None Got Let_def reads_first_end)
      next
        case False
        have "reads_first max_bytes (d \<or> max_bytes < length buf)
            (((if max_bytes < length buf then [] else buf) @ bytes) @ stream reads)
            (next_line_loop max_bytes (d \<or> max_bytes < length buf) (length (if max_bytes < length buf then [] else buf))
              ((if max_bytes < length buf then [] else buf) @ bytes) reads)"
          by (rule 2(1) [OF None refl refl Got False]) (use no1 in simp_all)
        from reads_first_more [OF this [unfolded append_assoc] no] show ?thesis
          using False by (simp add: None Got Let_def)
      qed
    next
      case Interrupted
      have "reads_first max_bytes (d \<or> max_bytes < length buf)
          ((if max_bytes < length buf then [] else buf) @ stream reads)
          (next_line_loop max_bytes (d \<or> max_bytes < length buf) (length (if max_bytes < length buf then [] else buf))
            (if max_bytes < length buf then [] else buf) reads)"
        by (rule 2(2) [OF None refl refl Interrupted]) (use no1 in simp_all)
      from reads_first_more [OF this no] show ?thesis
        by (simp add: None Interrupted Let_def)
    next
      case ReadFailed
      then show ?thesis using no by (simp add: None Let_def reads_first_end)
    qed
  qed
qed

lemma next_line_first: "reads_first max_bytes False (unread src) (next_line max_bytes src)"
  by (cases src) (auto simp: next_line_def unread_def intro!: next_line_loop_first)

section \<open>The loop of the reader\<close>

text \<open>The reads of \<open>run_on\<close>, up to the end of the input.\<close>

function read_all :: "nat \<Rightarrow> line_source \<Rightarrow> line_read list" where
  "read_all max_bytes src =
     (case next_line max_bytes src of (r, src') \<Rightarrow> if r = Eof then [Eof] else r # read_all max_bytes src')"
  by pat_completeness auto
termination
proof (relation "measure (\<lambda>(max_bytes, src). length (unread src))")
  fix max_bytes :: nat and src res :: line_source and r src'
  assume "(r, src') = next_line max_bytes src" "r \<noteq> Eof"
  then show "((max_bytes, src'), max_bytes, src) \<in> measure (\<lambda>(max_bytes, src). length (unread src))"
    using next_line_first [of max_bytes src] by (auto simp: reads_first_def dest!: sym [of "(r, src')"])
qed simp

declare read_all.simps [simp del]

text \<open>The specification: split the whole input, drop what follows the last newline.\<close>

definition lines_of :: "nat \<Rightarrow> string \<Rightarrow> line_read list" where
  "lines_of max_bytes s = map (line_of max_bytes) (butlast (split_on newline s)) @ [Eof]"

text \<open>
  C11: framing does not depend on how the bytes arrive. Whatever pieces the reader returns, with
  interrupted calls in between, the requests read are the lines of the whole input in order, each
  longer one replaced by a report, and an unfinished last line is not a request.
\<close>

theorem framing_is_chunk_free:
  "read_all max_bytes ([], reads) = lines_of max_bytes (stream reads)"
proof -
  have "read_all max_bytes src = lines_of max_bytes (unread src)" for src
  proof (induction max_bytes src rule: read_all.induct)
    case (1 max_bytes src)
    obtain r src' where n: "next_line max_bytes src = (r, src')" by (cases "next_line max_bytes src")
    consider "newline \<notin> set (unread src)" "r = Eof"
      | l where "unread src = l @ newline # unread src'" "newline \<notin> set l" "r = line_of max_bytes l"
      using next_line_first [of max_bytes src] by (auto simp: reads_first_def n)
    then show ?case
    proof cases
      case 1
      then show ?thesis by (simp add: read_all.simps n lines_of_def split_on_no_sep)
    next
      case (2 l)
      then have "r \<noteq> Eof" by (simp add: line_of_def)
      then show ?thesis
        using 2 "1.IH" [OF n [symmetric]] by (simp add: read_all.simps n lines_of_def split_on_append_sep)
    qed
  qed
  from this [of "([], reads)"] show ?thesis by (simp add: unread_def)
qed

end
