(* ===== verification/Transport.thy ===== *)
theory Transport
  imports Framing RpcJson
begin

text \<open>
  The rest of \<open>crates/gn-drive-core/src/rpc/stdio.rs\<close>: requests, the worker pool, the output queue
  with its writer, and the shutdown. The threads of \<open>RpcService\<close> are the reader, up to eight
  workers, the writer, the forwarder of events and the threads that call \<open>begin_shutdown\<close>; a run
  is a list of actions, each one critical section of a thread. What a handler answers (\<open>None\<close>
  where it panicked), whether a write succeeds and whether the wait for requests in flight times
  out are chosen by the action. \<open>sv_accepted\<close>, \<open>sv_counted\<close>, \<open>sv_rejected\<close>, \<open>sv_refused\<close> and
  \<open>sv_lost\<close> record what happened to requests; no step reads them.
\<close>

section \<open>Frames\<close>

datatype frame = Reply json "json rpc" | Push string int json

fun frame_json :: "frame \<Rightarrow> json" where
  "frame_json (Reply i (Inr v)) = JObject [(''id'', i), (''result'', v)]"
| "frame_json (Reply i (Inl e)) = JObject [(''id'', i),
     (''error'', JObject ([(''code'', JString (re_code e)), (''message'', JString (re_message e))] @
        (case re_data e of Some d \<Rightarrow> [(''data'', d)] | None \<Rightarrow> [])))]"
| "frame_json (Push name ts d) = JObject [(''event'', JString name), (''ts'', JInt ts), (''data'', d)]"

definition frame_text :: "rpc_env \<Rightarrow> frame \<Rightarrow> string" where
  "frame_text env f = rj_text env (frame_json f)"

section \<open>Requests\<close>

record job =
  jb_id :: json
  jb_method :: string
  jb_params :: json

fun is_valid_id :: "json \<Rightarrow> bool" where
  "is_valid_id (JString _) = True"
| "is_valid_id (JInt _) = True"
| "is_valid_id (JFloat _) = True"
| "is_valid_id _ = False"

definition invalid_request :: "string \<Rightarrow> rpc_error" where
  "invalid_request m = rpc_error_new ''invalid_request'' m"

text \<open>The job of a line, or the id and the error to answer.\<close>

definition parse_request :: "rpc_env \<Rightarrow> string \<Rightarrow> json \<times> rpc_error + job" where
  "parse_request env line =
     (case rj_parse env line of
        None \<Rightarrow> Inl (JNull, invalid_request ''request is not valid JSON'')
      | Some (JObject d) \<Rightarrow>
          (case map_of d ''id'' of
             None \<Rightarrow> Inl (JNull, invalid_request ''request id must be a number or string'')
           | Some i \<Rightarrow>
               if \<not> is_valid_id i then Inl (JNull, invalid_request ''request id must be a number or string'')
               else (case map_of d ''method'' of
                 Some (JString m) \<Rightarrow>
                   if m = [] then Inl (i, invalid_request ''missing required field: method'')
                   else (case map_of d ''params'' of
                     None \<Rightarrow> Inr \<lparr> jb_id = i, jb_method = m, jb_params = JObject [] \<rparr>
                   | Some JNull \<Rightarrow> Inr \<lparr> jb_id = i, jb_method = m, jb_params = JObject [] \<rparr>
                   | Some (JObject p) \<Rightarrow> Inr \<lparr> jb_id = i, jb_method = m, jb_params = JObject p \<rparr>
                   | Some _ \<Rightarrow> Inl (i, invalid_params ''params'' (Some ''params must be an object'')))
               | _ \<Rightarrow> Inl (i, invalid_request ''missing required field: method'')))
      | Some _ \<Rightarrow> Inl (JNull, invalid_request ''request must be a JSON object''))"

section \<open>The service\<close>

datatype reader = At_loop | Reading | Got_line string | Checked string | Sending job | Ended_reading
datatype worker = Handling job | Leaving job
datatype 'f writer = Waiting_for_frame | Writing 'f
datatype phase = Serving | Draining string | Drained string | Jobs_closed string | Shut_down string

record service =
  sv_queue :: "frame list"
  sv_pending :: nat
  sv_closed :: bool
  sv_writer :: "frame writer"
  sv_sink :: "frame list" \<comment> \<open>frames handed to the sink\<close>
  sv_stopping :: bool
  sv_did_shutdown :: bool
  sv_in_flight :: nat
  sv_jobs_open :: bool
  sv_jobs :: "job list"
  sv_reader :: reader
  sv_workers :: "worker list"
  sv_starting :: "string list" \<comment> \<open>threads about to call \<open>begin_shutdown\<close>\<close>
  sv_phase :: phase
  sv_accepted :: "job list" \<comment> \<open>jobs counted in flight\<close>
  sv_counted :: "job list" \<comment> \<open>those accepted before the wait ended in time\<close>
  sv_rejected :: "json list" \<comment> \<open>ids answered without a job\<close>
  sv_refused :: "json list" \<comment> \<open>ids of jobs that found the channel closed\<close>
  sv_lost :: "json list" \<comment> \<open>ids of answers that found the output closed\<close>

definition WORKER_SLOTS :: nat where "WORKER_SLOTS = 8"
definition DROPPABLE_LIMIT :: nat where "DROPPABLE_LIMIT = 512"

definition hello_frame :: "int \<Rightarrow> json \<Rightarrow> frame" where "hello_frame ts d = Push ''hello'' ts d"

text \<open>After \<open>start\<close>: \<open>hello\<close> is the first frame of the queue.\<close>

definition service_start :: "int \<Rightarrow> json \<Rightarrow> service" where
  "service_start ts hello = \<lparr> sv_queue = [hello_frame ts hello], sv_pending = 1, sv_closed = False,
     sv_writer = Waiting_for_frame, sv_sink = [], sv_stopping = False, sv_did_shutdown = False, sv_in_flight = 0,
     sv_jobs_open = True, sv_jobs = [], sv_reader = At_loop, sv_workers = [], sv_starting = [], sv_phase = Serving,
     sv_accepted = [], sv_counted = [], sv_rejected = [], sv_refused = [], sv_lost = [] \<rparr>"

definition enqueue :: "frame \<Rightarrow> bool \<Rightarrow> service \<Rightarrow> service" where
  "enqueue f droppable s =
     (if sv_closed s \<or> droppable \<and> DROPPABLE_LIMIT < sv_pending s then s
      else s\<lparr>sv_pending := sv_pending s + 1, sv_queue := sv_queue s @ [f]\<rparr>)"

definition enqueue_final :: "frame \<Rightarrow> service \<Rightarrow> service" where
  "enqueue_final f s = s\<lparr>sv_closed := True, sv_pending := sv_pending s + 1, sv_queue := sv_queue s @ [f]\<rparr>"

definition send_reply :: "json \<Rightarrow> json rpc \<Rightarrow> service \<Rightarrow> service" where
  "send_reply i r s =
     (let s1 = enqueue (Reply i r) False s in if sv_closed s then s1\<lparr>sv_lost := sv_lost s1 @ [i]\<rparr> else s1)"

definition send_error :: "json \<Rightarrow> rpc_error \<Rightarrow> service \<Rightarrow> service" where
  "send_error i e s = (let s1 = send_reply i (Err e) s in s1\<lparr>sv_rejected := sv_rejected s1 @ [i]\<rparr>)"

subsection \<open>The reader\<close>

text \<open>\<open>run_on\<close>: \<open>begin_shutdown\<close> after the end of the input runs in the reader's thread.\<close>

definition check_stopping :: "service \<Rightarrow> service option" where
  "check_stopping s =
     (if sv_reader s \<noteq> At_loop then None
      else Some (s\<lparr>sv_reader := (if sv_stopping s then Ended_reading else Reading)\<rparr>))"

definition read_line :: "line_read \<Rightarrow> service \<Rightarrow> service option" where
  "read_line l s =
     (if sv_reader s \<noteq> Reading then None
      else case l of
        Eof \<Rightarrow> Some (s\<lparr>sv_reader := Ended_reading, sv_starting := sv_starting s @ [''eof'']\<rparr>)
      | TooLong \<Rightarrow> Some ((send_error JNull (invalid_request ''request exceeds 1 MiB'') s)\<lparr>sv_reader := At_loop\<rparr>)
      | Line line \<Rightarrow> Some (s\<lparr>sv_reader := Got_line line\<rparr>))"

text \<open>\<open>handle_line\<close>, in the sections between which other threads run.\<close>

definition handle_line :: "rpc_env \<Rightarrow> service \<Rightarrow> service option" where
  "handle_line env s =
     (case sv_reader s of
        Got_line line \<Rightarrow> Some (s\<lparr>sv_reader := (if sv_stopping s then At_loop else Checked line)\<rparr>)
      | Checked line \<Rightarrow>
          Some (case parse_request env line of
            Inl (i, e) \<Rightarrow> (send_error i e s)\<lparr>sv_reader := At_loop\<rparr>
          | Inr j \<Rightarrow> s\<lparr>sv_in_flight := sv_in_flight s + 1, sv_accepted := sv_accepted s @ [j], sv_reader := Sending j\<rparr>)
      | Sending j \<Rightarrow>
          Some (if sv_jobs_open s then s\<lparr>sv_jobs := sv_jobs s @ [j], sv_reader := At_loop\<rparr>
                else s\<lparr>sv_in_flight := sv_in_flight s - 1, sv_refused := sv_refused s @ [jb_id j], sv_reader := At_loop\<rparr>)
      | _ \<Rightarrow> None)"

subsection \<open>The workers\<close>

definition take_job :: "service \<Rightarrow> service option" where
  "take_job s =
     (case sv_jobs s of
        [] \<Rightarrow> None
      | j # js \<Rightarrow> if length (sv_workers s) < WORKER_SLOTS
                  then Some (s\<lparr>sv_jobs := js, sv_workers := sv_workers s @ [Handling j]\<rparr>) else None)"

definition job_result :: "json rpc option \<Rightarrow> json rpc" where
  "job_result r = (case r of Some x \<Rightarrow> x
     | None \<Rightarrow> Err (rpc_error_new ''internal_error'' ''request handler panicked''))"

text \<open>\<open>run_job\<close>: the answer is queued and \<open>app.quit\<close> starts the shutdown; then the job leaves.\<close>

definition run_job :: "nat \<Rightarrow> json rpc option \<Rightarrow> service \<Rightarrow> service option" where
  "run_job w r s =
     (if w < length (sv_workers s)
      then (case sv_workers s ! w of
              Handling j \<Rightarrow>
                (let s1 = send_reply (jb_id j) (job_result r) s
                 in Some (s1\<lparr>sv_workers := (sv_workers s1)[w := Leaving j],
                      sv_starting := (if jb_method j = ''app.quit'' then sv_starting s1 @ [''request''] else sv_starting s1)\<rparr>))
            | Leaving j \<Rightarrow> None)
      else None)"

definition leave :: "nat \<Rightarrow> service \<Rightarrow> service option" where
  "leave w s =
     (if w < length (sv_workers s)
      then (case sv_workers s ! w of
              Leaving j \<Rightarrow> Some (s\<lparr>sv_workers := take w (sv_workers s) @ drop (Suc w) (sv_workers s),
                                sv_in_flight := sv_in_flight s - 1\<rparr>)
            | Handling j \<Rightarrow> None)
      else None)"

subsection \<open>Output\<close>

definition forward_event :: "string \<Rightarrow> int \<Rightarrow> json \<Rightarrow> service \<Rightarrow> service option" where
  "forward_event name ts d s = Some (enqueue (Push name ts d) (name = ''log:line'') s)"

text \<open>The writer: a frame is taken, written, and counted off; a failed write starts the shutdown.\<close>

definition pop_frame :: "service \<Rightarrow> service option" where
  "pop_frame s =
     (case (sv_writer s, sv_queue s) of
        (Waiting_for_frame, f # fs) \<Rightarrow> Some (s\<lparr>sv_queue := fs, sv_writer := Writing f\<rparr>)
      | _ \<Rightarrow> None)"

definition write_frame :: "bool \<Rightarrow> service \<Rightarrow> service option" where
  "write_frame written s =
     (case sv_writer s of
        Writing f \<Rightarrow> Some (s\<lparr>sv_writer := Waiting_for_frame, sv_sink := sv_sink s @ [f], sv_pending := sv_pending s - 1,
          sv_starting := (if written then sv_starting s else sv_starting s @ [''eof''])\<rparr>)
      | Waiting_for_frame \<Rightarrow> None)"

subsection \<open>Shutdown\<close>

text \<open>\<open>begin_shutdown\<close> by the thread \<open>k\<close>; only the first goes on.\<close>

definition begin_shutdown :: "nat \<Rightarrow> service \<Rightarrow> service option" where
  "begin_shutdown k s =
     (if k < length (sv_starting s)
      then (let s1 = s\<lparr>sv_starting := take k (sv_starting s) @ drop (Suc k) (sv_starting s)\<rparr>
            in Some (if sv_did_shutdown s then s1
                     else s1\<lparr>sv_did_shutdown := True, sv_stopping := True, sv_phase := Draining (sv_starting s ! k)\<rparr>))
      else None)"

definition end_wait :: "bool \<Rightarrow> service \<Rightarrow> service option" where
  "end_wait timed_out s =
     (case sv_phase s of
        Draining reason \<Rightarrow>
          if timed_out then Some (s\<lparr>sv_phase := Drained reason\<rparr>)
          else if sv_in_flight s = 0 then Some (s\<lparr>sv_phase := Drained reason, sv_counted := sv_accepted s\<rparr>)
          else None
      | _ \<Rightarrow> None)"

definition close_jobs :: "service \<Rightarrow> service option" where
  "close_jobs s =
     (case sv_phase s of
        Drained reason \<Rightarrow> Some (s\<lparr>sv_phase := Jobs_closed reason, sv_jobs_open := False\<rparr>)
      | _ \<Rightarrow> None)"

definition shutdown_frame :: "int \<Rightarrow> string \<Rightarrow> frame" where
  "shutdown_frame ts reason = Push ''app:shutdown'' ts (JObject [(''reason'', JString reason)])"

definition send_final :: "int \<Rightarrow> service \<Rightarrow> service option" where
  "send_final ts s =
     (case sv_phase s of
        Jobs_closed reason \<Rightarrow> Some (enqueue_final (shutdown_frame ts reason) s\<lparr>sv_phase := Shut_down reason\<rparr>)
      | _ \<Rightarrow> None)"

section \<open>Runs\<close>

datatype action = Check_stopping | Read_line line_read | Handle_line | Take_job | Run_job nat "json rpc option" | Leave nat
  | Forward_event string int json | Pop_frame | Write_frame bool
  | Request_shutdown string | Begin_shutdown nat | End_wait bool | Close_jobs | Send_final int

fun service_step :: "rpc_env \<Rightarrow> action \<Rightarrow> service \<Rightarrow> service option" where
  "service_step env Check_stopping s = check_stopping s"
| "service_step env (Read_line l) s = read_line l s"
| "service_step env Handle_line s = handle_line env s"
| "service_step env Take_job s = take_job s"
| "service_step env (Run_job w r) s = run_job w r s"
| "service_step env (Leave w) s = leave w s"
| "service_step env (Forward_event name ts d) s = forward_event name ts d s"
| "service_step env Pop_frame s = pop_frame s"
| "service_step env (Write_frame b) s = write_frame b s"
| "service_step env (Request_shutdown reason) s = Some (s\<lparr>sv_starting := sv_starting s @ [reason]\<rparr>)"
| "service_step env (Begin_shutdown k) s = begin_shutdown k s"
| "service_step env (End_wait b) s = end_wait b s"
| "service_step env Close_jobs s = close_jobs s"
| "service_step env (Send_final ts) s = send_final ts s"

fun service_run :: "rpc_env \<Rightarrow> action list \<Rightarrow> service \<Rightarrow> service option" where
  "service_run env [] s = Some s"
| "service_run env (a # as) s = Option.bind (service_step env a s) (service_run env as)"

section \<open>What every run keeps\<close>

definition writing :: "service \<Rightarrow> frame list" where
  "writing s = (case sv_writer s of Writing f \<Rightarrow> [f] | Waiting_for_frame \<Rightarrow> [])"

definition sent_frames :: "service \<Rightarrow> frame list" where
  "sent_frames s = sv_sink s @ writing s @ sv_queue s"

definition reader_jobs :: "service \<Rightarrow> job list" where
  "reader_jobs s = (case sv_reader s of Sending j \<Rightarrow> [j] | _ \<Rightarrow> [])"

fun handled :: "worker \<Rightarrow> job list" where
  "handled (Handling j) = [j]"
| "handled (Leaving j) = []"

definition unanswered :: "service \<Rightarrow> json multiset" where
  "unanswered s = image_mset jb_id (mset (reader_jobs s) + mset (sv_jobs s) + mset (concat (map handled (sv_workers s))))"

fun reply_id :: "frame \<Rightarrow> json list" where
  "reply_id (Reply i r) = [i]"
| "reply_id (Push name ts d) = []"

definition answered :: "service \<Rightarrow> json multiset" where
  "answered s = mset (concat (map reply_id (sent_frames s)))"

text \<open>The books: every id that came in is answered, waiting, refused or lost, as often as it came.\<close>

definition books_ok :: "service \<Rightarrow> bool" where
  "books_ok s \<longleftrightarrow>
     image_mset jb_id (mset (sv_accepted s)) + mset (sv_rejected s) =
       answered s + unanswered s + mset (sv_refused s) + mset (sv_lost s)"

definition counts_ok :: "service \<Rightarrow> bool" where
  "counts_ok s \<longleftrightarrow> sv_pending s = length (writing s) + length (sv_queue s) \<and>
     sv_in_flight s = length (reader_jobs s) + length (sv_jobs s) + length (sv_workers s)"

fun is_shut_down :: "phase \<Rightarrow> bool" where
  "is_shut_down (Shut_down r) = True"
| "is_shut_down _ = False"

fun jobs_closed :: "phase \<Rightarrow> bool" where
  "jobs_closed (Jobs_closed r) = True"
| "jobs_closed (Shut_down r) = True"
| "jobs_closed _ = False"

definition phase_ok :: "service \<Rightarrow> bool" where
  "phase_ok s \<longleftrightarrow> sv_closed s = is_shut_down (sv_phase s) \<and> sv_jobs_open s = (\<not> jobs_closed (sv_phase s)) \<and>
     (\<not> sv_closed s \<longrightarrow> sv_lost s = []) \<and> (sv_jobs_open s \<longrightarrow> sv_refused s = []) \<and>
     sv_did_shutdown s = (sv_phase s \<noteq> Serving) \<and> sv_stopping s = sv_did_shutdown s"

fun is_final :: "frame \<Rightarrow> bool" where
  "is_final (Push name ts d) = (name = ''app:shutdown'')"
| "is_final (Reply i r) = False"

definition output_ok :: "frame \<Rightarrow> service \<Rightarrow> bool" where
  "output_ok hello s \<longleftrightarrow> sent_frames s \<noteq> [] \<and> hd (sent_frames s) = hello \<and> (sv_closed s \<longrightarrow> is_final (last (sent_frames s)))"

definition counted_ok :: "service \<Rightarrow> bool" where
  "counted_ok s \<longleftrightarrow> image_mset jb_id (mset (sv_counted s)) \<subseteq># answered s"

definition service_ok :: "frame \<Rightarrow> service \<Rightarrow> bool" where
  "service_ok hello s \<longleftrightarrow> books_ok s \<and> counts_ok s \<and> phase_ok s \<and> output_ok hello s \<and> counted_ok s"

lemmas service_ok_defs = books_ok_def counts_ok_def phase_ok_def output_ok_def counted_ok_def

lemma service_ok_start: "service_ok (hello_frame ts d) (service_start ts d)"
  by (simp add: service_ok_def service_ok_defs service_start_def sent_frames_def writing_def answered_def unanswered_def
      reader_jobs_def hello_frame_def)

text \<open>What queueing a frame changes.\<close>

lemma enqueue_fields [simp]:
  "sv_closed (enqueue f d s) = sv_closed s" "sv_writer (enqueue f d s) = sv_writer s" "sv_sink (enqueue f d s) = sv_sink s"
  "sv_stopping (enqueue f d s) = sv_stopping s" "sv_did_shutdown (enqueue f d s) = sv_did_shutdown s"
  "sv_in_flight (enqueue f d s) = sv_in_flight s" "sv_jobs_open (enqueue f d s) = sv_jobs_open s"
  "sv_jobs (enqueue f d s) = sv_jobs s" "sv_reader (enqueue f d s) = sv_reader s" "sv_workers (enqueue f d s) = sv_workers s"
  "sv_starting (enqueue f d s) = sv_starting s" "sv_phase (enqueue f d s) = sv_phase s"
  "sv_accepted (enqueue f d s) = sv_accepted s" "sv_counted (enqueue f d s) = sv_counted s"
  "sv_rejected (enqueue f d s) = sv_rejected s" "sv_refused (enqueue f d s) = sv_refused s" "sv_lost (enqueue f d s) = sv_lost s"
  by (simp_all add: enqueue_def)

lemma enqueue_queue:
  "sv_queue (enqueue f False s) = (if sv_closed s then sv_queue s else sv_queue s @ [f])"
  "sv_pending (enqueue f False s) = (if sv_closed s then sv_pending s else sv_pending s + 1)"
  by (simp_all add: enqueue_def)

lemma enqueue_books [simp]:
  "answered (enqueue (Push name ts d) b s) = answered s"
  "answered (enqueue (Reply i r) False s) = (if sv_closed s then answered s else add_mset i (answered s))"
  "unanswered (enqueue f b s) = unanswered s" "reader_jobs (enqueue f b s) = reader_jobs s"
  "writing (enqueue f b s) = writing s"
  by (simp_all add: answered_def unanswered_def sent_frames_def enqueue_def reader_jobs_def writing_def)

lemma sent_frames_enqueue: "\<exists>fs. sent_frames (enqueue f b s) = sent_frames s @ fs \<and> (sv_closed s \<longrightarrow> fs = [])"
  by (auto simp: enqueue_def sent_frames_def writing_def)

lemma output_ok_enqueue: "output_ok hello s \<Longrightarrow> output_ok hello (enqueue f b s)"
  using sent_frames_enqueue [of f b s] by (auto simp: output_ok_def)

lemma counts_ok_enqueue: "counts_ok s \<Longrightarrow> counts_ok (enqueue f b s)"
  by (auto simp: counts_ok_def enqueue_def writing_def reader_jobs_def)

text \<open>Fields outside the output, as far as the output conditions go.\<close>

lemma sent_frames_cong [simp]:
  "sent_frames (s\<lparr>sv_stopping := a\<rparr>) = sent_frames s" "sent_frames (s\<lparr>sv_did_shutdown := a\<rparr>) = sent_frames s"
  "sent_frames (s\<lparr>sv_in_flight := n\<rparr>) = sent_frames s" "sent_frames (s\<lparr>sv_jobs_open := a\<rparr>) = sent_frames s"
  "sent_frames (s\<lparr>sv_jobs := js\<rparr>) = sent_frames s" "sent_frames (s\<lparr>sv_reader := rd\<rparr>) = sent_frames s"
  "sent_frames (s\<lparr>sv_workers := ws\<rparr>) = sent_frames s" "sent_frames (s\<lparr>sv_starting := st\<rparr>) = sent_frames s"
  "sent_frames (s\<lparr>sv_phase := ph\<rparr>) = sent_frames s" "sent_frames (s\<lparr>sv_accepted := js\<rparr>) = sent_frames s"
  "sent_frames (s\<lparr>sv_counted := js\<rparr>) = sent_frames s" "sent_frames (s\<lparr>sv_rejected := is'\<rparr>) = sent_frames s"
  "sent_frames (s\<lparr>sv_refused := is'\<rparr>) = sent_frames s" "sent_frames (s\<lparr>sv_lost := is'\<rparr>) = sent_frames s"
  by (simp_all add: sent_frames_def writing_def)

lemma answered_cong [simp]:
  "answered (s\<lparr>sv_stopping := a\<rparr>) = answered s" "answered (s\<lparr>sv_did_shutdown := a\<rparr>) = answered s"
  "answered (s\<lparr>sv_in_flight := n\<rparr>) = answered s" "answered (s\<lparr>sv_jobs_open := a\<rparr>) = answered s"
  "answered (s\<lparr>sv_jobs := js\<rparr>) = answered s" "answered (s\<lparr>sv_reader := rd\<rparr>) = answered s"
  "answered (s\<lparr>sv_workers := ws\<rparr>) = answered s" "answered (s\<lparr>sv_starting := st\<rparr>) = answered s"
  "answered (s\<lparr>sv_phase := ph\<rparr>) = answered s" "answered (s\<lparr>sv_accepted := js\<rparr>) = answered s"
  "answered (s\<lparr>sv_counted := js\<rparr>) = answered s" "answered (s\<lparr>sv_rejected := is'\<rparr>) = answered s"
  "answered (s\<lparr>sv_refused := is'\<rparr>) = answered s" "answered (s\<lparr>sv_lost := is'\<rparr>) = answered s"
  by (simp_all add: answered_def)

lemmas service_simps = service_ok_def service_ok_defs unanswered_def reader_jobs_def writing_def

lemma check_stopping_ok: "check_stopping s = Some s' \<Longrightarrow> service_ok hello s \<Longrightarrow> service_ok hello s'"
  by (auto simp: check_stopping_def service_simps split: if_splits)

lemma send_error_ok:
  assumes "service_ok hello s" "reader_jobs s = []" "\<And>j. r \<noteq> Sending j"
  shows "service_ok hello ((send_error i e s)\<lparr>sv_reader := r\<rparr>)"
proof -
  let ?s = "enqueue (Reply i (Err e)) False s"
  have out: "output_ok hello ?s" "counts_ok ?s"
    using assms(1) by (simp_all add: service_ok_def output_ok_enqueue counts_ok_enqueue)
  have rj: "reader_jobs (t\<lparr>sv_reader := r\<rparr>) = []" for t
    using assms(3) by (simp add: reader_jobs_def split: reader.split)
  show ?thesis
    using assms(1,2) out rj
    by (auto simp: send_error_def send_reply_def Let_def service_ok_def service_ok_defs unanswered_def writing_def
        intro: subset_mset.order_trans)
qed

lemma starting_ok [simp]: "service_ok hello (s\<lparr>sv_starting := st\<rparr>) = service_ok hello s"
  by (simp add: service_simps)

lemma reader_ok:
  assumes "service_ok hello s" "reader_jobs s = []" "\<And>j. r \<noteq> Sending j"
  shows "service_ok hello (s\<lparr>sv_reader := r\<rparr>)" "service_ok hello (s\<lparr>sv_reader := r, sv_starting := st\<rparr>)"
proof -
  have "reader_jobs (s\<lparr>sv_reader := r\<rparr>) = []" using assms(3) by (simp add: reader_jobs_def split: reader.split)
  then show "service_ok hello (s\<lparr>sv_reader := r\<rparr>)"
    using assms(1,2) by (simp add: service_ok_def service_ok_defs unanswered_def writing_def)
  then show "service_ok hello (s\<lparr>sv_reader := r, sv_starting := st\<rparr>)"
    by (subst (asm) starting_ok [symmetric, where st = st]) simp
qed

lemma read_line_ok: "read_line l s = Some s' \<Longrightarrow> service_ok hello s \<Longrightarrow> service_ok hello s'"
proof (cases l)
  case TooLong
  assume "read_line l s = Some s'" "service_ok hello s"
  with TooLong send_error_ok [of hello s At_loop] show ?thesis by (auto simp: read_line_def reader_jobs_def split: if_splits)
qed (auto simp: read_line_def split: if_splits intro!: reader_ok simp: reader_jobs_def)

lemma handle_line_ok:
  assumes "handle_line env s = Some s'" "service_ok hello s"
  shows "service_ok hello s'"
proof (cases "sv_reader s")
  case (Got_line line)
  then have "service_ok hello (s\<lparr>sv_reader := r\<rparr>)" if "\<And>j. r \<noteq> Sending j" for r
    using assms(2) that by (intro reader_ok) (simp_all add: reader_jobs_def)
  then show ?thesis using Got_line assms by (auto simp: handle_line_def split: if_splits)
next
  case (Checked line)
  show ?thesis
  proof (cases "parse_request env line")
    case (Inl e)
    then show ?thesis using Checked assms by (cases e) (auto simp: handle_line_def reader_jobs_def intro!: send_error_ok)
  next
    case (Inr j)
    with Checked assms(1) have s': "s' = s\<lparr>sv_in_flight := sv_in_flight s + 1, sv_accepted := sv_accepted s @ [j], sv_reader := Sending j\<rparr>"
      by (simp add: handle_line_def)
    show ?thesis using assms(2) Checked unfolding s' by (simp add: service_simps)
  qed
next
  case (Sending j)
  show ?thesis
  proof (cases "sv_jobs_open s")
    case True
    with Sending assms(1) have s': "s' = s\<lparr>sv_jobs := sv_jobs s @ [j], sv_reader := At_loop\<rparr>" by (simp add: handle_line_def)
    show ?thesis using assms(2) Sending unfolding s' by (simp add: service_simps)
  next
    case False
    with Sending assms(1) have s': "s' = s\<lparr>sv_in_flight := sv_in_flight s - 1, sv_refused := sv_refused s @ [jb_id j], sv_reader := At_loop\<rparr>"
      by (simp add: handle_line_def)
    show ?thesis using assms(2) Sending False unfolding s' by (simp add: service_simps)
  qed
qed (use assms in \<open>simp_all add: handle_line_def\<close>)

lemma take_job_ok: "take_job s = Some s' \<Longrightarrow> service_ok hello s \<Longrightarrow> service_ok hello s'"
proof (cases "sv_jobs s")
  case (Cons j js)
  assume "take_job s = Some s'" and ok: "service_ok hello s"
  then have s': "s' = s\<lparr>sv_jobs := js, sv_workers := sv_workers s @ [Handling j]\<rparr>"
    using Cons by (simp add: take_job_def split: if_splits)
  show ?thesis using ok Cons unfolding s' by (simp add: service_simps)
qed (simp add: take_job_def)

text \<open>One worker among the others.\<close>

lemma worker_split:
  assumes "w < length ws"
  obtains as bs where "ws = as @ ws ! w # bs" "\<And>x. ws[w := x] = as @ x # bs" "take w ws @ drop (Suc w) ws = as @ bs"
proof
  show "ws = take w ws @ ws ! w # drop (Suc w) ws" by (rule id_take_nth_drop [OF assms])
  show "ws[w := x] = take w ws @ x # drop (Suc w) ws" for x by (rule upd_conv_take_nth_drop [OF assms])
qed simp

lemma unanswered_workers:
  assumes "w < length (sv_workers s)"
  shows "unanswered s = image_mset jb_id (mset (handled (sv_workers s ! w))) +
      unanswered (s\<lparr>sv_workers := take w (sv_workers s) @ drop (Suc w) (sv_workers s)\<rparr>)"
    "unanswered (s\<lparr>sv_workers := (sv_workers s)[w := x]\<rparr>) = image_mset jb_id (mset (handled x)) +
      unanswered (s\<lparr>sv_workers := take w (sv_workers s) @ drop (Suc w) (sv_workers s)\<rparr>)"
proof -
  obtain as bs where ws: "sv_workers s = as @ sv_workers s ! w # bs" "\<And>x. (sv_workers s)[w := x] = as @ x # bs"
    "take w (sv_workers s) @ drop (Suc w) (sv_workers s) = as @ bs"
    using worker_split [OF assms] by metis
  have "mset (concat (map handled (sv_workers s))) = mset (handled (sv_workers s ! w)) + mset (concat (map handled (as @ bs)))"
    by (subst ws(1)) simp
  then show "unanswered s = image_mset jb_id (mset (handled (sv_workers s ! w))) +
      unanswered (s\<lparr>sv_workers := take w (sv_workers s) @ drop (Suc w) (sv_workers s)\<rparr>)"
    unfolding ws(3) by (simp add: unanswered_def reader_jobs_def)
  show "unanswered (s\<lparr>sv_workers := (sv_workers s)[w := x]\<rparr>) = image_mset jb_id (mset (handled x)) +
      unanswered (s\<lparr>sv_workers := take w (sv_workers s) @ drop (Suc w) (sv_workers s)\<rparr>)"
    unfolding ws(2,3) by (simp add: unanswered_def reader_jobs_def)
qed

lemma send_reply_fields [simp]:
  "sv_workers (send_reply i r s) = sv_workers s" "sv_phase (send_reply i r s) = sv_phase s"
  "sv_closed (send_reply i r s) = sv_closed s" "sv_jobs_open (send_reply i r s) = sv_jobs_open s"
  "sv_refused (send_reply i r s) = sv_refused s" "sv_did_shutdown (send_reply i r s) = sv_did_shutdown s"
  "sv_stopping (send_reply i r s) = sv_stopping s" "sv_accepted (send_reply i r s) = sv_accepted s"
  "sv_rejected (send_reply i r s) = sv_rejected s" "sv_counted (send_reply i r s) = sv_counted s"
  "sv_lost (send_reply i r s) = (if sv_closed s then sv_lost s @ [i] else sv_lost s)"
  "output_ok hello s \<Longrightarrow> output_ok hello (send_reply i r s)" "counts_ok s \<Longrightarrow> counts_ok (send_reply i r s)"
  using output_ok_enqueue [of hello s "Reply i r" False] counts_ok_enqueue [of s "Reply i r" False]
  by (auto simp: send_reply_def Let_def output_ok_def counts_ok_def writing_def reader_jobs_def unanswered_def enqueue_def)

lemma send_reply_books [simp]:
  "answered (send_reply i r s) = (if sv_closed s then answered s else add_mset i (answered s))"
  "unanswered ((send_reply i r s)\<lparr>sv_workers := ws\<rparr>) = unanswered (s\<lparr>sv_workers := ws\<rparr>)"
  by (simp_all add: send_reply_def Let_def unanswered_def reader_jobs_def)

lemma workers_cong:
  "output_ok hello (s\<lparr>sv_workers := ws\<rparr>) = output_ok hello s"
  "length ws = length (sv_workers s) \<Longrightarrow> counts_ok (s\<lparr>sv_workers := ws\<rparr>) = counts_ok s"
  "phase_ok (s\<lparr>sv_workers := ws\<rparr>) = phase_ok s" "counted_ok (s\<lparr>sv_workers := ws\<rparr>) = counted_ok s"
  by (simp_all add: output_ok_def counts_ok_def phase_ok_def counted_ok_def writing_def reader_jobs_def)

lemma run_job_ok:
  assumes "run_job w r s = Some s'" "service_ok hello s"
  shows "service_ok hello s'"
proof -
  obtain j where w: "w < length (sv_workers s)" "sv_workers s ! w = Handling j"
    using assms(1) by (auto simp: run_job_def split: if_splits worker.splits)
  define s1 where "s1 = (send_reply (jb_id j) (job_result r) s)\<lparr>sv_workers := (sv_workers s)[w := Leaving j]\<rparr>"
  obtain st where s': "s' = s1\<lparr>sv_starting := st\<rparr>" using assms(1) w by (auto simp: run_job_def Let_def s1_def)
  have "books_ok s1"
    using assms(2) unanswered_workers [OF w(1)] w(2)
    by (simp add: service_ok_def books_ok_def s1_def)
  moreover have "counted_ok s1"
    using assms(2) unfolding service_ok_def
    by (auto simp: s1_def workers_cong counted_ok_def intro: subset_mset.order_trans)
  moreover have "phase_ok s1"
    using assms(2) by (simp add: service_ok_def s1_def phase_ok_def)
  ultimately have "service_ok hello s1" using assms(2) by (simp add: service_ok_def s1_def workers_cong)
  then show ?thesis by (simp add: s')
qed

lemma leave_ok:
  assumes "leave w s = Some s'" "service_ok hello s"
  shows "service_ok hello s'"
proof -
  obtain j where w: "w < length (sv_workers s)" "sv_workers s ! w = Leaving j"
    using assms(1) by (auto simp: leave_def split: if_splits worker.splits)
  then have s': "s' = s\<lparr>sv_workers := take w (sv_workers s) @ drop (Suc w) (sv_workers s), sv_in_flight := sv_in_flight s - 1\<rparr>"
    using assms(1) by (simp add: leave_def)
  have len: "length (take w (sv_workers s) @ drop (Suc w) (sv_workers s)) = length (sv_workers s) - 1" "0 < length (sv_workers s)"
    using w(1) by auto
  have "unanswered (s\<lparr>sv_workers := take w (sv_workers s) @ drop (Suc w) (sv_workers s)\<rparr>) = unanswered s"
    using unanswered_workers(1) [OF w(1)] w(2) by simp
  then have "books_ok s'" using assms(2) by (simp add: s' service_ok_def books_ok_def unanswered_def reader_jobs_def)
  moreover have "counts_ok s'"
    using assms(2) Nat.add_diff_assoc [OF Suc_leI [OF len(2)]]
    by (simp add: s' service_ok_def counts_ok_def writing_def reader_jobs_def len(1) del: length_append length_greater_0_conv)
  ultimately show ?thesis using assms(2) by (simp add: s' service_ok_def output_ok_def phase_ok_def counted_ok_def)
qed

lemma forward_event_ok: "forward_event name ts d s = Some s' \<Longrightarrow> service_ok hello s \<Longrightarrow> service_ok hello s'"
  by (auto simp: forward_event_def service_ok_def output_ok_enqueue counts_ok_enqueue books_ok_def counted_ok_def phase_ok_def)

lemma pop_frame_ok:
  assumes "pop_frame s = Some s'" "service_ok hello s"
  shows "service_ok hello s'"
proof -
  obtain f fs where q: "sv_writer s = Waiting_for_frame" "sv_queue s = f # fs"
    using assms(1) by (auto simp: pop_frame_def split: writer.splits list.splits)
  then have s': "s' = s\<lparr>sv_queue := fs, sv_writer := Writing f\<rparr>" using assms(1) by (simp add: pop_frame_def)
  have "sent_frames s' = sent_frames s" by (simp add: s' sent_frames_def writing_def q)
  then show ?thesis using assms(2) q by (simp add: service_ok_def service_ok_defs answered_def unanswered_def reader_jobs_def writing_def s')
qed

lemma write_frame_ok:
  assumes "write_frame b s = Some s'" "service_ok hello s"
  shows "service_ok hello s'"
proof -
  obtain f where q: "sv_writer s = Writing f" using assms(1) by (auto simp: write_frame_def split: writer.splits)
  define s1 where "s1 = s\<lparr>sv_writer := Waiting_for_frame, sv_sink := sv_sink s @ [f], sv_pending := sv_pending s - 1\<rparr>"
  have s': "s' = s1\<lparr>sv_starting := (if b then sv_starting s else sv_starting s @ [''eof''])\<rparr>"
    using q assms(1) by (simp add: write_frame_def s1_def)
  have "sent_frames s1 = sent_frames s" by (simp add: s1_def sent_frames_def writing_def q)
  then have "service_ok hello s1"
    using assms(2) q by (simp add: service_ok_def service_ok_defs answered_def unanswered_def reader_jobs_def writing_def s1_def)
  then show ?thesis unfolding s' starting_ok .
qed

lemma begin_shutdown_ok:
  assumes "begin_shutdown k s = Some s'" "service_ok hello s"
  shows "service_ok hello s'"
proof (cases "sv_did_shutdown s")
  case True
  then show ?thesis using assms by (auto simp: begin_shutdown_def Let_def split: if_splits)
next
  case False
  define s1 where "s1 = s\<lparr>sv_did_shutdown := True, sv_stopping := True, sv_phase := Draining (sv_starting s ! k)\<rparr>"
  have "s' = s1\<lparr>sv_starting := take k (sv_starting s) @ drop (Suc k) (sv_starting s)\<rparr>"
    using False assms(1) by (auto simp: begin_shutdown_def Let_def s1_def split: if_splits)
  moreover have "service_ok hello s1"
    using assms(2) False by (simp add: service_simps s1_def)
  ultimately show ?thesis by simp
qed

text \<open>When nothing is in flight, everything that came in has been answered.\<close>

lemma nothing_in_flight:
  assumes "service_ok hello s" "sv_in_flight s = 0" "sv_phase s = Draining reason"
  shows "image_mset jb_id (mset (sv_accepted s)) \<subseteq># answered s"
proof -
  have c: "reader_jobs s = []" "sv_jobs s = []" "sv_workers s = []"
    using assms(1,2) by (simp_all add: service_ok_def counts_ok_def)
  then have "unanswered s = {#}" by (simp add: unanswered_def)
  moreover have "sv_refused s = []" "sv_lost s = []" using assms(1,3) by (simp_all add: service_ok_def phase_ok_def)
  ultimately have "image_mset jb_id (mset (sv_accepted s)) + mset (sv_rejected s) = answered s"
    using assms(1) by (simp add: service_ok_def books_ok_def)
  then show ?thesis by (metis mset_subset_eq_add_left)
qed

lemma end_wait_ok:
  assumes "end_wait b s = Some s'" "service_ok hello s"
  shows "service_ok hello s'"
proof -
  obtain reason where p: "sv_phase s = Draining reason" using assms(1) by (auto simp: end_wait_def split: phase.splits)
  show ?thesis
  proof (cases b)
    case True
    with p assms(1) have s': "s' = s\<lparr>sv_phase := Drained reason\<rparr>" by (simp add: end_wait_def)
    show ?thesis using assms(2) p by (simp add: service_simps s')
  next
    case False
    with p assms(1) have "sv_in_flight s = 0" and s': "s' = s\<lparr>sv_phase := Drained reason, sv_counted := sv_accepted s\<rparr>"
      by (simp_all add: end_wait_def split: if_splits)
    from nothing_in_flight [OF assms(2) this(1) p] show ?thesis
      using assms(2) p by (simp add: service_simps s')
  qed
qed

lemma close_jobs_ok: "close_jobs s = Some s' \<Longrightarrow> service_ok hello s \<Longrightarrow> service_ok hello s'"
  by (cases "sv_phase s") (simp_all add: close_jobs_def service_simps, (elim conjE, hypsubst, simp))

lemma send_final_ok:
  assumes "send_final ts s = Some s'" "service_ok hello s"
  shows "service_ok hello s'"
proof -
  obtain reason where p: "sv_phase s = Jobs_closed reason" using assms(1) by (auto simp: send_final_def split: phase.splits)
  then have s': "s' = (enqueue_final (shutdown_frame ts reason) s)\<lparr>sv_phase := Shut_down reason\<rparr>"
    using assms(1) by (simp add: send_final_def)
  have f: "sent_frames s' = sent_frames s @ [shutdown_frame ts reason]"
    by (simp add: s' enqueue_final_def sent_frames_def writing_def)
  then have "answered s' = answered s" "is_final (last (sent_frames s'))" by (simp_all add: answered_def shutdown_frame_def)
  with f show ?thesis using assms(2) p
    by (simp add: service_ok_def service_ok_defs s' enqueue_final_def writing_def unanswered_def reader_jobs_def)
qed

lemmas action_ok = check_stopping_ok read_line_ok handle_line_ok take_job_ok run_job_ok leave_ok forward_event_ok
  pop_frame_ok write_frame_ok begin_shutdown_ok end_wait_ok close_jobs_ok send_final_ok

lemma service_step_ok: "service_step env a s = Some s' \<Longrightarrow> service_ok hello s \<Longrightarrow> service_ok hello s'"
  by (cases a) (auto dest: action_ok)

lemma service_run_ok: "service_run env as s = Some s' \<Longrightarrow> service_ok hello s \<Longrightarrow> service_ok hello s'"
  by (induction as arbitrary: s) (auto simp: Option.bind_eq_Some_conv dest: service_step_ok)

text \<open>Once the output is closed no frame is added, by any run.\<close>

lemma closed_step:
  assumes "service_step env a s = Some s'" "sv_closed s" "service_ok hello s"
  shows "sent_frames s' = sent_frames s \<and> sv_closed s'"
proof -
  have e: "enqueue f b s = s" for f b using assms(2) by (simp add: enqueue_def)
  have p: "is_shut_down (sv_phase s)" using assms(2,3) by (simp add: service_ok_def phase_ok_def)
  have q: "\<not> is_shut_down (sv_phase s)" if "end_wait b s = Some s' \<or> close_jobs s = Some s' \<or> send_final ts s = Some s'" for b ts
    using that by (auto simp: end_wait_def close_jobs_def send_final_def split: phase.splits)
  show ?thesis
  proof (cases a)
    case (Read_line l)
    then show ?thesis using assms
      by (cases l) (auto simp: read_line_def send_error_def send_reply_def Let_def e split: if_splits)
  next
    case Handle_line
    then show ?thesis using assms
      by (auto simp: handle_line_def send_error_def send_reply_def Let_def e split: reader.splits sum.splits if_splits)
  next
    case (Run_job w r)
    then show ?thesis using assms
      by (auto simp: run_job_def send_reply_def Let_def e split: if_splits worker.splits)
  next
    case Pop_frame
    then show ?thesis using assms
      by (auto simp: pop_frame_def sent_frames_def writing_def split: writer.splits list.splits)
  next
    case (Write_frame b)
    then show ?thesis using assms
      by (auto simp: write_frame_def sent_frames_def writing_def split: writer.splits)
  qed (use assms p q in \<open>auto simp: check_stopping_def take_job_def leave_def forward_event_def begin_shutdown_def Let_def e
      split: if_splits list.splits worker.splits\<close>)
qed

lemma closed_run:
  "service_run env as s = Some s' \<Longrightarrow> sv_closed s \<Longrightarrow> service_ok hello s \<Longrightarrow> sent_frames s' = sent_frames s"
proof (induction as arbitrary: s)
  case (Cons a as)
  then obtain s1 where s1: "service_step env a s = Some s1" "service_run env as s1 = Some s'"
    by (auto simp: Option.bind_eq_Some_conv)
  with closed_step [OF s1(1) Cons.prems(2,3)] Cons.IH [OF s1(2)] service_step_ok [OF s1(1) Cons.prems(3)]
  show ?case by simp
qed simp

section \<open>The transport's promises\<close>



end
