(* ===== verification/Spec2Isabelle.thy ===== *)
theory Spec2Isabelle
  imports DispatchLaws Transport
begin

text \<open>
  GN Drive is a macOS application around rclone. Its engine is the Rust crate
  \<open>src/crates/gn-drive-core\<close>; the window, the command line and a JSON protocol on stdin and
  stdout are clients of it. This development models the engine, from the values it stores to the
  last frame of the protocol. File names below are relative to \<open>src/crates/gn-drive-core/src\<close>.

  \<^bold>\<open>Parts, bottom up.\<close>

  \<^item> \<open>Prelude\<close>: what the crates use of Rust's strings and integers, and the lemmas all theories
    share. \<open>Numbers\<close>: \<open>f64\<close> as rationals with infinities and NaN, casts, JSON values.
  \<^item> \<open>Models\<close> (\<open>models.rs\<close>), \<open>RcloneTypes\<close> (\<open>rclone/types.rs\<close>, \<open>rclone/mod.rs\<close>): records and
    constants, the normal forms of directions and actions, what rclone is told.
  \<^item> \<open>RcloneArgs\<close>, \<open>Client\<close> (\<open>rclone/client.rs\<close>): the option list of a run and rclone's reading of
    it; the commands over a runner; a streamed run as the interleaving of its threads.
    \<open>Tracker\<close> (\<open>rclone/stats.rs\<close>): the transfer table and the two parsers of log lines.
  \<^item> \<open>BoardTopo\<close>, \<open>Board\<close> (\<open>board_engine.rs\<close>): layers of a board's graph, the worker, its runs.
  \<^item> \<open>EventBus\<close> (\<open>event_bus.rs\<close>) and \<open>RuntimeHub\<close> (\<open>runtime_hub.rs\<close>): events, mailboxes and the
    live state shown for every flow.
  \<^item> \<open>CronParse\<close>, \<open>Cron\<close> (\<open>cron.rs\<close>): expressions, the next fire time over a calendar, the runner.
  \<^item> \<open>SyncTypes\<close>, \<open>SyncEngine\<close> (\<open>sync_engine.rs\<close>): admission by profile, the worker, cancelling and
    waiting, schedules. \<open>FlowEngine\<close> (\<open>flow_engine.rs\<close>): operations of a flow, one after another.
  \<^item> \<open>Argon2\<close>, \<open>Crypto\<close>, \<open>SecureStore\<close>, \<open>Auth\<close> (\<open>argon2id.rs\<close>, \<open>crypto.rs\<close>, \<open>keychain.rs\<close>,
    \<open>auth.rs\<close>): password hashes, encrypted files with every I/O failure, the master password.
  \<^item> \<open>Database\<close>, \<open>Store\<close>, \<open>StoreLaws\<close> (\<open>database.rs\<close>, \<open>store.rs\<close>): the SQL statements as functions on
    tables, transactions with a fault at any statement, and what the calls promise.
  \<^item> \<open>Container\<close> (\<open>container.rs\<close>): wiring; opening and closing the data plane.
  \<^item> \<open>Redact\<close>, \<open>RpcJson\<close>, \<open>RpcModels\<close>, \<open>LogBuffer\<close>, \<open>Dispatcher\<close>, \<open>DispatchLaws\<close> (\<open>rpc/error.rs\<close>,
    \<open>params.rs\<close>, \<open>json.rs\<close>, \<open>log_buffer.rs\<close>, \<open>dispatcher.rs\<close>): redaction of credentials, parameters
    and error codes, the JSON of every value, the methods, and what every request keeps.
  \<^item> \<open>Framing\<close>, \<open>Transport\<close> (\<open>rpc/stdio.rs\<close>): lines out of a byte stream; reader, workers, writer
    and shutdown of the service.

  \<^bold>\<open>How they interact.\<close> A request enters as a line (\<open>Framing\<close>), becomes a job (\<open>Transport\<close>) and runs
  one method (\<open>Dispatcher.handle\<close>) on the container's state, the record \<open>app\<close>: authentication,
  store, engines, hub. Methods call the store (every SQL statement may fail) and the engines;
  engines start workers, which run between requests. The container owns the store; engines
  hold read functions of its current value, renewed by \<open>set_store\<close>. Authentication encrypts the
  configuration when the application locks, so the data plane is taken down first.

  \<^bold>\<open>Modelling conventions.\<close> State is a record passed along; a Rust \<open>Result\<close> is a sum (\<open>Ok\<close>/\<open>Err\<close>);
  a panic is \<open>Panics\<close>. A lock-protected section is one function; code that runs concurrently is a
  step relation or a list of actions over such functions, so theorems hold for every
  interleaving. Time, random bytes, ids, SQLite's faults, the cryptographic primitives, JSON text
  and rclone's answers are arguments; what is relied on of them is a named predicate
  (\<open>argon_crate_ok\<close>, \<open>aead_ok\<close>, \<open>calendar_ok\<close> and the like) that demonstration instances meet.
  Integers are \<open>int\<close> with the bound or wrap written where the code can reach it, words in the hash.

  \<^bold>\<open>Interfaces.\<close> \<open>newest_buffer\<close> (a push keeps the newest entries) is interpreted on the bus
  mailboxes, the runtime log and the log ring; \<open>effect_invariant\<close> and its extension
  \<open>request_invariant\<close> lift a condition on single effects to every method and are interpreted on
  the sealed application and on the wholeness of the data plane. The other locales are documented
  in the theories that interpret them.

  \<^bold>\<open>What is shown.\<close> Orders and exclusion: one worker per profile and the refinement of an abstract
  lock, board nodes after their predecessors, flows in order, events and frames in order. Data:
  saves are all or nothing, flows and profiles read back, the encrypted configuration survives
  every failure, ten wrong passwords lock. Protocol: nothing opens a locked application but its
  password, a running flow is not edited, each request is answered once and the shutdown frame is
  last, framing is independent of how bytes arrive. Functions: cron's next fire time against
  the calendar, topological layers, options against rclone's reading of them, redaction.

  \<^bold>\<open>Bounds and fuel.\<close> Loops over lists are structural; the line pump, the reader loop and the
  URL-free parsers have measures. The search for a fire time is bounded by the code itself
  (a horizon of years), and \<open>next_naive_complete\<close> shows that a match inside it is found. Runs of
  boards, flows and syncs carry the list of answers rclone gives, so they end with it.

  \<^bold>\<open>Not modelled.\<close> \<open>rpc/bridge.rs\<close> (wall-clock coalescing of pushed events), \<open>rpc/oauth.rs\<close> and
  \<open>rpc/handlers_remotes.rs\<close> (child processes and the host's service manager; their answers are the
  argument \<open>rq_rest\<close> of the dispatcher), \<open>instance_lock.rs\<close>, \<open>health.rs\<close>, \<open>launchd.rs\<close>,
  \<open>self_update.rs\<close>, \<open>paths.rs\<close> and the console side of \<open>logger.rs\<close> (system calls, HTTP, plists),
  the test doubles, the command line and the GPUI window, which is a client of the dispatcher.
\<close>

end
